(* ===== verification/Prelude.thy ===== *)
theory Prelude
  imports Complex_Main "HOL-Library.Char_ord" "HOL-Library.List_Lexorder"
    "HOL-Library.Product_Lexorder" "HOL-Library.Sublist"
begin

text \<open>
  Shared vocabulary of the development: the exceptions of the program as values, the result
  type of an operation that may raise, the Python string operations the sources use, decimal
  digits, and database tables as lists of rows with the lookup and in-place update of a row by
  its key.  A Python \<open>str\<close> is a list of characters U+0000 to U+00FF, one \<open>char\<close> per code point.
\<close>

named_theorems table_simps "lookups in and updates of keyed tables"
named_theorems eval_simps "evaluation of the model on concrete inputs"

section \<open>Exceptions as values\<close>

text \<open>
  The subclasses of \<open>DomainError\<close> in \<open>errors.py\<close> and \<open>auth.py\<close>, the built-in exceptions the
  sources raise, the \<open>decimal\<close> signal, the two database errors a constraint declared in
  \<open>models.py\<close> can cause, and any other exception of an injected adapter (class name, text).
\<close>

datatype pyexn =
    NotFoundError string
  | ConflictError string
  | ForbiddenError string
  | InvalidTransitionError string
  | AuthenticationError string
  | ValueError string
  | RuntimeError string
  | InvalidOperation
  | IntegrityError string
  | DataError string
  | OtherError string string

type_synonym 'a result = "pyexn + 'a"

text \<open>\<open>type(exc).__name__\<close> and \<open>str(exc)\<close>, used in the text of a delivery failure.\<close>

fun exn_name :: "pyexn \<Rightarrow> string" where
  "exn_name (NotFoundError _) = ''NotFoundError''"
| "exn_name (ConflictError _) = ''ConflictError''"
| "exn_name (ForbiddenError _) = ''ForbiddenError''"
| "exn_name (InvalidTransitionError _) = ''InvalidTransitionError''"
| "exn_name (AuthenticationError _) = ''AuthenticationError''"
| "exn_name (ValueError _) = ''ValueError''"
| "exn_name (RuntimeError _) = ''RuntimeError''"
| "exn_name InvalidOperation = ''InvalidOperation''"
| "exn_name (IntegrityError _) = ''IntegrityError''"
| "exn_name (DataError _) = ''DataError''"
| "exn_name (OtherError n _) = n"

definition squote :: string where
  "squote = [CHR 0x27]"

fun exn_text :: "pyexn \<Rightarrow> string" where
  "exn_text (NotFoundError m) = m"
| "exn_text (ConflictError m) = m"
| "exn_text (ForbiddenError m) = m"
| "exn_text (InvalidTransitionError m) = m"
| "exn_text (AuthenticationError m) = m"
| "exn_text (ValueError m) = m"
| "exn_text (RuntimeError m) = m"
| "exn_text InvalidOperation = ''[<class '' @ squote @ ''decimal.ConversionSyntax'' @ squote @ ''>]''"
| "exn_text (IntegrityError m) = m"
| "exn_text (DataError m) = m"
| "exn_text (OtherError _ m) = m"

section \<open>Python strings\<close>

definition is_space :: "char \<Rightarrow> bool" where
  "is_space c = (let n = (of_char c :: nat) in
     (9 \<le> n \<and> n \<le> 13) \<or> (28 \<le> n \<and> n \<le> 32) \<or> n = 133 \<or> n = 160)"

definition strip :: "string \<Rightarrow> string" where
  "strip s = rev (dropWhile is_space (rev (dropWhile is_space s)))"

text \<open>\<open>not key.strip()\<close>: the string has only white space.\<close>

definition blank :: "string \<Rightarrow> bool" where
  "blank s = (strip s = [])"

lemma strip_id: "\<forall>c\<in>set s. \<not> is_space c \<Longrightarrow> strip s = s"
proof -
  assume a: "\<forall>c\<in>set s. \<not> is_space c"
  have d: "dropWhile is_space xs = xs" if "\<forall>c\<in>set xs. \<not> is_space c" for xs
    using that by (cases xs) auto
  from a show ?thesis by (simp add: strip_def d)
qed

lemma dropWhile_Nil_iff: "dropWhile P s = [] \<longleftrightarrow> (\<forall>c\<in>set s. P c)"
  by (induction s) auto

lemma blank_iff: "blank s \<longleftrightarrow> (\<forall>c\<in>set s. is_space c)"
proof -
  have "blank s \<longleftrightarrow> (\<forall>c\<in>set (dropWhile is_space s). is_space c)"
    by (simp add: blank_def strip_def dropWhile_Nil_iff)
  also have "\<dots> \<longleftrightarrow> (\<forall>c\<in>set s. is_space c)"
    by (induction s) auto
  finally show ?thesis .
qed

text \<open>\<open>s.split()\<close>: the maximal runs of characters that are not white space.\<close>

fun split_ws :: "string \<Rightarrow> string \<Rightarrow> string list" where
  "split_ws acc [] = (if acc = [] then [] else [acc])"
| "split_ws acc (c # cs) =
     (if is_space c then (if acc = [] then split_ws [] cs else acc # split_ws [] cs)
      else split_ws (acc @ [c]) cs)"

fun join :: "string \<Rightarrow> string list \<Rightarrow> string" where
  "join sep [] = []"
| "join sep [x] = x"
| "join sep (x # y # ys) = x @ sep @ join sep (y # ys)"

text \<open>\<open>" ".join(s.split())\<close>\<close>

definition squash :: "string \<Rightarrow> string" where
  "squash s = join '' '' (split_ws [] s)"

section \<open>Decimal digits\<close>

definition digit :: "nat \<Rightarrow> char" where
  "digit d = ''0123456789'' ! d"

definition is_digit :: "char \<Rightarrow> bool" where
  "is_digit c = (48 \<le> (of_char c :: nat) \<and> (of_char c :: nat) \<le> 57)"

definition digit_val :: "char \<Rightarrow> nat" where
  "digit_val c = of_char c - 48"

fun show_nat :: "nat \<Rightarrow> string" where
  "show_nat n = (if n < 10 then [digit n] else show_nat (n div 10) @ [digit (n mod 10)])"

declare show_nat.simps [simp del]

lemma show_nat_eval [eval_simps]:
  "n < 10 \<Longrightarrow> show_nat n = [digit n]"
  "\<not> n < 10 \<Longrightarrow> show_nat n = show_nat (n div 10) @ [digit (n mod 10)]"
  by (simp_all add: show_nat.simps [of n])

declare digit_def [eval_simps]

definition show_int :: "int \<Rightarrow> string" where
  "show_int i = (if i < 0 then ''-'' @ show_nat (nat (- i)) else show_nat (nat i))"

definition read_nat :: "string \<Rightarrow> nat" where
  "read_nat s = foldl (\<lambda>a c. 10 * a + digit_val c) 0 s"

definition pad :: "nat \<Rightarrow> string \<Rightarrow> string" where
  "pad w s = replicate (w - length s) (CHR ''0'') @ s"

lemma replicate_numeral [simp]: "replicate (numeral k) x = x # replicate (pred_numeral k) x"
  by (simp add: numeral_eq_Suc)

lemma of_char_digit:
  assumes "d < 10"
  shows "of_char (digit d) = (48 + d :: nat)"
proof -
  from assms have "d \<in> {0, 1, 2, 3, 4, 5, 6, 7, 8, 9}" by auto
  then show ?thesis by (auto simp: digit_def)
qed

lemma digit_digit_val [simp]: "d < 10 \<Longrightarrow> is_digit (digit d)" "d < 10 \<Longrightarrow> digit_val (digit d) = d"
  by (simp_all add: is_digit_def digit_val_def of_char_digit)

lemma is_digit_0 [simp]: "is_digit (CHR ''0'')" "digit_val (CHR ''0'') = 0"
  by (simp_all add: is_digit_def digit_val_def)

lemma digit_0: "digit 0 = CHR ''0''"
  by (simp add: digit_def)

lemma read_nat_snoc [simp]: "read_nat (s @ [c]) = 10 * read_nat s + digit_val c"
  by (simp add: read_nat_def)

lemma read_nat_Nil [simp]: "read_nat [] = 0"
  by (simp add: read_nat_def)

lemma show_nat_digits: "\<forall>c\<in>set (show_nat n). is_digit c"
proof (induction n rule: show_nat.induct)
  case (1 n)
  then show ?case by (subst show_nat.simps) auto
qed

lemma read_show_nat [simp]: "read_nat (show_nat n) = n"
proof (induction n rule: show_nat.induct)
  case (1 n)
  show ?case
  proof (cases "n < 10")
    case True
    then show ?thesis by (subst show_nat.simps) (simp add: read_nat_def)
  next
    case False
    with "1.IH" show ?thesis by (subst show_nat.simps) simp
  qed
qed

lemma show_nat_nonempty [simp]: "show_nat n \<noteq> []"
  by (subst show_nat.simps) simp

lemma show_nat_inject [simp]: "show_nat m = show_nat n \<longleftrightarrow> m = n"
  by (metis read_show_nat)

text \<open>The number of digits bounds the number from both sides.\<close>

lemma show_nat_length_le: "length (show_nat n) \<le> Suc k \<longleftrightarrow> n < 10 ^ Suc k"
proof (induction n arbitrary: k rule: show_nat.induct)
  case (1 n)
  show ?case
  proof (cases "n < 10")
    case True
    have "(10::nat) \<le> 10 ^ Suc k" by simp
    with True have "n < 10 ^ Suc k" by linarith
    with True show ?thesis by (simp add: show_nat.simps [of n])
  next
    case False
    show ?thesis
    proof (cases k)
      case 0
      with False show ?thesis by (simp add: show_nat.simps [of n])
    next
      case (Suc j)
      have "length (show_nat (n div 10)) \<le> Suc j \<longleftrightarrow> n div 10 < 10 ^ Suc j"
        using "1.IH" False by blast
      also have "\<dots> \<longleftrightarrow> n < 10 ^ Suc k"
        using Suc by (simp add: div_less_iff_less_mult mult.commute)
      finally show ?thesis
        using False Suc by (simp add: show_nat.simps [of n])
    qed
  qed
qed

lemma read_nat_zeros [simp]: "read_nat (replicate k (CHR ''0'') @ s) = read_nat s"
proof -
  have "foldl (\<lambda>a c. 10 * a + digit_val c) 0 (replicate k (CHR ''0'')) = 0"
    by (induction k) simp_all
  then show ?thesis by (simp add: read_nat_def)
qed

lemma read_nat_pad [simp]: "read_nat (pad w (show_nat n)) = n"
  by (simp add: pad_def)

lemma length_pad: "length (pad w s) = max w (length s)"
  by (simp add: pad_def)

lemma digit_not_special:
  assumes "is_digit c"
  shows "\<not> is_space c" "c \<noteq> CHR ''_''" "c \<noteq> CHR ''-''" "c \<noteq> CHR ''+''" "c \<noteq> CHR ''.''"
    "c \<noteq> CHR ''e''" "c \<noteq> CHR ''E''" "c \<noteq> CHR '':''"
proof -
  have "is_digit x \<Longrightarrow> x \<noteq> y" if "\<not> is_digit y" for x y using that by blast
  then show "c \<noteq> CHR ''_''" "c \<noteq> CHR ''-''" "c \<noteq> CHR ''+''" "c \<noteq> CHR ''.''"
    "c \<noteq> CHR ''e''" "c \<noteq> CHR ''E''" "c \<noteq> CHR '':''"
    using assms by (auto simp: is_digit_def)
  show "\<not> is_space c" using assms by (auto simp: is_digit_def is_space_def Let_def)
qed

lemma takeWhile_digits: "\<forall>c\<in>set s. is_digit c \<Longrightarrow> \<not> is_digit d \<Longrightarrow>
    takeWhile is_digit (s @ d # r) = s \<and> dropWhile is_digit (s @ d # r) = d # r"
  by (simp add: takeWhile_append dropWhile_append)

lemma takeWhile_all_digits: "\<forall>c\<in>set s. is_digit c \<Longrightarrow>
    takeWhile is_digit s = s \<and> dropWhile is_digit s = []"
  by (simp add: takeWhile_eq_all_conv)

lemma pad_digits: "\<forall>c\<in>set s. is_digit c \<Longrightarrow> c \<in> set (pad w s) \<Longrightarrow> is_digit c"
  by (auto simp: pad_def)

section \<open>Tables\<close>

text \<open>
  A table is the list of its rows in insertion order.  \<open>lookup\<close> is \<open>session.get\<close> or a
  \<open>select\<close> on a unique column; \<open>modify\<close> is the assignment of attributes of one loaded row.
\<close>

definition lookup :: "('r \<Rightarrow> 'k) \<Rightarrow> 'k \<Rightarrow> 'r list \<Rightarrow> 'r option" where
  "lookup key k t = find (\<lambda>r. key r = k) t"

definition modify :: "('r \<Rightarrow> 'k) \<Rightarrow> 'k \<Rightarrow> ('r \<Rightarrow> 'r) \<Rightarrow> 'r list \<Rightarrow> 'r list" where
  "modify key k f t = map (\<lambda>r. if key r = k then f r else r) t"

lemma lookup_Nil [table_simps]: "lookup key k [] = None"
  by (simp add: lookup_def)

lemma lookup_Cons [table_simps]:
  "lookup key k (r # t) = (if key r = k then Some r else lookup key k t)"
  by (simp add: lookup_def)

lemma lookup_Some: "lookup key k t = Some r \<Longrightarrow> r \<in> set t \<and> key r = k"
  by (auto simp: lookup_def find_Some_iff)

lemma lookup_None: "lookup key k t = None \<longleftrightarrow> k \<notin> key ` set t"
  by (auto simp: lookup_def find_None_iff)

lemma lookup_append [table_simps]:
  "lookup key k (t @ u) = (case lookup key k t of Some r \<Rightarrow> Some r | None \<Rightarrow> lookup key k u)"
  by (induction t) (auto simp: table_simps)

lemma lookup_in: "distinct (map key t) \<Longrightarrow> r \<in> set t \<Longrightarrow> lookup key (key r) t = Some r"
  by (induction t) (auto simp: table_simps)

lemma lookup_iff:
  "distinct (map key t) \<Longrightarrow> lookup key k t = Some r \<longleftrightarrow> r \<in> set t \<and> key r = k"
  using lookup_in lookup_Some by fastforce

lemma keyed_unique:
  "distinct (map key t) \<Longrightarrow> x \<in> set t \<Longrightarrow> y \<in> set t \<Longrightarrow> key x = key y \<Longrightarrow> x = y"
  by (auto simp: distinct_map inj_on_def)

lemma map_modify [table_simps]:
  "(\<And>r. g (f r) = g r) \<Longrightarrow> map g (modify key k f t) = map g t"
  by (auto simp: modify_def)

lemma image_modify [table_simps]:
  "(\<And>r. g (f r) = g r) \<Longrightarrow> g ` set (modify key k f t) = g ` set t"
  by (metis list.set_map map_modify)

lemma lookup_modify [table_simps]:
  "(\<And>r. key (f r) = key r) \<Longrightarrow>
   lookup key j (modify key k f t) = (if j = k then map_option f (lookup key j t) else lookup key j t)"
  by (induction t) (auto simp: modify_def table_simps)

lemma in_modify:
  "r \<in> set (modify key k f t) \<longleftrightarrow>
     (\<exists>r0\<in>set t. r = (if key r0 = k then f r0 else r0))"
  unfolding modify_def set_map image_iff by blast

lemma modify_same: "r \<in> set t \<Longrightarrow> key r = k \<Longrightarrow> f r \<in> set (modify key k f t)"
  by (auto simp: in_modify)

lemma modify_other: "r \<in> set t \<Longrightarrow> key r \<noteq> k \<Longrightarrow> r \<in> set (modify key k f t)"
  unfolding in_modify by (rule bexI [of _ r]) simp_all

lemma length_modify [simp]: "length (modify key k f t) = length t"
  by (simp add: modify_def)

lemma modify_id: "k \<notin> key ` set t \<Longrightarrow> modify key k f t = t"
  by (induction t) (auto simp: modify_def)

section \<open>Codecs\<close>

text \<open>
  A text format: \<open>dec\<close> reads back every admissible value that \<open>enc\<close> wrote.  Instances are the
  decimal and the timestamp formats, canonical JSON and the outbox payload.
\<close>

locale codec =
  fixes enc :: "'a \<Rightarrow> 't" and dec :: "'t \<Rightarrow> 'a result" and ok :: "'a \<Rightarrow> bool"
  assumes dec_enc: "ok x \<Longrightarrow> dec (enc x) = Inr x"
begin

lemma enc_inject: "ok x \<Longrightarrow> ok y \<Longrightarrow> enc x = enc y \<longleftrightarrow> x = y"
  by (metis dec_enc sum.inject(2))

lemma enc_inj_on: "inj_on enc {x. ok x}"
  by (auto simp: inj_on_def enc_inject)

lemma enc_cases: "ok x \<Longrightarrow> ok y \<Longrightarrow> x \<noteq> y \<Longrightarrow> enc x \<noteq> enc y"
  by (simp add: enc_inject)

end

end
