(* ===== verification/Decimals.thy ===== *)
theory Decimals
  imports Prelude
begin

text \<open>
  Finite \<open>decimal.Decimal\<close> values as the sources use them: comparison, addition, multiplication
  and \<open>quantize\<close> under the default context (precision 28, ROUND_HALF_EVEN), \<open>format(d, "f")\<close>
  and the constructor \<open>Decimal(text)\<close>.  A value is (-1)^sign * coefficient * 10^exponent, so
  that 40 and 40.0 differ as written and agree in value.  NaN and the infinities (refused by the
  request schemas) and the exponent limits of the context (+-999999) are outside the model.
\<close>

datatype decimal = Dec (dneg: bool) (dcoef: nat) (dexp: int)

datatype rounding = ROUND_HALF_EVEN | ROUND_HALF_UP

definition dsig :: "decimal \<Rightarrow> int" where
  "dsig d = (if dneg d then - int (dcoef d) else int (dcoef d))"

text \<open>The rational value, for statements only.\<close>

definition dec_val :: "decimal \<Rightarrow> rat" where
  "dec_val d = of_int (dsig d) * 10 powi dexp d"

text \<open>The signed coefficient of \<open>d\<close> at an exponent \<open>e \<le> dexp d\<close>.\<close>

definition dsig_at :: "int \<Rightarrow> decimal \<Rightarrow> int" where
  "dsig_at e d = dsig d * 10 ^ nat (dexp d - e)"

definition dec_le :: "decimal \<Rightarrow> decimal \<Rightarrow> bool" where
  "dec_le a b = (let e = min (dexp a) (dexp b) in dsig_at e a \<le> dsig_at e b)"

definition dec_less :: "decimal \<Rightarrow> decimal \<Rightarrow> bool" where
  "dec_less a b = (\<not> dec_le b a)"

section \<open>Rounding\<close>

text \<open>\<open>c / p\<close> as a whole number, \<open>p\<close> a power of ten.\<close>

definition round_div :: "rounding \<Rightarrow> nat \<Rightarrow> nat \<Rightarrow> nat" where
  "round_div m c p =
     (let q = c div p; r = c mod p in
      case m of
        ROUND_HALF_UP \<Rightarrow> if p \<le> 2 * r then q + 1 else q
      | ROUND_HALF_EVEN \<Rightarrow> if p < 2 * r \<or> (2 * r = p \<and> odd q) then q + 1 else q)"

definition PREC :: nat where
  "PREC = 28"

text \<open>The result of an operation, rounded to the context's precision.\<close>

definition dec_fix :: "decimal \<Rightarrow> decimal" where
  "dec_fix d =
     (let n = length (show_nat (dcoef d)) in
      if n \<le> PREC then d
      else let k = n - PREC; c = round_div ROUND_HALF_EVEN (dcoef d) (10 ^ k) in
        if c = 10 ^ PREC then Dec (dneg d) (10 ^ (PREC - 1)) (dexp d + int k + 1)
        else Dec (dneg d) c (dexp d + int k))"

definition dec_add :: "decimal \<Rightarrow> decimal \<Rightarrow> decimal" where
  "dec_add a b =
     (let e = min (dexp a) (dexp b); s = dsig_at e a + dsig_at e b in
      dec_fix (Dec (s < 0 \<or> (s = 0 \<and> dneg a \<and> dneg b)) (nat \<bar>s\<bar>) e))"

definition dec_mul :: "decimal \<Rightarrow> decimal \<Rightarrow> decimal" where
  "dec_mul a b = dec_fix (Dec (dneg a \<noteq> dneg b) (dcoef a * dcoef b) (dexp a + dexp b))"

text \<open>\<open>d.quantize(Decimal("1E<e>"), rounding=m)\<close>; more than 28 digits signal InvalidOperation.\<close>

definition dec_quantize :: "rounding \<Rightarrow> int \<Rightarrow> decimal \<Rightarrow> decimal result" where
  "dec_quantize m e d =
     (let c = (if e \<le> dexp d then dcoef d * 10 ^ nat (dexp d - e)
               else round_div m (dcoef d) (10 ^ nat (e - dexp d))) in
      if PREC < length (show_nat c) then Inl InvalidOperation else Inr (Dec (dneg d) c e))"

text \<open>\<open>sum(ds, Decimal("0"))\<close>\<close>

definition dec_sum :: "decimal list \<Rightarrow> decimal" where
  "dec_sum ds = foldl dec_add (Dec False 0 0) ds"

section \<open>Text\<close>

text \<open>\<open>format(d, "f")\<close>: a zero with a positive exponent is written at exponent 0.\<close>

definition dec_format :: "decimal \<Rightarrow> string" where
  "dec_format d =
     (let e = (if dcoef d = 0 \<and> 0 < dexp d then 0 else dexp d);
          sgn = (if dneg d then ''-'' else '''') in
      if 0 \<le> e then sgn @ show_nat (dcoef d) @ replicate (nat e) (CHR ''0'')
      else let k = nat (- e); s = pad (k + 1) (show_nat (dcoef d)); n = length s - k in
        sgn @ take n s @ ''.'' @ drop n s)"

text \<open>
  \<open>Decimal(text)\<close> on finite numerals: surrounding white space and underscores are dropped; then
  an optional sign, digits with an optional point (at least one digit), an optional exponent.
\<close>

definition read_sign :: "string \<Rightarrow> bool \<times> string" where
  "read_sign s = (case s of [] \<Rightarrow> (False, [])
     | c # cs \<Rightarrow> if c = CHR ''-'' then (True, cs) else if c = CHR ''+'' then (False, cs) else (False, s))"

definition read_exponent :: "string \<Rightarrow> int option" where
  "read_exponent s = (case s of [] \<Rightarrow> Some 0
     | c # cs \<Rightarrow>
         if c = CHR ''e'' \<or> c = CHR ''E'' then
           (let (neg, ds) = read_sign cs in
            if ds \<noteq> [] \<and> list_all is_digit ds
            then Some (if neg then - int (read_nat ds) else int (read_nat ds)) else None)
         else None)"

definition read_fraction :: "string \<Rightarrow> string \<times> string" where
  "read_fraction s = (case s of [] \<Rightarrow> ([], [])
     | c # cs \<Rightarrow> if c = CHR ''.'' then (takeWhile is_digit cs, dropWhile is_digit cs) else ([], s))"

definition dec_parse :: "string \<Rightarrow> decimal result" where
  "dec_parse text =
     (let (neg, s) = read_sign (filter (\<lambda>c. c \<noteq> CHR ''_'') (strip text));
          ip = takeWhile is_digit s;
          (fp, rest) = read_fraction (dropWhile is_digit s) in
      if ip = [] \<and> fp = [] then Inl InvalidOperation
      else case read_exponent rest of
             None \<Rightarrow> Inl InvalidOperation
           | Some e \<Rightarrow> Inr (Dec neg (read_nat (ip @ fp)) (e - int (length fp))))"

section \<open>Values\<close>

lemma dsig_at_val: "e \<le> dexp d \<Longrightarrow> of_int (dsig_at e d) * 10 powi e = dec_val d"
proof -
  assume "e \<le> dexp d"
  then have d: "dexp d = int (nat (dexp d - e)) + e" by simp
  have "(10::rat) powi (int n + e) = 10 ^ n * 10 powi e" for n
    by (subst power_int_add) (simp_all add: power_int_of_nat)
  then have "(10::rat) powi dexp d = 10 ^ nat (dexp d - e) * 10 powi e"
    using d by metis
  then show ?thesis by (simp add: dsig_at_def dec_val_def)
qed

lemma dec_le_val: "dec_le a b \<longleftrightarrow> dec_val a \<le> dec_val b"
proof -
  let ?e = "min (dexp a) (dexp b)"
  have "dec_val a \<le> dec_val b \<longleftrightarrow>
      of_int (dsig_at ?e a) * (10::rat) powi ?e \<le> of_int (dsig_at ?e b) * 10 powi ?e"
    by (simp only: dsig_at_val [OF min.cobounded1] dsig_at_val [OF min.cobounded2])
  also have "\<dots> \<longleftrightarrow> dsig_at ?e a \<le> dsig_at ?e b"
    by (subst mult_le_cancel_right_pos) simp_all
  finally show ?thesis by (simp add: dec_le_def Let_def)
qed

lemma dec_less_val: "dec_less a b \<longleftrightarrow> dec_val a < dec_val b"
  by (simp add: dec_less_def dec_le_val not_le)

lemma dec_fix_exact: "dcoef d < 10 ^ PREC \<Longrightarrow> dec_fix d = d"
  using show_nat_length_le [of "dcoef d" 27] by (simp add: dec_fix_def PREC_def Let_def)

lemma dec_val_mul:
  assumes "dcoef a * dcoef b < 10 ^ PREC"
  shows "dec_val (dec_mul a b) = dec_val a * dec_val b"
proof -
  have "dec_mul a b = Dec (dneg a \<noteq> dneg b) (dcoef a * dcoef b) (dexp a + dexp b)"
    unfolding dec_mul_def by (rule dec_fix_exact) (use assms in simp)
  then show ?thesis by (simp add: dec_val_def dsig_def power_int_add)
qed

lemma dneg_dec_fix [simp]: "dneg (dec_fix d) = dneg d"
  by (simp add: dec_fix_def Let_def)

lemma dneg_dec_mul [simp]: "dneg (dec_mul a b) = (dneg a \<noteq> dneg b)"
  by (simp add: dec_mul_def)

section \<open>Rounding to a multiple of a power of ten\<close>

lemma round_div_error:
  assumes "0 < p"
  shows "\<bar>int (round_div m c p) * int p - int c\<bar> * 2 \<le> int p"
proof -
  have c: "int c = int (c div p) * int p + int (c mod p)"
    by (metis div_mult_mod_eq of_nat_add of_nat_mult)
  have r: "int (c mod p) < int p" using assms by simp
  have "int (round_div m c p) \<in> {int (c div p), int (c div p) + 1}"
    by (auto simp: round_div_def Let_def split: rounding.splits)
  moreover have "int (round_div m c p) = int (c div p) + 1 \<Longrightarrow> int p \<le> 2 * int (c mod p)"
    by (auto simp: round_div_def Let_def split: rounding.splits if_splits)
  moreover have "int (round_div m c p) = int (c div p) \<Longrightarrow> 2 * int (c mod p) \<le> int p"
    by (auto simp: round_div_def Let_def split: rounding.splits if_splits)
  ultimately show ?thesis using c r by (auto simp: algebra_simps abs_if)
qed

lemma round_div_half_up: "0 < p \<Longrightarrow> round_div ROUND_HALF_UP c p = (2 * c + p) div (2 * p)"
proof -
  assume p: "0 < p"
  define q r where "q = c div p" and "r = c mod p"
  have c: "c = q * p + r" and r: "r < p" using p by (simp_all add: q_def r_def)
  have dv: "((2 * p) * k + x) div (2 * p) = k" if "x < 2 * p" for k x using p that by simp
  show ?thesis
  proof (cases "p \<le> 2 * r")
    case True
    then have "2 * c + p = (2 * p) * (q + 1) + (2 * r - p)"
      using c by (simp add: algebra_simps)
    moreover have "2 * r - p < 2 * p" using r by simp
    ultimately have "(2 * c + p) div (2 * p) = q + 1" by (simp only: dv)
    then show ?thesis using True by (simp add: round_div_def Let_def q_def r_def)
  next
    case False
    have "2 * c + p = (2 * p) * q + (2 * r + p)"
      using c by (simp add: algebra_simps)
    moreover have "2 * r + p < 2 * p" using False by simp
    ultimately have "(2 * c + p) div (2 * p) = q" by (simp only: dv)
    then show ?thesis using False by (simp add: round_div_def Let_def q_def r_def)
  qed
qed

lemma dec_quantize_shape:
  "dec_quantize m e d = Inr q \<Longrightarrow> dexp q = e \<and> dneg q = dneg d \<and> dcoef q < 10 ^ PREC"
  using show_nat_length_le [of "dcoef q" 27]
  by (auto simp: dec_quantize_def Let_def PREC_def split: if_splits)

lemma dec_quantize_error:
  assumes "dec_quantize m e d = Inr q"
  shows "\<bar>dec_val q - dec_val d\<bar> \<le> 10 powi e / 2"
proof (cases "e \<le> dexp d")
  case True
  with assms have "q = Dec (dneg d) (dcoef d * 10 ^ nat (dexp d - e)) e"
    by (auto simp: dec_quantize_def Let_def split: if_splits)
  then have "dsig_at e q = dsig_at e d" "dexp q = e" by (simp_all add: dsig_at_def dsig_def)
  then have "dec_val q = dec_val d" using dsig_at_val [of e q] dsig_at_val [OF True] by simp
  then show ?thesis by simp
next
  case False
  define k where "k = nat (e - dexp d)"
  define c where "c = round_div m (dcoef d) (10 ^ k)"
  have q: "q = Dec (dneg d) c e"
    using assms False by (auto simp: dec_quantize_def Let_def c_def k_def split: if_splits)
  have e: "(10::rat) powi e = 10 ^ k * 10 powi dexp d"
  proof -
    have "e = int k + dexp d" using False by (simp add: k_def)
    then show ?thesis by (simp only:) (subst power_int_add, simp_all add: power_int_of_nat)
  qed
  have "\<bar>int c * 10 ^ k - int (dcoef d)\<bar> * 2 \<le> 10 ^ k"
    using round_div_error [of "10 ^ k" m "dcoef d"] by (simp add: c_def)
  then have "of_int (\<bar>int c * 10 ^ k - int (dcoef d)\<bar> * 2) \<le> (of_int (10 ^ k) :: rat)"
    by (subst of_int_le_iff)
  then have b: "\<bar>of_nat c * 10 ^ k - of_nat (dcoef d)\<bar> * 2 \<le> (10 ^ k :: rat)" by simp
  have "\<bar>dec_val q - dec_val d\<bar> = \<bar>of_nat c * 10 ^ k - of_nat (dcoef d)\<bar> * (10::rat) powi dexp d"
  proof (cases "dneg d")
    case True
    then have "dec_val q - dec_val d =
        - ((of_nat c * 10 ^ k - of_nat (dcoef d)) * (10::rat) powi dexp d)"
      by (simp add: q dec_val_def dsig_def e algebra_simps)
    then show ?thesis by (simp only: abs_minus_cancel abs_mult) simp
  next
    case False
    then have "dec_val q - dec_val d = (of_nat c * 10 ^ k - of_nat (dcoef d)) * (10::rat) powi dexp d"
      by (simp add: q dec_val_def dsig_def e algebra_simps)
    then show ?thesis by (simp only: abs_mult) simp
  qed
  also have "\<dots> * 2 \<le> 10 ^ k * (10::rat) powi dexp d"
    using mult_right_mono [OF b, of "10 powi dexp d"] by (simp add: algebra_simps)
  finally show ?thesis by (simp add: e)
qed

lemma dneg_dec_sum: "\<forall>d\<in>set ds. \<not> dneg d \<Longrightarrow> \<not> dneg (dec_sum ds)"
proof -
  have add: "\<not> dneg a \<Longrightarrow> \<not> dneg b \<Longrightarrow> \<not> dneg (dec_add a b)" for a b
    by (auto simp: dec_add_def Let_def dsig_at_def dsig_def not_less)
  have "\<not> dneg a \<Longrightarrow> \<forall>d\<in>set ds. \<not> dneg d \<Longrightarrow> \<not> dneg (foldl dec_add a ds)" for a
    by (induction ds arbitrary: a) (auto simp: add)
  then show "\<forall>d\<in>set ds. \<not> dneg d \<Longrightarrow> \<not> dneg (dec_sum ds)" by (simp add: dec_sum_def)
qed

section \<open>Printing and reading back\<close>

lemma minus_plain: "\<not> is_space (CHR ''-'')" "\<not> is_space (CHR ''.'')"
  by (simp_all add: is_space_def Let_def)

lemma read_sign_digits:
  assumes "\<forall>c\<in>set s. is_digit c \<or> c = CHR ''.''"
  shows "read_sign ((if b then ''-'' else '''') @ s) = (b, s)"
proof (cases s)
  case (Cons c cs)
  with assms have "c \<noteq> CHR ''-''" "c \<noteq> CHR ''+''" by (auto dest: digit_not_special)
  with Cons show ?thesis by (simp add: read_sign_def)
qed (simp add: read_sign_def)

lemma plain_text:
  assumes "\<forall>c\<in>set s. is_digit c \<or> c = CHR ''.''"
  shows "read_sign (filter (\<lambda>c. c \<noteq> CHR ''_'') (strip ((if b then ''-'' else '''') @ s))) = (b, s)"
proof -
  let ?t = "(if b then ''-'' else '''') @ s"
  have "\<not> is_space c \<and> c \<noteq> CHR ''_''" if "c \<in> set s" for c
  proof (cases "is_digit c")
    case True
    then show ?thesis by (blast dest: digit_not_special(1,2))
  next
    case False
    with assms that have "c = CHR ''.''" by blast
    then show ?thesis by (simp add: minus_plain)
  qed
  then have t: "\<forall>c\<in>set ?t. \<not> is_space c \<and> c \<noteq> CHR ''_''"
    by (auto simp: minus_plain)
  then have "strip ?t = ?t" by (intro strip_id) blast
  moreover have "filter (\<lambda>c. c \<noteq> CHR ''_'') ?t = ?t" using t by (intro filter_True) blast
  ultimately show ?thesis using read_sign_digits [OF assms] by metis
qed

lemma dec_parse_format:
  assumes "dexp d \<le> 0"
  shows "dec_parse (dec_format d) = Inr d"
proof (cases "dexp d = 0")
  case True
  have dg: "\<forall>c\<in>set (show_nat (dcoef d)). is_digit c" by (rule show_nat_digits)
  have "dec_format d = (if dneg d then ''-'' else '''') @ show_nat (dcoef d)"
    using True by (simp add: dec_format_def)
  with dg have "read_sign (filter (\<lambda>c. c \<noteq> CHR ''_'') (strip (dec_format d))) =
      (dneg d, show_nat (dcoef d))"
    by (metis plain_text)
  then show ?thesis
    using True takeWhile_all_digits [OF dg]
    by (cases d) (simp add: dec_parse_def read_fraction_def read_exponent_def
        del: takeWhile_eq_all_conv dropWhile_eq_Nil_conv)
next
  case False
  define k where "k = nat (- dexp d)"
  define s where "s = pad (k + 1) (show_nat (dcoef d))"
  define n where "n = length s - k"
  have k: "0 < k" "int k = - dexp d" using assms False by (simp_all add: k_def)
  have dg: "\<forall>c\<in>set s. is_digit c" unfolding s_def using pad_digits show_nat_digits by blast
  have len: "length s = n + k" "0 < n" unfolding n_def s_def by (simp_all add: length_pad)
  have tk: "\<forall>c\<in>set (take n s). is_digit c" and dr: "\<forall>c\<in>set (drop n s). is_digit c"
    using dg by (auto dest: in_set_takeD in_set_dropD)
  have "dec_format d = (if dneg d then ''-'' else '''') @ (take n s @ CHR ''.'' # drop n s)"
    using k by (simp add: dec_format_def Let_def s_def n_def k_def)
  moreover have "\<forall>c\<in>set (take n s @ CHR ''.'' # drop n s). is_digit c \<or> c = CHR ''.''"
    using tk dr by auto
  ultimately have p: "read_sign (filter (\<lambda>c. c \<noteq> CHR ''_'') (strip (dec_format d))) =
      (dneg d, take n s @ CHR ''.'' # drop n s)"
    by (metis plain_text)
  have nd: "\<not> is_digit (CHR ''.'')" by (simp add: is_digit_def)
  note sp = takeWhile_digits [OF tk nd, THEN conjunct1] takeWhile_digits [OF tk nd, THEN conjunct2]
    takeWhile_all_digits [OF dr, THEN conjunct1] takeWhile_all_digits [OF dr, THEN conjunct2]
  have "take n s \<noteq> []" "length (drop n s) = k" using len by auto
  moreover have "read_nat s = dcoef d" by (simp add: s_def)
  ultimately show ?thesis
    using k by (simp add: dec_parse_def p sp read_fraction_def read_exponent_def)
qed

interpretation dec: codec dec_format dec_parse "\<lambda>d. dexp d \<le> 0"
  by unfold_locales (rule dec_parse_format)

section \<open>Reading back any formatted value\<close>

text \<open>The value \<open>format(d, "f")\<close> denotes: a positive exponent is multiplied out.\<close>

definition dec_plain :: "decimal \<Rightarrow> decimal" where
  "dec_plain d = (if 0 < dexp d then Dec (dneg d) (dcoef d * 10 ^ nat (dexp d)) 0 else d)"

lemma dec_plain_id: "dexp d \<le> 0 \<Longrightarrow> dec_plain d = d"
  by (simp add: dec_plain_def)

lemma dec_val_plain: "dec_val (dec_plain d) = dec_val d"
proof (cases "0 < dexp d")
  case True
  then have "(10::rat) powi dexp d = 10 ^ nat (dexp d)"
    by (metis int_nat_eq order_less_imp_le power_int_of_nat)
  with True show ?thesis by (simp add: dec_plain_def dec_val_def dsig_def)
qed (simp add: dec_plain_def)

lemma read_nat_trailing: "read_nat (s @ replicate k (CHR ''0'')) = read_nat s * 10 ^ k"
proof (induction k)
  case (Suc k)
  have "replicate (Suc k) (CHR ''0'') = replicate k (CHR ''0'') @ [CHR ''0'']"
    by (simp add: replicate_append_same)
  then have "read_nat (s @ replicate (Suc k) (CHR ''0'')) =
      read_nat ((s @ replicate k (CHR ''0'')) @ [CHR ''0''])" by simp
  then show ?case using Suc by (simp only: read_nat_snoc) simp
qed simp

theorem dec_parse_format_plain: "dec_parse (dec_format d) = Inr (dec_plain d)"
proof (cases "dexp d \<le> 0")
  case True
  then show ?thesis using dec_parse_format by (simp add: dec_plain_id)
next
  case False
  define e where "e = (if dcoef d = 0 then 0 else nat (dexp d))"
  define s where "s = show_nat (dcoef d) @ replicate e (CHR ''0'')"
  have f: "dec_format d = (if dneg d then ''-'' else '''') @ s"
    using False by (simp add: dec_format_def s_def e_def)
  have dg: "\<forall>c\<in>set s. is_digit c" using show_nat_digits by (auto simp: s_def)
  with f have p: "read_sign (filter (\<lambda>c. c \<noteq> CHR ''_'') (strip (dec_format d))) = (dneg d, s)"
    by (metis plain_text)
  have "s \<noteq> []" by (simp add: s_def)
  moreover have "read_nat s = dcoef d * 10 ^ nat (dexp d)"
    unfolding s_def read_nat_trailing by (simp add: e_def)
  ultimately show ?thesis
    using False takeWhile_all_digits [OF dg]
    by (simp add: dec_parse_def p read_fraction_def read_exponent_def dec_plain_def
        del: takeWhile_eq_all_conv dropWhile_eq_Nil_conv)
qed

end
