(* ===== verification/Datetimes.thy ===== *)
theory Datetimes
  imports Prelude
begin

text \<open>
  \<open>datetime.datetime\<close> values: the wall-clock time in microseconds since 0001-01-01T00:00:00 and
  the UTC offset in microseconds, \<open>None\<close> for a naive value.  Conversion to UTC, comparison of
  aware values, addition of seconds, \<open>isoformat\<close> and \<open>fromisoformat\<close> follow the standard
  library; the calendar is the proleptic Gregorian one.  A wall clock outside the years 1 to
  9999, where Python raises OverflowError, is excluded by \<open>dt_ok\<close> where a statement depends on it.
  \<open>fromisoformat\<close> reads the extended format (with separators); the compact and the ISO week
  forms, which nothing here writes, are outside the model.
\<close>

record datetime =
  wall :: int
  tzoff :: "int option"

definition SECOND :: int where "SECOND = 1000000"
definition DAY :: int where "DAY = 86400 * SECOND"

text \<open>The instant in UTC; a naive value is read as UTC.\<close>

definition instant :: "datetime \<Rightarrow> int" where
  "instant t = wall t - (case tzoff t of None \<Rightarrow> 0 | Some z \<Rightarrow> z)"

text \<open>\<open>_utc\<close> of the service and \<open>_as_utc\<close> of the outbox.\<close>

definition as_utc :: "datetime \<Rightarrow> datetime" where
  "as_utc t = (case tzoff t of
      None \<Rightarrow> t\<lparr>tzoff := Some 0\<rparr>
    | Some z \<Rightarrow> \<lparr>wall = wall t - z, tzoff = Some 0\<rparr>)"

definition plus_seconds :: "datetime \<Rightarrow> int \<Rightarrow> datetime" where
  "plus_seconds t s = t\<lparr>wall := wall t + s * SECOND\<rparr>"

definition dt_le :: "datetime \<Rightarrow> datetime \<Rightarrow> bool" where
  "dt_le a b = (instant a \<le> instant b)"

definition dt_less :: "datetime \<Rightarrow> datetime \<Rightarrow> bool" where
  "dt_less a b = (instant a < instant b)"

lemma instant_as_utc [simp]: "instant (as_utc t) = instant t"
  by (simp add: instant_def as_utc_def split: option.split)

lemma tzoff_as_utc [simp]: "tzoff (as_utc t) = Some 0"
  by (simp add: as_utc_def split: option.split)

lemma as_utc_idem [simp]: "as_utc (as_utc t) = as_utc t"
  by (simp add: as_utc_def split: option.split)

lemma as_utc_eq_iff: "as_utc a = as_utc b \<longleftrightarrow> instant a = instant b"
  by (cases a; cases b) (auto simp: as_utc_def instant_def split: option.split)

lemma instant_plus_seconds [simp]: "instant (plus_seconds t s) = instant t + s * SECOND"
  by (simp add: instant_def plus_seconds_def)

section \<open>The calendar\<close>

definition leap :: "int \<Rightarrow> bool" where
  "leap y = (y mod 4 = 0 \<and> (y mod 100 \<noteq> 0 \<or> y mod 400 = 0))"

text \<open>Days before January 1st of year \<open>y\<close>, counted from 0001-01-01.\<close>

definition days_before_year :: "int \<Rightarrow> int" where
  "days_before_year y = (let p = y - 1 in p * 365 + p div 4 - p div 100 + p div 400)"

definition month_lengths :: "bool \<Rightarrow> int list" where
  "month_lengths l = [31, if l then 29 else 28, 31, 30, 31, 30, 31, 31, 30, 31, 30, 31]"

text \<open>Month and day of the day \<open>r\<close> (from 0) of a year; \<open>m\<close> is the number of the first month left.\<close>

fun month_day :: "int \<Rightarrow> int list \<Rightarrow> int \<Rightarrow> int \<times> int" where
  "month_day m [] r = (m - 1, r + 1)"
| "month_day m [l] r = (m, r + 1)"
| "month_day m (l # ls) r = (if r < l then (m, r + 1) else month_day (m + 1) ls (r - l))"

definition days_before_month :: "bool \<Rightarrow> int \<Rightarrow> int" where
  "days_before_month l m = sum_list (take (nat (m - 1)) (month_lengths l))"

text \<open>\<open>date.toordinal\<close> and \<open>date.fromordinal\<close>, counted from 0.\<close>

definition ymd_to_days :: "int \<Rightarrow> int \<Rightarrow> int \<Rightarrow> int" where
  "ymd_to_days y m d = days_before_year y + days_before_month (leap y) m + (d - 1)"

definition days_to_ymd :: "int \<Rightarrow> int \<times> int \<times> int" where
  "days_to_ymd n =
     (let n400 = n div 146097; r400 = n mod 146097;
          n100 = r400 div 36524; r100 = r400 mod 36524;
          n4 = r100 div 1461; r4 = r100 mod 1461;
          n1 = r4 div 365; r1 = r4 mod 365;
          y = n400 * 400 + n100 * 100 + n4 * 4 + n1 + 1 in
      if n1 = 4 \<or> n100 = 4 then (y - 1, 12, 31)
      else (let (m, d) = month_day 1 (month_lengths (leap y)) r1 in (y, m, d)))"

section \<open>isoformat\<close>

definition two :: "int \<Rightarrow> string" where
  "two n = pad 2 (show_nat (nat n))"

definition iso_time :: "int \<Rightarrow> string" where
  "iso_time s = two (s div 3600) @ '':'' @ two (s mod 3600 div 60) @ '':'' @ two (s mod 60)"

definition iso_micros :: "int \<Rightarrow> string" where
  "iso_micros u = (if u = 0 then [] else ''.'' @ pad 6 (show_nat (nat u)))"

definition iso_offset :: "int option \<Rightarrow> string" where
  "iso_offset z = (case z of None \<Rightarrow> []
     | Some o' \<Rightarrow>
        (let a = \<bar>o'\<bar>; s = a div SECOND; u = a mod SECOND in
         (if o' < 0 then ''-'' else ''+'') @ two (s div 3600) @ '':'' @ two (s mod 3600 div 60) @
         (if s mod 60 = 0 \<and> u = 0 then [] else '':'' @ two (s mod 60) @ iso_micros u)))"

definition isoformat :: "datetime \<Rightarrow> string" where
  "isoformat t =
     (let (y, m, d) = days_to_ymd (wall t div DAY); r = wall t mod DAY in
      pad 4 (show_nat (nat y)) @ ''-'' @ two m @ ''-'' @ two d @ ''T'' @
      iso_time (r div SECOND) @ iso_micros (r mod SECOND) @ iso_offset (tzoff t))"

text \<open>What Python accepts: years 1 to 9999, and an offset of less than a day.\<close>

definition dt_ok :: "datetime \<Rightarrow> bool" where
  "dt_ok t = (0 \<le> wall t \<and> wall t < 3652059 * DAY \<and>
     (case tzoff t of None \<Rightarrow> True | Some z \<Rightarrow> \<bar>z\<bar> < DAY))"

section \<open>fromisoformat\<close>

text \<open>Two digits at the start of a text, and the rest.\<close>

definition take2 :: "string \<Rightarrow> (int \<times> string) option" where
  "take2 s = (if 2 \<le> length s \<and> list_all is_digit (take 2 s)
     then Some (int (read_nat (take 2 s)), drop 2 s) else None)"

definition parse_frac :: "string \<Rightarrow> int option" where
  "parse_frac s = (case s of [] \<Rightarrow> Some 0
     | c # r \<Rightarrow>
        if (c = CHR ''.'' \<or> c = CHR '','') \<and> r \<noteq> [] \<and> list_all is_digit r
        then Some (int (read_nat (take 6 (r @ ''000000'')))) else None)"

text \<open>\<open>_parse_hh_mm_ss_ff\<close>: hours, minutes, seconds and microseconds.\<close>

definition parse_hms :: "string \<Rightarrow> (int \<times> int \<times> int \<times> int) option" where
  "parse_hms s = (case take2 s of None \<Rightarrow> None | Some (h, s1) \<Rightarrow>
     if s1 = [] then Some (h, 0, 0, 0)
     else let sep = (hd s1 = CHR '':'') in
     case take2 (if sep then tl s1 else s1) of None \<Rightarrow> None | Some (m, s2) \<Rightarrow>
     if s2 = [] then Some (h, m, 0, 0)
     else if sep \<and> hd s2 \<noteq> CHR '':'' then None
     else case take2 (if sep then tl s2 else s2) of None \<Rightarrow> None | Some (sec, s3) \<Rightarrow>
     map_option (\<lambda>u. (h, m, sec, u)) (parse_frac s3))"

definition micros :: "int \<times> int \<times> int \<times> int \<Rightarrow> int" where
  "micros c = (case c of (h, m, s, u) \<Rightarrow> (h * 3600 + m * 60 + s) * SECOND + u)"

text \<open>\<open>_parse_isoformat_time\<close>: microseconds of the day and the offset.\<close>

definition parse_time :: "string \<Rightarrow> (int \<times> int option) option" where
  "parse_time s =
     (let c = (if CHR ''-'' \<in> set s then CHR ''-'' else if CHR ''+'' \<in> set s then CHR ''+'' else CHR ''Z'');
          rest = dropWhile (\<lambda>x. x \<noteq> c) s in
      case parse_hms (takeWhile (\<lambda>x. x \<noteq> c) s) of None \<Rightarrow> None
      | Some (h, m, sec, u) \<Rightarrow>
        if 23 < h \<or> 59 < m \<or> 59 < sec then None
        else case rest of [] \<Rightarrow> Some (micros (h, m, sec, u), None)
        | z # tz \<Rightarrow>
          if z = CHR ''Z'' \<and> tz = [] then Some (micros (h, m, sec, u), Some 0)
          else if length tz \<in> {0, 1, 3} then None
          else case parse_hms tz of None \<Rightarrow> None
          | Some q \<Rightarrow>
             if micros q < DAY
             then Some (micros (h, m, sec, u), Some (if z = CHR ''-'' then - micros q else micros q))
             else None)"

definition parse_date :: "string \<Rightarrow> int option" where
  "parse_date s =
     (if length s = 10 \<and> list_all is_digit (take 4 s) \<and> s ! 4 = CHR ''-'' \<and>
         list_all is_digit (take 2 (drop 5 s)) \<and> s ! 7 = CHR ''-'' \<and> list_all is_digit (drop 8 s)
      then let y = int (read_nat (take 4 s)); m = int (read_nat (take 2 (drop 5 s)));
               d = int (read_nat (drop 8 s)) in
        if 1 \<le> y \<and> 1 \<le> m \<and> m \<le> 12 \<and> 1 \<le> d \<and> d \<le> month_lengths (leap y) ! nat (m - 1)
        then Some (ymd_to_days y m d) else None
      else None)"

definition fromisoformat :: "string \<Rightarrow> datetime result" where
  "fromisoformat s =
     (let bad = ValueError (''Invalid isoformat string: '' @ s) in
      case parse_date (take 10 s) of None \<Rightarrow> Inl bad
      | Some n \<Rightarrow>
        if drop 11 s = [] then Inr \<lparr>wall = n * DAY, tzoff = None\<rparr>
        else case parse_time (drop 11 s) of None \<Rightarrow> Inl bad
        | Some (u, z) \<Rightarrow> Inr \<lparr>wall = n * DAY + u, tzoff = z\<rparr>)"

section \<open>The calendar is consistent\<close>

lemma month_day_inverse:
  assumes "0 \<le> r" "r < sum_list ls" "ls \<noteq> []" "\<forall>l\<in>set ls. 0 < l" "month_day m0 ls r = (m, d)"
  shows "m0 \<le> m \<and> m < m0 + int (length ls) \<and> 1 \<le> d \<and> d \<le> ls ! nat (m - m0) \<and>
    sum_list (take (nat (m - m0)) ls) + (d - 1) = r"
  using assms
proof (induction m0 ls r rule: month_day.induct)
  case (3 m0 l l' ls r)
  show ?case
  proof (cases "r < l")
    case True
    with 3 show ?thesis by auto
  next
    case False
    then have r: "month_day (m0 + 1) (l' # ls) (r - l) = (m, d)" using "3.prems" by simp
    have "m0 + 1 \<le> m \<and> m < m0 + 1 + int (length (l' # ls)) \<and> 1 \<le> d \<and>
        d \<le> (l' # ls) ! nat (m - (m0 + 1)) \<and>
        sum_list (take (nat (m - (m0 + 1))) (l' # ls)) + (d - 1) = r - l"
      by (rule "3.IH") (use False "3.prems" r in auto)
    moreover from this have "nat (m - m0) = Suc (nat (m - (m0 + 1)))" by linarith
    ultimately show ?thesis by auto
  qed
qed auto

lemma days_before_year_cycles:
  assumes "0 \<le> b" "b < 4" "0 \<le> c" "c < 25" "0 \<le> e" "e < (4::int)"
  shows "days_before_year (a * 400 + b * 100 + c * 4 + e + 1) =
      a * 146097 + b * 36524 + c * 1461 + e * 365"
    and "leap (a * 400 + b * 100 + c * 4 + e + 1) \<longleftrightarrow> e = 3 \<and> (c \<noteq> 24 \<or> b = 3)"
proof -
  let ?p = "a * 400 + b * 100 + c * 4 + e"
  have "?p div 4 = a * 100 + b * 25 + c" "?p div 100 = a * 4 + b" "?p div 400 = a"
    using assms by linarith+
  then show "days_before_year (?p + 1) = a * 146097 + b * 36524 + c * 1461 + e * 365"
    by (simp add: days_before_year_def Let_def)
  have "?p + 1 = (e + 1) + (a * 100 + b * 25 + c) * 4" by simp
  then have m4: "(?p + 1) mod 4 = (e + 1) mod 4" by (simp only: mod_mult_self1)
  have "?p + 1 = (c * 4 + e + 1) + (a * 4 + b) * 100" by simp
  then have m100: "(?p + 1) mod 100 = (c * 4 + e + 1) mod 100" by (simp only: mod_mult_self1)
  have "?p + 1 = (b * 100 + c * 4 + e + 1) + a * 400" by simp
  then have m400: "(?p + 1) mod 400 = (b * 100 + c * 4 + e + 1) mod 400"
    by (simp only: mod_mult_self1)
  have z: "x mod k = 0 \<longleftrightarrow> x = k" if "0 < x" "x \<le> k" for x k :: int
    using that by (metis linorder_not_less mod_pos_pos_trivial mod_self nle_le order_less_imp_le)
  have "(e + 1) mod 4 = 0 \<longleftrightarrow> e = 3" using z [of "e + 1" 4] assms by simp
  moreover have "(c * 4 + e + 1) mod 100 = 0 \<longleftrightarrow> c * 4 + e = 99"
    using z [of "c * 4 + e + 1" 100] assms by simp
  moreover have "(b * 100 + c * 4 + e + 1) mod 400 = 0 \<longleftrightarrow> b * 100 + c * 4 + e + 1 = 400"
    by (rule z) (use assms in simp_all)
  ultimately show "leap (?p + 1) \<longleftrightarrow> e = 3 \<and> (c \<noteq> 24 \<or> b = 3)"
    unfolding leap_def m4 m100 m400 using assms by auto
qed

lemma sum_month_lengths: "sum_list (month_lengths l) = (if l then 366 else 365)"
  by (simp add: month_lengths_def)

lemma days_to_ymd_inverse:
  assumes "0 \<le> n" "days_to_ymd n = (y, m, d)"
  shows "ymd_to_days y m d = n \<and> 1 \<le> y \<and> 1 \<le> m \<and> m \<le> 12 \<and> 1 \<le> d \<and>
    d \<le> month_lengths (leap y) ! nat (m - 1)"
proof -
  define a r400 where "a = n div 146097" and "r400 = n mod 146097"
  then have a: "n div 146097 = a" "n mod 146097 = r400" "n = a * 146097 + r400" "0 \<le> r400" "r400 < 146097"
    by simp_all
  define b r100 where "b = r400 div 36524" and "r100 = r400 mod 36524"
  then have b: "r400 div 36524 = b" "r400 mod 36524 = r100" "r400 = b * 36524 + r100" "0 \<le> r100" "r100 < 36524"
    by simp_all
  define c r4 where "c = r100 div 1461" and "r4 = r100 mod 1461"
  then have c: "r100 div 1461 = c" "r100 mod 1461 = r4" "r100 = c * 1461 + r4" "0 \<le> r4" "r4 < 1461"
    by simp_all
  define e r where "e = r4 div 365" and "r = r4 mod 365"
  then have e: "r4 div 365 = e" "r4 mod 365 = r" "r4 = e * 365 + r" "0 \<le> r" "r < 365"
    by simp_all
  have bd: "0 \<le> a" "0 \<le> b" "b \<le> 4" "0 \<le> c" "c < 25" "0 \<le> e" "e \<le> 4"
    using assms(1) a(4,5) b(3-5) c(3-5) e(3-5) a(1)[symmetric]
    by (simp_all add: pos_imp_zdiv_nonneg_iff)
  let ?y = "a * 400 + b * 100 + c * 4 + e + 1"
  have dy: "days_to_ymd n = (if e = 4 \<or> b = 4 then (?y - 1, 12, 31)
      else (case month_day 1 (month_lengths (leap ?y)) r of (m, d) \<Rightarrow> (?y, m, d)))"
    unfolding days_to_ymd_def Let_def a(1,2) b(1,2) c(1,2) e(1,2) by (rule refl)
  show ?thesis
  proof (cases "e = 4 \<or> b = 4")
    case False
    then have be: "b < 4" "e < 4" using bd by auto
    note cyc = days_before_year_cycles [OF bd(2) be(1) bd(4,5) bd(6) be(2), of a]
    from False assms(2) have y: "y = ?y" and md: "month_day 1 (month_lengths (leap ?y)) r = (m, d)"
      unfolding dy by (auto split: prod.splits)
    have "1 \<le> m \<and> m < 1 + int (length (month_lengths (leap ?y))) \<and> 1 \<le> d \<and>
        d \<le> month_lengths (leap ?y) ! nat (m - 1) \<and>
        sum_list (take (nat (m - 1)) (month_lengths (leap ?y))) + (d - 1) = r"
      by (rule month_day_inverse [OF e(4) _ _ _ md])
        (use e in \<open>auto simp: sum_month_lengths\<close>, auto simp: month_lengths_def split: if_splits)
    then show ?thesis
      using a(3-5) b(3-5) c(3-5) e(3-5) bd y cyc(1)
      by (auto simp: ymd_to_days_def days_before_month_def month_lengths_def)
  next
    case True
    then have ymd: "y = ?y - 1" "m = 12" "d = 31" using assms(2) unfolding dy by auto
    have last: "days_before_month True 12 = 335" "month_lengths True ! 11 = 31"
      by (simp_all add: days_before_month_def month_lengths_def)
    have "\<exists>b' c'. 0 \<le> b' \<and> b' < 4 \<and> 0 \<le> c' \<and> c' < 25 \<and> (c' \<noteq> 24 \<or> b' = 3) \<and>
        ?y - 1 = a * 400 + b' * 100 + c' * 4 + 3 + 1 \<and>
        n = a * 146097 + b' * 36524 + c' * 1461 + 3 * 365 + 365"
    proof (cases "b = 4")
      case True
      with a(3-5) b(3-5) c(3-5) e(3-5) bd have "c = 0 \<and> e = 0 \<and> r = 0" by linarith
      with True a(3-5) b(3-5) c(3-5) e(3-5) bd show ?thesis by (intro exI [of _ 3] exI [of _ 24]) simp
    next
      case False
      with True a(3-5) b(3-5) c(3-5) e(3-5) bd have "e = 4" "r = 0" "b < 4" "c < 24" by linarith+
      with a(3-5) b(3-5) c(3-5) e(3-5) bd show ?thesis by (intro exI [of _ b] exI [of _ c]) simp
    qed
    then obtain b' c' where bc: "0 \<le> b'" "b' < 4" "0 \<le> c'" "c' < 25" "c' \<noteq> 24 \<or> b' = 3"
        "?y - 1 = a * 400 + b' * 100 + c' * 4 + 3 + 1"
        "n = a * 146097 + b' * 36524 + c' * 1461 + 3 * 365 + 365" by blast
    then show ?thesis
      using days_before_year_cycles [OF bc(1-4), of 3 a] bd(1) last
      unfolding ymd bc(6) ymd_to_days_def by simp
  qed
qed

section \<open>Reading back what isoformat writes\<close>

lemma length_pad_show: "n < 10 ^ Suc w \<Longrightarrow> length (pad (Suc w) (show_nat n)) = Suc w"
  using show_nat_length_le [of n w] by (simp add: length_pad)

lemma pad_show_digits: "list_all is_digit (pad w (show_nat n))"
  unfolding list_all_iff using pad_digits show_nat_digits by blast

lemma two_props:
  assumes "0 \<le> n" "n < 100"
  shows "length (two n) = 2" "list_all is_digit (two n)" "int (read_nat (two n)) = n"
  using assms length_pad_show [of "nat n" 1] pad_show_digits [of 2 "nat n"]
  by (simp_all add: two_def numeral_2_eq_2)

lemma take2_two: "0 \<le> n \<Longrightarrow> n < 100 \<Longrightarrow> take2 (two n @ r) = Some (n, r)"
  by (simp add: take2_def two_props)

lemma take2_two_end: "0 \<le> n \<Longrightarrow> n < 100 \<Longrightarrow> take2 (two n) = Some (n, [])"
  using take2_two [of n "[]"] by simp

lemma parse_frac_micros:
  assumes "0 \<le> u" "u < SECOND"
  shows "parse_frac (iso_micros u) = Some u"
proof (cases "u = 0")
  case False
  let ?p = "pad 6 (show_nat (nat u))"
  have "nat u < 10 ^ Suc 5" using assms by (simp add: SECOND_def nat_less_iff)
  from length_pad_show [OF this] have "length ?p = 6" by simp
  then have "length ?p = 6 \<and> ?p \<noteq> []" by auto
  with False assms show ?thesis
    using pad_show_digits [of 6 "nat u"] by (simp add: iso_micros_def parse_frac_def)
qed (simp add: iso_micros_def parse_frac_def)

lemma iso_micros_cases: "iso_micros u = [] \<or> hd (iso_micros u) \<noteq> CHR '':''"
  by (simp add: iso_micros_def)

lemma parse_hms_full:
  assumes "0 \<le> h" "h < 100" "0 \<le> m" "m < 100" "0 \<le> s" "s < 100" "0 \<le> u" "u < SECOND"
  shows "parse_hms (two h @ '':'' @ two m @ '':'' @ two s @ iso_micros u) = Some (h, m, s, u)"
  using assms by (simp add: parse_hms_def take2_two parse_frac_micros)

lemma parse_hms_short:
  assumes "0 \<le> h" "h < 100" "0 \<le> m" "m < 100"
  shows "parse_hms (two h @ '':'' @ two m) = Some (h, m, 0, 0)"
  using assms by (simp add: parse_hms_def take2_two take2_two_end)

lemma two_chars: "0 \<le> n \<Longrightarrow> n < 100 \<Longrightarrow> c \<in> set (two n) \<Longrightarrow> is_digit c"
  using two_props(2) by (auto simp: list_all_iff)

lemma iso_micros_chars: "c \<in> set (iso_micros u) \<Longrightarrow> is_digit c \<or> c = CHR ''.''"
  using pad_show_digits [of 6 "nat u"] by (auto simp: iso_micros_def list_all_iff split: if_splits)

lemma sign_chars: "\<not> is_digit (CHR ''-'')" "\<not> is_digit (CHR ''+'')" "\<not> is_digit (CHR ''Z'')"
  by (simp_all add: is_digit_def)

lemma clock_bounds:
  assumes "0 \<le> s" "s < (86400::int)"
  shows "0 \<le> s div 3600" "s div 3600 < 24" "0 \<le> s mod 3600 div 60" "s mod 3600 div 60 < 60"
    "0 \<le> s mod 60" "s mod 60 < 60"
    "s div 3600 * 3600 + s mod 3600 div 60 * 60 + s mod 60 = s"
proof -
  have "s mod 60 = s mod 3600 mod 60" by (simp add: mod_mod_cancel)
  then show "s div 3600 * 3600 + s mod 3600 div 60 * 60 + s mod 60 = s" by simp
  have "0 \<le> s mod 3600" "s mod 3600 < 3600" by simp_all
  then show "0 \<le> s mod 3600 div 60" "s mod 3600 div 60 < 60" by (simp_all add: div_less_iff_less_mult)
qed (use assms in \<open>simp_all add: pos_imp_zdiv_nonneg_iff div_less_iff_less_mult\<close>)

lemma clock_chars:
  assumes "0 \<le> h" "h < 100" "0 \<le> m" "m < 100" "0 \<le> s" "s < 100"
    and t_def: "t = two h @ '':'' @ two m @ '':'' @ two s @ iso_micros u"
  shows "CHR ''-'' \<notin> set t" "CHR ''+'' \<notin> set t" "CHR ''Z'' \<notin> set t"
proof -
  have t: "set t = set (two h) \<union> set (two m) \<union> set (two s) \<union> set (iso_micros u) \<union> {CHR '':''}"
    unfolding t_def by auto
  have d: "is_digit c \<or> c = CHR '':'' \<or> c = CHR ''.''" if "c \<in> set t" for c
    using that two_chars [OF assms(1,2)] two_chars [OF assms(3,4)] two_chars [OF assms(5,6)]
      iso_micros_chars
    unfolding t by blast
  show "CHR ''-'' \<notin> set t" using d [of "CHR ''-''"] sign_chars by auto
  show "CHR ''+'' \<notin> set t" using d [of "CHR ''+''"] sign_chars by auto
  show "CHR ''Z'' \<notin> set t" using d [of "CHR ''Z''"] sign_chars by auto
qed

lemma takeWhile_mark:
  assumes "c \<notin> set t"
  shows "takeWhile (\<lambda>x. x \<noteq> c) (t @ c # r) = t" "dropWhile (\<lambda>x. x \<noteq> c) (t @ c # r) = c # r"
    "takeWhile (\<lambda>x. x \<noteq> c) t = t" "dropWhile (\<lambda>x. x \<noteq> c) t = []"
  using assms by (induction t) auto

text \<open>A clock text followed by nothing, or by a signed offset text.\<close>

lemma parse_time_clock:
  assumes p: "parse_hms t = Some (h, m, s, u)" and b: "h \<le> 23" "m \<le> 59" "s \<le> 59"
    and ch: "CHR ''-'' \<notin> set t" "CHR ''+'' \<notin> set t" "CHR ''Z'' \<notin> set t"
  shows "parse_time t = Some (micros (h, m, s, u), None)"
    and "CHR ''-'' \<notin> set z \<Longrightarrow> parse_hms z = Some q \<Longrightarrow> length z \<notin> {0, 1, 3} \<Longrightarrow>
      micros q < DAY \<Longrightarrow> parse_time (t @ CHR ''+'' # z) = Some (micros (h, m, s, u), Some (micros q))"
    and "parse_hms z = Some q \<Longrightarrow> length z \<notin> {0, 1, 3} \<Longrightarrow>
      micros q < DAY \<Longrightarrow> parse_time (t @ CHR ''-'' # z) = Some (micros (h, m, s, u), Some (- micros q))"
  using b ch by (simp_all add: parse_time_def p takeWhile_mark del: takeWhile_eq_all_conv)

lemma parse_offset:
  assumes "\<bar>z\<bar> < DAY"
  shows "\<exists>x q. iso_offset (Some z) = (if z < 0 then ''-'' else ''+'') @ x \<and>
    parse_hms x = Some q \<and> micros q = \<bar>z\<bar> \<and> length x \<notin> {0, 1, 3} \<and> CHR ''-'' \<notin> set x"
proof -
  define a where "a = \<bar>z\<bar>"
  define x where "x = two (a div SECOND div 3600) @ '':'' @ two (a div SECOND mod 3600 div 60) @
      (if a div SECOND mod 60 = 0 \<and> a mod SECOND = 0 then []
       else '':'' @ two (a div SECOND mod 60) @ iso_micros (a mod SECOND))"
  have iso: "iso_offset (Some z) = (if z < 0 then ''-'' else ''+'') @ x"
    by (simp add: iso_offset_def Let_def x_def a_def)
  have "0 \<le> a div SECOND" "a div SECOND < 86400" "0 \<le> a mod SECOND" "a mod SECOND < SECOND"
    using assms by (simp_all add: a_def SECOND_def DAY_def pos_imp_zdiv_nonneg_iff div_less_iff_less_mult)
  note b = clock_bounds [OF this(1,2)] and u = this(3,4)
  define h m s v where "h = a div SECOND div 3600" and "m = a div SECOND mod 3600 div 60"
    and "s = a div SECOND mod 60" and "v = a mod SECOND"
  have hb: "0 \<le> h" "h < 100" "0 \<le> m" "m < 100" "0 \<le> s" "s < 100" "0 \<le> v" "v < SECOND"
    using b u unfolding h_def m_def s_def v_def by linarith+
  have "(h * 3600 + m * 60 + s) * SECOND + v = a"
    using b(7) unfolding h_def m_def s_def v_def by simp
  then have q: "micros (h, m, s, v) = a" by (simp add: micros_def)
  have x: "x = (if s = 0 \<and> v = 0 then two h @ '':'' @ two m
      else two h @ '':'' @ two m @ '':'' @ two s @ iso_micros v)"
    unfolding x_def h_def m_def s_def v_def by simp
  have len: "length (two h) = 2" "length (two m) = 2" using two_props(1) hb by simp_all
  have "\<exists>q. parse_hms x = Some q \<and> micros q = a \<and> length x \<notin> {0, 1, 3} \<and> CHR ''-'' \<notin> set x"
  proof (cases "s = 0 \<and> v = 0")
    case True
    then show ?thesis
      using clock_chars(1) [OF hb(1-6) refl, of 0] parse_hms_short [OF hb(1-4)] q len
      unfolding x by (intro exI [of _ "(h, m, 0, 0)"]) auto
  next
    case False
    then show ?thesis
      using clock_chars(1) [OF hb(1-6) refl, of v] parse_hms_full [OF hb] q len
      unfolding x by (intro exI [of _ "(h, m, s, v)"]) auto
  qed
  with iso show ?thesis unfolding a_def by blast
qed

lemma month_length_le: "1 \<le> m \<Longrightarrow> m \<le> 12 \<Longrightarrow> month_lengths l ! nat (m - 1) \<le> 31"
proof -
  assume "1 \<le> m" "m \<le> 12"
  then have "nat (m - 1) < length (month_lengths l)" by (simp add: month_lengths_def)
  then have "month_lengths l ! nat (m - 1) \<in> set (month_lengths l)" by (rule nth_mem)
  then show ?thesis by (auto simp: month_lengths_def split: if_splits)
qed

lemma parse_date_iso:
  assumes "1 \<le> y" "y \<le> 9999" "1 \<le> m" "m \<le> 12" "1 \<le> d" "d \<le> month_lengths (leap y) ! nat (m - 1)"
  defines "ds \<equiv> pad 4 (show_nat (nat y)) @ ''-'' @ two m @ ''-'' @ two d"
  shows "length ds = 10 \<and> parse_date ds = Some (ymd_to_days y m d)"
proof -
  have m: "0 \<le> m" "m < 100" and d: "0 \<le> d" "d < 100"
    using assms month_length_le [of m "leap y"] by linarith+
  have y: "length (pad 4 (show_nat (nat y))) = 4" "int (read_nat (pad 4 (show_nat (nat y)))) = y"
    "list_all is_digit (pad 4 (show_nat (nat y)))"
    using assms length_pad_show [of "nat y" 3] pad_show_digits by simp_all
  show ?thesis
    using assms(1-6) y two_props [OF m] two_props [OF d] unfolding ds_def
    by (simp add: parse_date_def nth_append Let_def)
qed

lemma year_le_9999:
  assumes "ymd_to_days y m d = n" "n < 3652059" "1 \<le> m" "m \<le> 12" "1 \<le> d"
  shows "y \<le> 9999"
proof (rule ccontr)
  assume "\<not> y \<le> 9999"
  define p where "p = y - 1"
  have p: "9999 \<le> p" using \<open>\<not> y \<le> 9999\<close> by (simp add: p_def)
  have dm: "p = p div k * k + p mod k \<and> 0 \<le> p mod k \<and> p mod k < k" if "0 < k" for k :: int
    using that by simp
  have "3652059 \<le> p * 365 + p div 4 - p div 100 + p div 400"
    using p dm [of 4] dm [of 100] dm [of 400] by linarith
  then have "3652059 \<le> days_before_year y" by (simp add: days_before_year_def Let_def p_def)
  moreover have "0 \<le> days_before_month (leap y) m"
    unfolding days_before_month_def
    by (intro sum_list_nonneg) (auto simp: month_lengths_def dest!: in_set_takeD)
  ultimately show False using assms by (simp add: ymd_to_days_def)
qed

theorem fromisoformat_isoformat:
  assumes "dt_ok t"
  shows "fromisoformat (isoformat t) = Inr t"
proof -
  define n r where "n = wall t div DAY" and "r = wall t mod DAY"
  define c u where "c = r div SECOND" and "u = r mod SECOND"
  have D: "0 < DAY" "DAY = 86400 * SECOND" "0 < SECOND" by (simp_all add: DAY_def SECOND_def)
  have w: "wall t = n * DAY + r" by (simp add: n_def r_def)
  have r: "0 \<le> r" "r < DAY" using D by (simp_all add: r_def)
  have "n * DAY < 3652059 * DAY" using assms w r(1) unfolding dt_ok_def by linarith
  then have n: "0 \<le> n" "n < 3652059"
    using assms D(1) by (simp_all add: n_def dt_ok_def pos_imp_zdiv_nonneg_iff)
  have cu: "0 \<le> c" "c < 86400" "0 \<le> u" "u < SECOND" "c * SECOND + u = r"
    using r by (simp_all add: c_def u_def SECOND_def DAY_def pos_imp_zdiv_nonneg_iff div_less_iff_less_mult)
  obtain y m d where ymd: "days_to_ymd n = (y, m, d)" by (cases "days_to_ymd n")
  note inv = days_to_ymd_inverse [OF n(1) ymd]
  have y: "y \<le> 9999" using inv n(2) by (intro year_le_9999 [of y m d n]) auto
  define ds where "ds = pad 4 (show_nat (nat y)) @ ''-'' @ two m @ ''-'' @ two d"
  define ts where "ts = iso_time c @ iso_micros u"
  have iso: "isoformat t = ds @ CHR ''T'' # ts @ iso_offset (tzoff t)"
    using ymd by (simp add: isoformat_def n_def [symmetric] r_def [symmetric]
        c_def [symmetric] u_def [symmetric] ds_def ts_def Let_def)
  have ds: "length ds = 10" "parse_date ds = Some n"
    using parse_date_iso [of y m d] inv y unfolding ds_def by auto
  note b = clock_bounds [OF cu(1,2)]
  define h mi s where "h = c div 3600" and "mi = c mod 3600 div 60" and "s = c mod 60"
  have hb: "0 \<le> h" "h < 100" "0 \<le> mi" "mi < 100" "0 \<le> s" "s < 100" "h \<le> 23" "mi \<le> 59" "s \<le> 59"
    using b unfolding h_def mi_def s_def by linarith+
  have ts: "ts = two h @ '':'' @ two mi @ '':'' @ two s @ iso_micros u"
    by (simp add: ts_def iso_time_def h_def mi_def s_def)
  have "micros (h, mi, s, u) = r"
    using b(7) cu(5) by (simp add: micros_def h_def mi_def s_def)
  note pt = parse_time_clock [OF parse_hms_full [OF hb(1-6) cu(3,4)] hb(7-9)
      clock_chars [OF hb(1-6) refl], folded ts, unfolded this]
  have "parse_time (ts @ iso_offset (tzoff t)) = Some (r, tzoff t)"
  proof (cases "tzoff t")
    case None
    then show ?thesis using pt(1) by (simp add: iso_offset_def)
  next
    case (Some z)
    with assms have z: "\<bar>z\<bar> < DAY" by (simp add: dt_ok_def)
    from parse_offset [OF z] obtain x q where x: "parse_hms x = Some q" "micros q = \<bar>z\<bar>"
      "length x \<notin> {0, 1, 3}" "CHR ''-'' \<notin> set x"
      "iso_offset (Some z) = (if z < 0 then ''-'' else ''+'') @ x" by blast
    then show ?thesis using Some z pt(2) [OF x(4,1,3)] pt(3) [OF x(1,3)] by (simp add: abs_if)
  qed
  moreover have "ts \<noteq> []" by (simp add: ts)
  ultimately show ?thesis
    using ds w by (simp add: fromisoformat_def iso)
qed

interpretation iso: codec isoformat fromisoformat dt_ok
  by unfold_locales (rule fromisoformat_isoformat)

end
