(* ===== verification/CanonicalJson.thy ===== *)
theory CanonicalJson
  imports Decimals Datetimes "HOL-Library.Multiset"
begin

text \<open>
  \<open>canonical_json\<close> of \<open>audit.py\<close>: \<open>json.dumps\<close> with sorted keys, compact separators, no ASCII
  escaping, and \<open>_json_default\<close> for timestamps and decimals.  \<open>to_json\<close> is the JSON value
  that text denotes (keys sorted, decimals and timestamps as strings); \<open>json_text\<close> writes it;
  \<open>json_loads\<close> reads the compact text back.  A Python \<open>dict\<close> is the list of its items.
\<close>

datatype json =
    JNull | JBool bool | JInt int | JStr string | JArr "json list" | JObj "(string \<times> json) list"

datatype pyval =
    PNone | PBool bool | PInt int | PStr string | PDec decimal | PTime datetime
  | PList "pyval list" | PDict "(string \<times> pyval) list"

section \<open>Writing\<close>

text \<open>\<open>_json_default\<close>: a naive timestamp is taken as UTC, an aware one converted to UTC.\<close>

fun to_json :: "pyval \<Rightarrow> json" where
  "to_json PNone = JNull"
| "to_json (PBool b) = JBool b"
| "to_json (PInt i) = JInt i"
| "to_json (PStr s) = JStr s"
| "to_json (PDec d) = JStr (dec_format d)"
| "to_json (PTime t) = JStr (isoformat (as_utc t))"
| "to_json (PList xs) = JArr (map to_json xs)"
| "to_json (PDict kvs) = JObj (sort_key fst (map (\<lambda>(k, v). (k, to_json v)) kvs))"

definition hex_digit :: "nat \<Rightarrow> char" where
  "hex_digit d = ''0123456789abcdef'' ! d"

definition json_escape :: "char \<Rightarrow> string" where
  "json_escape c = (let n = (of_char c :: nat); bs = CHR 0x5C in
     if c = CHR 0x22 then [bs, CHR 0x22]
     else if c = bs then [bs, bs]
     else if n = 10 then [bs, CHR ''n'']
     else if n = 13 then [bs, CHR ''r'']
     else if n = 9 then [bs, CHR ''t'']
     else if n = 12 then [bs, CHR ''f'']
     else if n = 8 then [bs, CHR ''b'']
     else if n < 32 then [bs, CHR ''u'', CHR ''0'', CHR ''0'', hex_digit (n div 16), hex_digit (n mod 16)]
     else [c])"

definition json_string :: "string \<Rightarrow> string" where
  "json_string s = CHR 0x22 # concat (map json_escape s) @ [CHR 0x22]"

fun json_text :: "json \<Rightarrow> string" where
  "json_text JNull = ''null''"
| "json_text (JBool b) = (if b then ''true'' else ''false'')"
| "json_text (JInt i) = show_int i"
| "json_text (JStr s) = json_string s"
| "json_text (JArr xs) = ''['' @ join '','' (map json_text xs) @ '']''"
| "json_text (JObj kvs) =
     ''{'' @ join '','' (map (\<lambda>(k, v). json_string k @ '':'' @ json_text v) kvs) @ ''}''"

definition canonical_json :: "pyval \<Rightarrow> string" where
  "canonical_json v = json_text (to_json v)"

section \<open>Reading\<close>

definition hex_val :: "char \<Rightarrow> nat" where
  "hex_val c = (let n = (of_char c :: nat) in if n < 58 then n - 48 else n - 87)"

text \<open>One character of a string literal, escaped or not, and the rest.\<close>

definition json_char :: "string \<Rightarrow> (char \<times> string) option" where
  "json_char s = (case s of [] \<Rightarrow> None | c # r \<Rightarrow>
     if c \<noteq> CHR 0x5C then Some (c, r)
     else case r of [] \<Rightarrow> None | e # r' \<Rightarrow>
       if e = CHR 0x22 \<or> e = CHR 0x5C \<or> e = CHR ''/'' then Some (e, r')
       else if e = CHR ''n'' then Some (char_of (10::nat), r')
       else if e = CHR ''r'' then Some (char_of (13::nat), r')
       else if e = CHR ''t'' then Some (char_of (9::nat), r')
       else if e = CHR ''f'' then Some (char_of (12::nat), r')
       else if e = CHR ''b'' then Some (char_of (8::nat), r')
       else if e = CHR ''u'' \<and> 4 \<le> length r' then
         Some (char_of (4096 * hex_val (r' ! 0) + 256 * hex_val (r' ! 1) + 16 * hex_val (r' ! 2)
           + hex_val (r' ! 3)), drop 4 r')
       else None)"

text \<open>The characters up to the closing quote; the first argument bounds their number.\<close>

fun json_chars :: "nat \<Rightarrow> string \<Rightarrow> (string \<times> string) option" where
  "json_chars 0 s = None"
| "json_chars (Suc n) s =
     (if s \<noteq> [] \<and> hd s = CHR 0x22 then Some ([], tl s)
      else case json_char s of None \<Rightarrow> None
        | Some (c, r) \<Rightarrow> map_option (\<lambda>(cs, q). (c # cs, q)) (json_chars n r))"

definition json_int :: "string \<Rightarrow> (json \<times> string) option" where
  "json_int s =
     (let (neg, ds) = read_sign s; n = takeWhile is_digit ds in
      if n = [] \<or> take 1 s = ''+'' then None
      else Some (JInt (if neg then - int (read_nat n) else int (read_nat n)), dropWhile is_digit ds))"

fun json_value :: "nat \<Rightarrow> string \<Rightarrow> (json \<times> string) option"
and json_elems :: "nat \<Rightarrow> string \<Rightarrow> (json list \<times> string) option"
and json_members :: "nat \<Rightarrow> string \<Rightarrow> ((string \<times> json) list \<times> string) option" where
  "json_value 0 s = None"
| "json_value (Suc n) s = (case s of [] \<Rightarrow> None | c # r \<Rightarrow>
     if c = CHR 0x22 then map_option (\<lambda>(t, q). (JStr t, q)) (json_chars (length r) r)
     else if c = CHR ''['' then
       (if r \<noteq> [] \<and> hd r = CHR '']'' then Some (JArr [], tl r)
        else map_option (\<lambda>(xs, q). (JArr xs, q)) (json_elems n r))
     else if c = CHR ''{'' then
       (if r \<noteq> [] \<and> hd r = CHR ''}'' then Some (JObj [], tl r)
        else map_option (\<lambda>(xs, q). (JObj xs, q)) (json_members n r))
     else if take 4 s = ''null'' then Some (JNull, drop 4 s)
     else if take 4 s = ''true'' then Some (JBool True, drop 4 s)
     else if take 5 s = ''false'' then Some (JBool False, drop 5 s)
     else json_int s)"
| "json_elems 0 s = None"
| "json_elems (Suc n) s = (case json_value n s of None \<Rightarrow> None | Some (v, r) \<Rightarrow>
     if r \<noteq> [] \<and> hd r = CHR '','' then map_option (\<lambda>(xs, q). (v # xs, q)) (json_elems n (tl r))
     else if r \<noteq> [] \<and> hd r = CHR '']'' then Some ([v], tl r)
     else None)"
| "json_members 0 s = None"
| "json_members (Suc n) s =
     (if s \<noteq> [] \<and> hd s = CHR 0x22 then
        (case json_chars (length s) (tl s) of None \<Rightarrow> None | Some (k, r) \<Rightarrow>
         if r \<noteq> [] \<and> hd r = CHR '':'' then
           (case json_value n (tl r) of None \<Rightarrow> None | Some (v, q) \<Rightarrow>
            if q \<noteq> [] \<and> hd q = CHR '','' then
              map_option (\<lambda>(xs, w). ((k, v) # xs, w)) (json_members n (tl q))
            else if q \<noteq> [] \<and> hd q = CHR ''}'' then Some ([(k, v)], tl q)
            else None)
         else None)
      else None)"

definition json_loads :: "string \<Rightarrow> json result" where
  "json_loads s = (case json_value (Suc (length s)) s of
      Some (v, []) \<Rightarrow> Inr v
    | _ \<Rightarrow> Inl (ValueError ''Invalid JSON''))"

section \<open>Reading back what json_text writes\<close>

lemma char_of_code [simp]: "char_of (of_char c :: nat) = c"
  by simp

lemma json_char_escape: "json_char (json_escape c @ r) = Some (c, r)"
proof (cases "(of_char c :: nat) < 32")
  case True
  define n where "n = (of_char c :: nat)"
  have c: "c = char_of n" by (simp add: n_def)
  have "n \<in> {0, 1, 2, 3, 4, 5, 6, 7, 8, 9, 10, 11, 12, 13, 14, 15, 16, 17, 18, 19, 20,
      21, 22, 23, 24, 25, 26, 27, 28, 29, 30, 31}"
    using True unfolding n_def [symmetric] insert_iff empty_iff by presburger
  then show ?thesis
    unfolding c by (elim insertE emptyE)
      (simp_all add: json_escape_def json_char_def hex_digit_def hex_val_def Let_def)
next
  case False
  then show ?thesis by (auto simp: json_escape_def json_char_def Let_def)
qed

lemma json_escape_nonempty: "json_escape c \<noteq> []"
  by (simp add: json_escape_def Let_def)

lemma json_escape_hd: "hd (json_escape c @ r) \<noteq> CHR 0x22"
  by (auto simp: json_escape_def Let_def)

lemma json_chars_escape:
  "length s < n \<Longrightarrow> json_chars n (concat (map json_escape s) @ CHR 0x22 # r) = Some (s, r)"
proof (induction s arbitrary: n)
  case Nil
  then show ?case by (cases n) simp_all
next
  case (Cons c s)
  then obtain m where n: "n = Suc m" "length s < m" by (cases n) auto
  then show ?case
    using Cons.IH [OF n(2)] json_escape_nonempty [of c] json_escape_hd [of c "concat (map json_escape s) @ CHR 0x22 # r"]
    by (simp add: json_char_escape)
qed

lemma length_concat_escape: "length s \<le> length (concat (map json_escape s))"
proof (induction s)
  case (Cons c s)
  have "1 \<le> length (json_escape c)" using json_escape_nonempty [of c] by (cases "json_escape c") auto
  with Cons show ?case by simp
qed simp

lemma json_chars_string:
  assumes "length (json_string s) \<le> n + 2"
  shows "json_chars (n + 1) (tl (json_string s @ r)) = Some (s, r)"
proof -
  have "length s < n + 1" using assms length_concat_escape [of s] by (simp add: json_string_def)
  from json_chars_escape [OF this] show ?thesis by (simp add: json_string_def)
qed

text \<open>The nesting budget a value needs, and that its own text is long enough.\<close>

fun json_fuel :: "json \<Rightarrow> nat" where
  "json_fuel (JArr xs) = Suc (sum_list (map (\<lambda>x. Suc (json_fuel x)) xs))"
| "json_fuel (JObj kvs) = Suc (sum_list (map (\<lambda>(k, v). Suc (json_fuel v)) kvs))"
| "json_fuel _ = 1"

lemma length_join: "xs \<noteq> [] \<Longrightarrow> Suc (length (join '','' xs)) = sum_list (map (\<lambda>x. Suc (length x)) xs)"
  by (induction "'',''" xs rule: join.induct) auto

lemma show_int_nonempty: "show_int i \<noteq> []"
  by (simp add: show_int_def)

lemma json_fuel_le: "json_fuel v \<le> length (json_text v)"
proof (induction v)
  case (JArr xs)
  have "sum_list (map (\<lambda>x. Suc (json_fuel x)) xs) \<le> sum_list (map (\<lambda>x. Suc (length (json_text x))) xs)"
    using JArr by (intro sum_list_mono) auto
  then show ?case using length_join [of "map json_text xs"]
    by (cases "xs = []") (simp_all add: comp_def)
next
  case (JObj kvs)
  have "sum_list (map (\<lambda>(k, v). Suc (json_fuel v)) kvs) \<le>
      sum_list (map (\<lambda>(k, v). Suc (length (json_string k @ '':'' @ json_text v))) kvs)"
    using JObj by (intro sum_list_mono) (force simp: snds.simps)
  then show ?case using length_join [of "map (\<lambda>(k, v). json_string k @ '':'' @ json_text v) kvs"]
    by (cases "kvs = []") (simp_all add: comp_def split_def)
next
  case (JInt i)
  then show ?case using show_int_nonempty [of i] by (cases "show_int i") auto
qed (simp_all add: json_string_def)

definition no_digit :: "string \<Rightarrow> bool" where
  "no_digit r = (r = [] \<or> \<not> is_digit (hd r))"

lemma json_int_show:
  assumes "no_digit r"
  shows "json_int (show_int i @ r) = Some (JInt i, r)"
proof -
  have tw: "takeWhile is_digit (show_nat n @ r) = show_nat n"
    "dropWhile is_digit (show_nat n @ r) = r" for n
    using assms show_nat_digits [of n]
    by (cases r; simp add: no_digit_def takeWhile_append dropWhile_append)+
  obtain c cs where c: "show_nat (nat i) = c # cs" by (cases "show_nat (nat i)") auto
  have "is_digit c" using show_nat_digits [of "nat i"] c by simp
  then have s: "c \<noteq> CHR ''-''" "c \<noteq> CHR ''+''" by (auto dest: digit_not_special)
  show ?thesis
  proof (cases "i < 0")
    case True
    then show ?thesis by (simp add: show_int_def json_int_def read_sign_def tw)
  next
    case False
    have "read_sign (show_nat (nat i) @ r) = (False, show_nat (nat i) @ r)"
      "take 1 (show_nat (nat i) @ r) \<noteq> ''+''"
      using s by (simp_all add: c read_sign_def)
    with False show ?thesis by (simp add: show_int_def json_int_def tw)
  qed
qed

lemma show_int_hd:
  obtains c cs where "show_int i = c # cs" "is_digit c \<or> c = CHR ''-''"
proof (cases "i < 0")
  case True
  then show ?thesis using that [of "CHR ''-''"] by (simp add: show_int_def)
next
  case False
  obtain c cs where c: "show_nat (nat i) = c # cs" by (cases "show_nat (nat i)") auto
  then have "is_digit c" using show_nat_digits [of "nat i"] by simp
  with c False show ?thesis using that by (simp add: show_int_def)
qed

lemma json_text_hd: "json_text v = c # cs \<Longrightarrow> c \<noteq> CHR '']'' \<and> c \<noteq> CHR ''}''"
proof (cases v)
  case (JInt i)
  moreover obtain d ds where "show_int i = d # ds" "is_digit d \<or> d = CHR ''-''"
    by (rule show_int_hd)
  moreover assume "json_text v = c # cs"
  ultimately show ?thesis by (auto simp: is_digit_def)
qed (auto simp: json_string_def split: if_splits)

lemma json_text_nonempty: "json_text v \<noteq> []"
  using json_fuel_le [of v] by (cases v) auto

lemma json_value_int:
  assumes "no_digit r" "0 < n"
  shows "json_value n (show_int i @ r) = Some (JInt i, r)"
proof -
  obtain m where n: "n = Suc m" using assms(2) by (cases n) auto
  obtain c cs where c: "show_int i = c # cs" "is_digit c \<or> c = CHR ''-''" by (rule show_int_hd)
  have ne: "c \<noteq> CHR 0x22" "c \<noteq> CHR ''[''" "c \<noteq> CHR ''{''" "c \<noteq> CHR ''n''" "c \<noteq> CHR ''t''"
    "c \<noteq> CHR ''f''"
    using c(2) by (auto simp: is_digit_def)
  have "json_value n (show_int i @ r) = json_int (show_int i @ r)"
    using ne by (simp add: n c(1) numeral_eq_Suc)
  then show ?thesis using json_int_show [OF assms(1)] by simp
qed

lemma json_elems_text:
  assumes "\<And>x n r. x \<in> set xs \<Longrightarrow> json_fuel x \<le> n \<Longrightarrow> no_digit r \<Longrightarrow>
      json_value n (json_text x @ r) = Some (x, r)"
    and "xs \<noteq> []" "sum_list (map (\<lambda>x. Suc (json_fuel x)) xs) \<le> n"
  shows "json_elems n (join '','' (map json_text xs) @ CHR '']'' # r) = Some (xs, r)"
  using assms
proof (induction xs arbitrary: n)
  case (Cons x xs)
  from Cons.prems(3) obtain m where n: "n = Suc m" "json_fuel x \<le> m" by (cases n) auto
  have nd: "no_digit (CHR '']'' # r)" "no_digit (CHR '','' # r')" for r'
    by (simp_all add: no_digit_def is_digit_def)
  show ?case
  proof (cases xs)
    case Nil
    with Cons.prems(1) [of x, OF _ n(2) nd(1)] n show ?thesis by simp
  next
    case (Cons y ys)
    have "json_elems m (join '','' (map json_text xs) @ CHR '']'' # r) = Some (xs, r)"
      by (rule Cons.IH) (use Cons.prems Cons n in auto)
    with Cons Cons.prems(1) [of x, OF _ n(2) nd(2)] n show ?thesis by simp
  qed
qed simp

lemma json_members_step:
  "json_members (Suc m) (json_string k @ CHR '':'' # q) =
     (case json_value m q of None \<Rightarrow> None | Some (v, q) \<Rightarrow>
        if q \<noteq> [] \<and> hd q = CHR '','' then
          map_option (\<lambda>(xs, w). ((k, v) # xs, w)) (json_members m (tl q))
        else if q \<noteq> [] \<and> hd q = CHR ''}'' then Some ([(k, v)], tl q)
        else None)"
proof -
  let ?s = "json_string k @ CHR '':'' # q"
  obtain j where j: "length ?s = j + 1" "length (json_string k) \<le> j + 2"
    by (cases "length ?s") auto
  have key: "json_chars (length ?s) (tl ?s) = Some (k, CHR '':'' # q)"
    using json_chars_string [OF j(2), of "CHR '':'' # q"] unfolding j(1) .
  have hd: "?s \<noteq> [] \<and> hd ?s = CHR 0x22" by (simp add: json_string_def)
  show ?thesis
    unfolding json_members.simps if_P [OF hd] key by simp
qed

lemma json_members_text:
  assumes "\<And>k v n r. (k, v) \<in> set kvs \<Longrightarrow> json_fuel v \<le> n \<Longrightarrow> no_digit r \<Longrightarrow>
      json_value n (json_text v @ r) = Some (v, r)"
    and "kvs \<noteq> []" "sum_list (map (\<lambda>(k, v). Suc (json_fuel v)) kvs) \<le> n"
  shows "json_members n (join '','' (map (\<lambda>(k, v). json_string k @ '':'' @ json_text v) kvs) @ CHR ''}'' # r)
    = Some (kvs, r)"
  using assms
proof (induction kvs arbitrary: n)
  case (Cons kv kvs)
  obtain k v where kv: "kv = (k, v)" by (cases kv)
  from Cons.prems(3) kv obtain m where n: "n = Suc m" "json_fuel v \<le> m" by (cases n) auto
  have nd: "no_digit (CHR ''}'' # r)" "no_digit (CHR '','' # r')" for r'
    by (simp_all add: no_digit_def is_digit_def)
  show ?case
  proof (cases kvs)
    case Nil
    with Cons.prems(1) [of k v, OF _ n(2) nd(1)] n kv show ?thesis
      by (simp add: json_members_step del: json_members.simps)
  next
    case (Cons y ys)
    let ?t = "join '','' (map (\<lambda>(k, v). json_string k @ '':'' @ json_text v) kvs) @ CHR ''}'' # r"
    have "json_members m ?t = Some (kvs, r)"
      by (rule Cons.IH) (use Cons.prems Cons n kv in auto)
    moreover have "json_value m (json_text v @ CHR '','' # ?t) = Some (v, CHR '','' # ?t)"
      using Cons.prems(1) [of k v, OF _ n(2) nd(2)] kv by simp
    moreover have "join '','' (map (\<lambda>(k, v). json_string k @ '':'' @ json_text v) (kv # kvs)) @ CHR ''}'' # r
        = json_string k @ CHR '':'' # json_text v @ CHR '','' # ?t"
      using Cons kv by simp
    ultimately show ?thesis unfolding n(1) by (simp only: json_members_step) (simp add: kv)
  qed
qed simp

lemma json_value_text:
  "json_fuel v \<le> n \<Longrightarrow> no_digit r \<Longrightarrow> json_value n (json_text v @ r) = Some (v, r)"
proof (induction v arbitrary: n r)
  case (JInt i)
  then show ?case by (simp add: json_value_int)
next
  case (JStr s)
  then obtain m where n: "n = Suc m" by (cases n) auto
  obtain j where j: "length (tl (json_string s @ r)) = j + 1" "length (json_string s) \<le> j + 2"
    by (cases "length (tl (json_string s @ r))") (auto simp: json_string_def)
  have "json_chars (length (tl (json_string s @ r))) (tl (json_string s @ r)) = Some (s, r)"
    using json_chars_string [OF j(2)] unfolding j(1) .
  then show ?case by (simp add: n json_string_def del: json_chars.simps)
next
  case (JArr xs)
  then obtain m where n: "n = Suc m" "sum_list (map (\<lambda>x. Suc (json_fuel x)) xs) \<le> m"
    by (cases n) auto
  show ?case
  proof (cases "xs = []")
    case False
    let ?t = "join '','' (map json_text xs) @ CHR '']'' # r"
    have "json_elems m ?t = Some (xs, r)"
      by (rule json_elems_text) (use JArr.IH False n in auto)
    moreover have "hd ?t \<noteq> CHR '']''"
    proof -
      obtain x ys where x: "xs = x # ys" using False by (cases xs) auto
      obtain c cs where c: "json_text x = c # cs" using json_text_nonempty [of x] by (cases "json_text x") auto
      then have "c \<noteq> CHR '']''" using json_text_hd by blast
      with x c show ?thesis by (cases ys) auto
    qed
    ultimately show ?thesis by (simp add: n(1) del: json_elems.simps)
  qed (simp add: n(1))
next
  case (JObj kvs)
  then obtain m where n: "n = Suc m" "sum_list (map (\<lambda>(k, v). Suc (json_fuel v)) kvs) \<le> m"
    by (cases n) auto
  show ?case
  proof (cases "kvs = []")
    case False
    let ?t = "join '','' (map (\<lambda>(k, v). json_string k @ '':'' @ json_text v) kvs) @ CHR ''}'' # r"
    have "json_members m ?t = Some (kvs, r)"
      by (rule json_members_text) (use JObj.IH False n in \<open>auto simp: snds.simps\<close>)
    moreover have "hd ?t \<noteq> CHR ''}''"
    proof -
      obtain k v ys where x: "kvs = (k, v) # ys" using False by (cases kvs) auto
      then show ?thesis by (cases ys) (auto simp: json_string_def)
    qed
    ultimately show ?thesis by (simp add: n(1) del: json_members.simps)
  qed (simp add: n(1))
qed (auto simp: numeral_eq_Suc gr0_conv_Suc dest!: Suc_le_D)

theorem json_loads_text: "json_loads (json_text v) = Inr v"
  using json_value_text [of v "Suc (length (json_text v))" "[]"] json_fuel_le [of v]
  by (simp add: json_loads_def no_digit_def del: json_value.simps)

interpretation jsn: codec json_text json_loads "\<lambda>_. True"
  by unfold_locales (rule json_loads_text)

text \<open>Equal canonical texts denote equal JSON values.\<close>

lemma canonical_json_inject: "canonical_json a = canonical_json b \<longleftrightarrow> to_json a = to_json b"
  by (simp add: canonical_json_def jsn.enc_inject)

lemma json_loads_canonical: "json_loads (canonical_json v) = Inr (to_json v)"
  by (simp add: canonical_json_def json_loads_text)

section \<open>JSON values as Python values\<close>

text \<open>A value read from a JSON column, as the Python object it is.\<close>

fun py_of_json :: "json \<Rightarrow> pyval" where
  "py_of_json JNull = PNone"
| "py_of_json (JBool b) = PBool b"
| "py_of_json (JInt i) = PInt i"
| "py_of_json (JStr s) = PStr s"
| "py_of_json (JArr xs) = PList (map py_of_json xs)"
| "py_of_json (JObj kvs) = PDict (map (\<lambda>(k, v). (k, py_of_json v)) kvs)"

lemma map_of_sort_key:
  assumes "distinct (map fst xs)"
  shows "map_of (sort_key fst xs) = map_of xs"
proof -
  have "mset (map fst (sort_key fst xs)) = mset (map fst xs)" by simp
  then have "distinct (map fst (sort_key fst xs))"
    using assms by (metis mset_eq_imp_distinct_iff)
  with assms show ?thesis by (simp add: map_of_inject_set)
qed

text \<open>Dictionaries with equal canonical texts agree key by key.\<close>

lemma to_json_dict_lookup:
  assumes "to_json (PDict a) = to_json (PDict b)"
    and "distinct (map fst a)" "distinct (map fst b)"
  shows "map_option to_json (map_of a k) = map_option to_json (map_of b k)"
proof -
  have f: "map fst (map (\<lambda>(k, v). (k, to_json v)) kvs) = map fst kvs" for kvs
    by (induction kvs) auto
  have l: "map_of (map (\<lambda>(k, v). (k, to_json v)) kvs) k = map_option to_json (map_of kvs k)" for kvs
    by (induction kvs) auto
  have "sort_key fst (map (\<lambda>(k, v). (k, to_json v)) a) =
      sort_key fst (map (\<lambda>(k, v). (k, to_json v)) b)"
    using assms(1) by simp
  moreover have "distinct (map fst (map (\<lambda>(k, v). (k, to_json v)) a))"
    "distinct (map fst (map (\<lambda>(k, v). (k, to_json v)) b))"
    using assms(2,3) unfolding f by simp_all
  ultimately have "map_of (map (\<lambda>(k, v). (k, to_json v)) a) = map_of (map (\<lambda>(k, v). (k, to_json v)) b)"
    by (metis map_of_sort_key)
  then have "map_of (map (\<lambda>(k, v). (k, to_json v)) a) k = map_of (map (\<lambda>(k, v). (k, to_json v)) b) k"
    by simp
  then show ?thesis by (simp only: l)
qed

end
