(* ===== verification/DomainTypes.thy ===== *)
theory DomainTypes
  imports Prelude
begin

text \<open>
  \<open>domain.py\<close> and \<open>errors.py\<close>: the enumerations with their stored values, the actor, the role
  check, and the API code and HTTP status of a domain error.
\<close>

datatype asset_type = BATTERY | EV_CHARGER | HEAT_PUMP | INDUSTRIAL_LOAD
datatype asset_status = ACTIVE | SUSPENDED
datatype flex_direction = INCREASE | DECREASE
datatype offer_status = OPEN | OFFER_RESERVED | OFFER_CANCELLED
datatype reservation_status =
  RESERVED | DISPATCH_PENDING | DISPATCHED | RES_COMPLETED | RES_CANCELLED
datatype dispatch_status = QUEUED | ISSUED | DSP_COMPLETED | REJECTED
datatype actor_role =
  ASSET_OWNER | MARKET_OPERATOR | SETTLEMENT_ANALYST | AUDITOR | RECOVERY_OPERATOR | SYSTEM

fun asset_type_value :: "asset_type \<Rightarrow> string" where
  "asset_type_value BATTERY = ''battery''"
| "asset_type_value EV_CHARGER = ''ev_charger''"
| "asset_type_value HEAT_PUMP = ''heat_pump''"
| "asset_type_value INDUSTRIAL_LOAD = ''industrial_load''"

fun direction_value :: "flex_direction \<Rightarrow> string" where
  "direction_value INCREASE = ''increase''"
| "direction_value DECREASE = ''decrease''"

fun role_value :: "actor_role \<Rightarrow> string" where
  "role_value ASSET_OWNER = ''asset_owner''"
| "role_value MARKET_OPERATOR = ''market_operator''"
| "role_value SETTLEMENT_ANALYST = ''settlement_analyst''"
| "role_value AUDITOR = ''auditor''"
| "role_value RECOVERY_OPERATOR = ''recovery_operator''"
| "role_value SYSTEM = ''system''"

record actor =
  actor_id :: string
  actor_role :: actor_role

definition require_role :: "actor \<Rightarrow> actor_role list \<Rightarrow> unit result" where
  "require_role a allowed =
     (if actor_role a \<notin> set allowed then
        Inl (ForbiddenError (''Role '' @ squote @ role_value (actor_role a) @ squote @
          '' cannot perform this operation; expected one of: '' @
          join '', '' (map role_value allowed) @ ''.''))
      else Inr ())"

text \<open>The class attributes \<open>code\<close> and \<open>status_code\<close>; other exceptions have none.\<close>

fun error_code :: "pyexn \<Rightarrow> string option" where
  "error_code (NotFoundError _) = Some ''not_found''"
| "error_code (ConflictError _) = Some ''conflict''"
| "error_code (ForbiddenError _) = Some ''forbidden''"
| "error_code (InvalidTransitionError _) = Some ''invalid_transition''"
| "error_code (AuthenticationError _) = Some ''authentication_failed''"
| "error_code _ = None"

fun status_code :: "pyexn \<Rightarrow> nat option" where
  "status_code (NotFoundError _) = Some 404"
| "status_code (ConflictError _) = Some 409"
| "status_code (ForbiddenError _) = Some 403"
| "status_code (InvalidTransitionError _) = Some 409"
| "status_code (AuthenticationError _) = Some 401"
| "status_code _ = None"

lemma require_role_ok [simp]: "require_role a allowed = Inr u \<longleftrightarrow> actor_role a \<in> set allowed"
  by (simp add: require_role_def)

lemma require_role_cases:
  "require_role a allowed = Inr () \<or> (\<exists>m. require_role a allowed = Inl (ForbiddenError m))"
  by (simp add: require_role_def)

end
