(* ===== verification/Models.thy ===== *)
theory Models
  imports CanonicalJson DomainTypes
begin

text \<open>
  \<open>models.py\<close>: one record per mapped class, the database as one list of rows per table, and
  the insertion of a row under the constraints the classes declare: primary key, unique columns,
  foreign keys, and, on a backend that enforces them (PostgreSQL, not SQLite), column widths.
  A violated constraint is an \<open>IntegrityError\<close> or \<open>DataError\<close>.  A Numeric(18,6) column holds the
  written decimal at scale six.  That is exact on PostgreSQL; on SQLite the driver stores such a
  column as a binary64 number and formats it with six places, which gives the same decimal only up to
  about fifteen significant digits.  The model has the exact column for both.
\<close>

section \<open>The environment of a run\<close>

text \<open>
  \<open>sha256\<close> is \<open>hashlib.sha256(text.encode()).hexdigest()\<close>; \<open>pyd_decimal\<close> and \<open>pyd_time\<close> are how
  pydantic's \<open>model_dump(mode="json")\<close> renders a decimal and a timestamp; \<open>strict_widths\<close> says
  whether the backend enforces column widths.  \<open>serial_appends\<close> says whether no other event can be
  committed between the read of the latest event and the insert of the next one, as under SQLite,
  where an open write keeps every other writer out; under PostgreSQL's READ COMMITTED it can.  The
  values of \<open>uuid4()\<close>, of the clock and of the sequence gap left by rolled-back transactions are the
  draws of one call, in code order; \<open>unseen\<close> counts the newest events that its read of the latest
  event does not see, because they were committed after that read.
\<close>

record env =
  sha256 :: "string \<Rightarrow> string"
  pyd_decimal :: "decimal \<Rightarrow> string"
  pyd_time :: "datetime \<Rightarrow> string"
  strict_widths :: bool
  serial_appends :: bool

record draws =
  uuid :: "nat \<Rightarrow> string"
  now :: "nat \<Rightarrow> datetime"
  seq_gap :: nat
  unseen :: nat

section \<open>Rows\<close>

record asset =
  ast_id :: string
  ast_external_id :: string
  ast_owner_id :: string
  ast_type :: asset_type
  ast_capacity_kw :: decimal
  ast_location_code :: string
  ast_status :: asset_status
  ast_created_at :: datetime

record flex_offer =
  ofr_id :: string
  ofr_asset_id :: string
  ofr_window_start :: datetime
  ofr_window_end :: datetime
  ofr_direction :: flex_direction
  ofr_quantity_kw :: decimal
  ofr_price_per_kwh :: decimal
  ofr_status :: offer_status
  ofr_created_by :: string
  ofr_created_at :: datetime

record reservation =
  rsv_id :: string
  rsv_offer_id :: string
  rsv_quantity_kw :: decimal
  rsv_status :: reservation_status
  rsv_requested_by :: string
  rsv_created_at :: datetime

record dispatch =
  dsp_id :: string
  dsp_reservation_id :: string
  dsp_target_kw :: decimal
  dsp_starts_at :: datetime
  dsp_ends_at :: datetime
  dsp_status :: dispatch_status
  dsp_issued_by :: string
  dsp_adapter_reference :: "string option"
  dsp_created_at :: datetime

record meter_reading =
  mtr_id :: string
  mtr_asset_id :: string
  mtr_interval_start :: datetime
  mtr_interval_end :: datetime
  mtr_energy_kwh :: decimal
  mtr_source :: string
  mtr_fingerprint :: string
  mtr_recorded_by :: string
  mtr_received_at :: datetime

record settlement =
  stl_id :: string
  stl_reservation_id :: string
  stl_delivered_kwh :: decimal
  stl_price_per_kwh :: decimal
  stl_amount :: decimal
  stl_evidence_manifest :: pyval
  stl_evidence_hash :: string
  stl_settled_by :: string
  stl_created_at :: datetime

record audit_event =
  evt_sequence :: nat
  evt_id :: string
  evt_aggregate_type :: string
  evt_aggregate_id :: string
  evt_type :: string
  evt_actor_id :: string
  evt_correlation_id :: string
  evt_payload :: json
  evt_previous_hash :: string
  evt_hash :: string
  evt_occurred_at :: datetime

record idempotency_record =
  idm_id :: string
  idm_operation :: string
  idm_key :: string
  idm_request_hash :: string
  idm_resource_type :: string
  idm_resource_id :: string
  idm_response_snapshot :: string
  idm_created_at :: datetime

datatype outbox_status = PENDING | PROCESSING | PUBLISHED | DEAD

record outbox_message =
  msg_id :: string
  msg_topic :: string
  msg_aggregate_id :: string
  msg_idempotency_key :: string
  msg_payload :: "(string \<times> string) list"
  msg_status :: outbox_status
  msg_attempts :: int
  msg_available_at :: datetime
  msg_lease_expires_at :: "datetime option"
  msg_locked_by :: "string option"
  msg_adapter_reference :: "string option"
  msg_last_error :: "string option"
  msg_published_at :: "datetime option"
  msg_created_at :: datetime
  msg_updated_at :: datetime

record db =
  assets :: "asset list"
  offers :: "flex_offer list"
  reservations :: "reservation list"
  dispatches :: "dispatch list"
  readings :: "meter_reading list"
  settlements :: "settlement list"
  events :: "audit_event list"
  idem :: "idempotency_record list"
  messages :: "outbox_message list"

definition empty_db :: db where
  "empty_db = \<lparr>assets = [], offers = [], reservations = [], dispatches = [], readings = [],
     settlements = [], events = [], idem = [], messages = []\<rparr>"

section \<open>Columns\<close>

text \<open>
  What a \<open>Numeric(18, 6)\<close> column holds after \<open>d\<close> was written to it: scale six, ties away from
  zero, no negative zero.  It fits when it has fewer than thirteen digits before the point.  This is
  PostgreSQL's column; SQLite's passes through binary64, which the model leaves out.
\<close>

definition numeric6 :: "decimal \<Rightarrow> decimal" where
  "numeric6 d =
     (let c = (if - 6 \<le> dexp d then dcoef d * 10 ^ nat (dexp d + 6)
               else round_div ROUND_HALF_UP (dcoef d) (10 ^ nat (- 6 - dexp d))) in
      Dec (dneg d \<and> c \<noteq> 0) c (- 6))"

definition store_asset :: "asset \<Rightarrow> asset" where
  "store_asset a = a\<lparr>ast_capacity_kw := numeric6 (ast_capacity_kw a)\<rparr>"

definition store_offer :: "flex_offer \<Rightarrow> flex_offer" where
  "store_offer a = a\<lparr>ofr_quantity_kw := numeric6 (ofr_quantity_kw a),
     ofr_price_per_kwh := numeric6 (ofr_price_per_kwh a)\<rparr>"

definition store_reservation :: "reservation \<Rightarrow> reservation" where
  "store_reservation a = a\<lparr>rsv_quantity_kw := numeric6 (rsv_quantity_kw a)\<rparr>"

definition store_dispatch :: "dispatch \<Rightarrow> dispatch" where
  "store_dispatch a = a\<lparr>dsp_target_kw := numeric6 (dsp_target_kw a)\<rparr>"

definition store_reading :: "meter_reading \<Rightarrow> meter_reading" where
  "store_reading a = a\<lparr>mtr_energy_kwh := numeric6 (mtr_energy_kwh a)\<rparr>"

definition store_settlement :: "settlement \<Rightarrow> settlement" where
  "store_settlement a = a\<lparr>stl_delivered_kwh := numeric6 (stl_delivered_kwh a),
     stl_price_per_kwh := numeric6 (stl_price_per_kwh a), stl_amount := numeric6 (stl_amount a)\<rparr>"

definition numeric_fits :: "decimal \<Rightarrow> bool" where
  "numeric_fits d = dec_less (Dec False (dcoef d) (dexp d)) (Dec False (10 ^ 12) 0)"

definition opt_fits :: "nat \<Rightarrow> string option \<Rightarrow> bool" where
  "opt_fits n x = (case x of None \<Rightarrow> True | Some s \<Rightarrow> length s \<le> n)"

text \<open>
  The bounded columns of each table.  Columns of statuses, types and directions hold the values of
  enumerations, all of them shorter than their columns; columns that refer to another table are held to an
  existing key by the foreign key.  Of the columns that are assigned later, the token and the adapter
  reference of a message are checked when they are assigned, and the adapter reference of a dispatch
  is the one its message was given just before, in a column of the same width.
\<close>

definition asset_fits :: "asset \<Rightarrow> bool" where
  "asset_fits a = (length (ast_id a) \<le> 36 \<and> length (ast_external_id a) \<le> 100 \<and>
     length (ast_owner_id a) \<le> 100 \<and> numeric_fits (ast_capacity_kw a) \<and>
     length (ast_location_code a) \<le> 80)"

definition offer_fits :: "flex_offer \<Rightarrow> bool" where
  "offer_fits a = (length (ofr_id a) \<le> 36 \<and> numeric_fits (ofr_quantity_kw a) \<and>
     numeric_fits (ofr_price_per_kwh a) \<and> length (ofr_created_by a) \<le> 100)"

definition reservation_fits :: "reservation \<Rightarrow> bool" where
  "reservation_fits a = (length (rsv_id a) \<le> 36 \<and> numeric_fits (rsv_quantity_kw a) \<and>
     length (rsv_requested_by a) \<le> 100)"

definition dispatch_fits :: "dispatch \<Rightarrow> bool" where
  "dispatch_fits a = (length (dsp_id a) \<le> 36 \<and> numeric_fits (dsp_target_kw a) \<and>
     length (dsp_issued_by a) \<le> 100 \<and> opt_fits 200 (dsp_adapter_reference a))"

definition reading_fits :: "meter_reading \<Rightarrow> bool" where
  "reading_fits a = (length (mtr_id a) \<le> 36 \<and> numeric_fits (mtr_energy_kwh a) \<and>
     length (mtr_source a) \<le> 100 \<and> length (mtr_fingerprint a) \<le> 64 \<and>
     length (mtr_recorded_by a) \<le> 100)"

definition settlement_fits :: "settlement \<Rightarrow> bool" where
  "settlement_fits a = (length (stl_id a) \<le> 36 \<and> numeric_fits (stl_delivered_kwh a) \<and>
     numeric_fits (stl_price_per_kwh a) \<and> numeric_fits (stl_amount a) \<and>
     length (stl_evidence_hash a) \<le> 64 \<and> length (stl_settled_by a) \<le> 100)"

definition event_fits :: "audit_event \<Rightarrow> bool" where
  "event_fits e = (length (evt_id e) \<le> 36 \<and> length (evt_aggregate_type e) \<le> 60 \<and>
     length (evt_aggregate_id e) \<le> 36 \<and> length (evt_type e) \<le> 100 \<and>
     length (evt_actor_id e) \<le> 100 \<and> length (evt_correlation_id e) \<le> 100 \<and>
     length (evt_previous_hash e) \<le> 64 \<and> length (evt_hash e) \<le> 64)"

definition idem_fits :: "idempotency_record \<Rightarrow> bool" where
  "idem_fits r = (length (idm_id r) \<le> 36 \<and> length (idm_operation r) \<le> 80 \<and>
     length (idm_key r) \<le> 200 \<and> length (idm_request_hash r) \<le> 64 \<and>
     length (idm_resource_type r) \<le> 60 \<and> length (idm_resource_id r) \<le> 36)"

definition message_fits :: "outbox_message \<Rightarrow> bool" where
  "message_fits m = (length (msg_id m) \<le> 36 \<and> length (msg_topic m) \<le> 100 \<and>
     length (msg_aggregate_id m) \<le> 36 \<and> length (msg_idempotency_key m) \<le> 200 \<and>
     opt_fits 100 (msg_locked_by m) \<and> opt_fits 200 (msg_adapter_reference m))"

text \<open>A decimal with no digit beyond the sixth decimal place is stored exactly.\<close>

definition six_places :: "decimal \<Rightarrow> bool" where
  "six_places d = (- 6 \<le> dexp d \<or> dcoef d mod 10 ^ nat (- 6 - dexp d) = 0)"

lemma dec_val_numeric6:
  assumes "six_places d"
  shows "dec_val (numeric6 d) = dec_val d"
proof (cases "- 6 \<le> dexp d")
  case True
  then have "(10::rat) ^ nat (dexp d + 6) * 10 powi (- 6) = 10 powi dexp d"
    by (subst power_int_of_nat [symmetric], subst power_int_add [symmetric]) simp_all
  with True show ?thesis by (simp add: numeric6_def dec_val_def dsig_def Let_def)
next
  case False
  define p where "p = (10::nat) ^ nat (- 6 - dexp d)"
  from False assms obtain q where q: "dcoef d = p * q"
    unfolding six_places_def p_def by (auto simp: mod_eq_0_iff_dvd)
  have p: "0 < p" "(of_nat p :: rat) = 10 powi (- 6 - dexp d)"
    using False by (simp_all add: p_def power_int_def)
  have "round_div ROUND_HALF_UP (dcoef d) p = q"
    using p(1) by (simp add: round_div_def q Let_def)
  moreover have "(of_nat p :: rat) * 10 powi dexp d = 10 powi (- 6)"
    unfolding p(2) by (subst power_int_add [symmetric]) simp_all
  ultimately show ?thesis
    using False p(1) unfolding p_def [symmetric]
    by (simp add: numeric6_def dec_val_def dsig_def Let_def q p_def [symmetric] algebra_simps)
qed

lemma numeric6_id: "dexp d = - 6 \<Longrightarrow> \<not> dneg d \<Longrightarrow> numeric6 d = d"
  by (cases d) (simp add: numeric6_def)

lemma numeric6_shape [simp]: "dexp (numeric6 d) = - 6"
  by (simp add: numeric6_def Let_def)

section \<open>Insertion\<close>

text \<open>A row \<open>r\<close> is stored when it fits, breaks no uniqueness, and its references exist.\<close>

definition constrained :: "env \<Rightarrow> string \<Rightarrow> bool \<Rightarrow> bool \<Rightarrow> bool \<Rightarrow> 'a \<Rightarrow> 'a result" where
  "constrained E tab fits clash refs s =
     (if strict_widths E \<and> \<not> fits then Inl (DataError tab)
      else if clash \<or> \<not> refs then Inl (IntegrityError tab)
      else Inr s)"

definition insert_asset :: "env \<Rightarrow> asset \<Rightarrow> db \<Rightarrow> db result" where
  "insert_asset E a s = constrained E ''assets'' (asset_fits (store_asset a))
     (ast_id a \<in> ast_id ` set (assets s) \<or> ast_external_id a \<in> ast_external_id ` set (assets s))
     True (s\<lparr>assets := assets s @ [store_asset a]\<rparr>)"

definition insert_offer :: "env \<Rightarrow> flex_offer \<Rightarrow> db \<Rightarrow> db result" where
  "insert_offer E a s = constrained E ''flex_offers'' (offer_fits (store_offer a))
     (ofr_id a \<in> ofr_id ` set (offers s))
     (ofr_asset_id a \<in> ast_id ` set (assets s)) (s\<lparr>offers := offers s @ [store_offer a]\<rparr>)"

definition insert_reservation :: "env \<Rightarrow> reservation \<Rightarrow> db \<Rightarrow> db result" where
  "insert_reservation E a s = constrained E ''reservations'' (reservation_fits (store_reservation a))
     (rsv_id a \<in> rsv_id ` set (reservations s) \<or>
      rsv_offer_id a \<in> rsv_offer_id ` set (reservations s))
     (rsv_offer_id a \<in> ofr_id ` set (offers s)) (s\<lparr>reservations := reservations s @ [store_reservation a]\<rparr>)"

definition insert_dispatch :: "env \<Rightarrow> dispatch \<Rightarrow> db \<Rightarrow> db result" where
  "insert_dispatch E a s = constrained E ''dispatches'' (dispatch_fits (store_dispatch a))
     (dsp_id a \<in> dsp_id ` set (dispatches s) \<or>
      dsp_reservation_id a \<in> dsp_reservation_id ` set (dispatches s))
     (dsp_reservation_id a \<in> rsv_id ` set (reservations s)) (s\<lparr>dispatches := dispatches s @ [store_dispatch a]\<rparr>)"

definition insert_reading :: "env \<Rightarrow> meter_reading \<Rightarrow> db \<Rightarrow> db result" where
  "insert_reading E a s = constrained E ''meter_readings'' (reading_fits (store_reading a))
     (mtr_id a \<in> mtr_id ` set (readings s) \<or> mtr_fingerprint a \<in> mtr_fingerprint ` set (readings s))
     (mtr_asset_id a \<in> ast_id ` set (assets s)) (s\<lparr>readings := readings s @ [store_reading a]\<rparr>)"

definition insert_settlement :: "env \<Rightarrow> settlement \<Rightarrow> db \<Rightarrow> db result" where
  "insert_settlement E a s = constrained E ''settlements'' (settlement_fits (store_settlement a))
     (stl_id a \<in> stl_id ` set (settlements s) \<or>
      stl_reservation_id a \<in> stl_reservation_id ` set (settlements s))
     (stl_reservation_id a \<in> rsv_id ` set (reservations s)) (s\<lparr>settlements := settlements s @ [store_settlement a]\<rparr>)"

definition insert_event :: "env \<Rightarrow> audit_event \<Rightarrow> db \<Rightarrow> db result" where
  "insert_event E e s = constrained E ''audit_events'' (event_fits e)
     (evt_sequence e \<in> evt_sequence ` set (events s) \<or> evt_id e \<in> evt_id ` set (events s) \<or>
      evt_hash e \<in> evt_hash ` set (events s))
     True (s\<lparr>events := events s @ [e]\<rparr>)"

definition insert_idem :: "env \<Rightarrow> idempotency_record \<Rightarrow> db \<Rightarrow> db result" where
  "insert_idem E r s = constrained E ''idempotency_records'' (idem_fits r)
     (idm_id r \<in> idm_id ` set (idem s) \<or>
      (idm_operation r, idm_key r) \<in> (\<lambda>x. (idm_operation x, idm_key x)) ` set (idem s))
     True (s\<lparr>idem := idem s @ [r]\<rparr>)"

definition insert_message :: "env \<Rightarrow> outbox_message \<Rightarrow> db \<Rightarrow> db result" where
  "insert_message E m s = constrained E ''outbox_messages'' (message_fits m)
     (msg_id m \<in> msg_id ` set (messages s) \<or>
      (msg_topic m, msg_idempotency_key m) \<in> (\<lambda>x. (msg_topic x, msg_idempotency_key x)) ` set (messages s))
     True (s\<lparr>messages := messages s @ [m]\<rparr>)"

lemma constrained_ok:
  "constrained E tab f c r s = Inr s' \<longleftrightarrow> s' = s \<and> (strict_widths E \<longrightarrow> f) \<and> \<not> c \<and> r"
  by (auto simp: constrained_def)

lemmas insert_defs = insert_asset_def insert_offer_def insert_reservation_def insert_dispatch_def
  insert_reading_def insert_settlement_def insert_event_def insert_idem_def insert_message_def

lemmas store_defs = store_asset_def store_offer_def store_reservation_def store_dispatch_def
  store_reading_def store_settlement_def

section \<open>Transactions\<close>

text \<open>\<open>with session.begin():\<close> the body's writes are kept when it returns, undone when it raises.\<close>

definition transaction :: "(db \<Rightarrow> ('a \<times> db) result) \<Rightarrow> db \<Rightarrow> 'a result \<times> db" where
  "transaction body s = (case body s of Inl e \<Rightarrow> (Inl e, s) | Inr (a, s') \<Rightarrow> (Inr a, s'))"

lemma transaction_Inr: "transaction body s = (Inr a, s') \<longleftrightarrow> body s = Inr (a, s')"
  by (auto simp: transaction_def split: sum.splits)

lemma transaction_Inl: "transaction body s = (Inl e, s') \<longleftrightarrow> body s = Inl e \<and> s' = s"
  by (auto simp: transaction_def split: sum.splits)

section \<open>The declared constraints as an invariant\<close>

definition keys_ok :: "db \<Rightarrow> bool" where
  "keys_ok s \<longleftrightarrow>
     distinct (map ast_id (assets s)) \<and> distinct (map ast_external_id (assets s)) \<and>
     distinct (map ofr_id (offers s)) \<and>
     distinct (map rsv_id (reservations s)) \<and> distinct (map rsv_offer_id (reservations s)) \<and>
     distinct (map dsp_id (dispatches s)) \<and> distinct (map dsp_reservation_id (dispatches s)) \<and>
     distinct (map mtr_id (readings s)) \<and> distinct (map mtr_fingerprint (readings s)) \<and>
     distinct (map stl_id (settlements s)) \<and> distinct (map stl_reservation_id (settlements s)) \<and>
     distinct (map evt_id (events s)) \<and> distinct (map evt_hash (events s)) \<and>
     distinct (map (\<lambda>r. (idm_operation r, idm_key r)) (idem s)) \<and>
     distinct (map msg_id (messages s)) \<and>
     distinct (map (\<lambda>m. (msg_topic m, msg_idempotency_key m)) (messages s))"

definition refs_ok :: "db \<Rightarrow> bool" where
  "refs_ok s \<longleftrightarrow>
     (\<forall>o'\<in>set (offers s). ofr_asset_id o' \<in> ast_id ` set (assets s)) \<and>
     (\<forall>r\<in>set (reservations s). rsv_offer_id r \<in> ofr_id ` set (offers s)) \<and>
     (\<forall>d\<in>set (dispatches s). dsp_reservation_id d \<in> rsv_id ` set (reservations s)) \<and>
     (\<forall>r\<in>set (readings s). mtr_asset_id r \<in> ast_id ` set (assets s)) \<and>
     (\<forall>x\<in>set (settlements s). stl_reservation_id x \<in> rsv_id ` set (reservations s))"

lemma keys_ok_empty [simp]: "keys_ok empty_db" "refs_ok empty_db"
  by (simp_all add: keys_ok_def refs_ok_def empty_db_def)

lemma insert_keys_ok:
  "insert_asset E a s = Inr s' \<Longrightarrow> keys_ok s \<Longrightarrow> keys_ok s'"
  "insert_offer E f s = Inr s' \<Longrightarrow> keys_ok s \<Longrightarrow> keys_ok s'"
  "insert_reservation E r s = Inr s' \<Longrightarrow> keys_ok s \<Longrightarrow> keys_ok s'"
  "insert_dispatch E d s = Inr s' \<Longrightarrow> keys_ok s \<Longrightarrow> keys_ok s'"
  "insert_reading E g s = Inr s' \<Longrightarrow> keys_ok s \<Longrightarrow> keys_ok s'"
  "insert_settlement E t s = Inr s' \<Longrightarrow> keys_ok s \<Longrightarrow> keys_ok s'"
  "insert_event E e s = Inr s' \<Longrightarrow> keys_ok s \<Longrightarrow> keys_ok s'"
  "insert_idem E i s = Inr s' \<Longrightarrow> keys_ok s \<Longrightarrow> keys_ok s'"
  "insert_message E m s = Inr s' \<Longrightarrow> keys_ok s \<Longrightarrow> keys_ok s'"
  by (simp_all add: insert_defs store_defs constrained_ok keys_ok_def image_iff)

lemma insert_refs_ok:
  "insert_asset E a s = Inr s' \<Longrightarrow> refs_ok s \<Longrightarrow> refs_ok s'"
  "insert_offer E f s = Inr s' \<Longrightarrow> refs_ok s \<Longrightarrow> refs_ok s'"
  "insert_reservation E r s = Inr s' \<Longrightarrow> refs_ok s \<Longrightarrow> refs_ok s'"
  "insert_dispatch E d s = Inr s' \<Longrightarrow> refs_ok s \<Longrightarrow> refs_ok s'"
  "insert_reading E g s = Inr s' \<Longrightarrow> refs_ok s \<Longrightarrow> refs_ok s'"
  "insert_settlement E t s = Inr s' \<Longrightarrow> refs_ok s \<Longrightarrow> refs_ok s'"
  "insert_event E e s = Inr s' \<Longrightarrow> refs_ok s \<Longrightarrow> refs_ok s'"
  "insert_idem E i s = Inr s' \<Longrightarrow> refs_ok s \<Longrightarrow> refs_ok s'"
  "insert_message E m s = Inr s' \<Longrightarrow> refs_ok s \<Longrightarrow> refs_ok s'"
  by (auto simp: insert_defs store_defs constrained_ok refs_ok_def)

end
