(* ===== verification/AuditChain.thy ===== *)
theory AuditChain
  imports Models
begin

text \<open>
  \<open>audit.py\<close>: the hash of an event, appending an event behind the latest one that the
  transaction sees, and the verification of the whole chain.  The locale \<open>hash_chain\<close> states what a chain of linked hashes
  promises whatever its events are: the head hash and the length of a valid chain determine
  every event of it, unless two different contents with the same hash are at hand.
\<close>

section \<open>Linked hashes\<close>

primrec chained :: "('e \<Rightarrow> 'h) \<Rightarrow> ('e \<Rightarrow> 'h) \<Rightarrow> ('e \<Rightarrow> 'h) \<Rightarrow> 'h \<Rightarrow> 'e list \<Rightarrow> bool" where
  "chained prev own calc g [] = True"
| "chained prev own calc g (e # es) =
     (prev e = g \<and> calc e = own e \<and> chained prev own calc (own e) es)"

definition chain_head :: "('e \<Rightarrow> 'h) \<Rightarrow> 'h \<Rightarrow> 'e list \<Rightarrow> 'h" where
  "chain_head own g es = (if es = [] then g else own (last es))"

lemma chain_head_simps [simp]:
  "chain_head own g [] = g" "chain_head own g (es @ [e]) = own e"
  "chain_head own g (e # es) = chain_head own (own e) es"
  by (simp_all add: chain_head_def)

lemma chained_append [simp]:
  "chained prev own calc g (es @ fs) \<longleftrightarrow>
     chained prev own calc g es \<and> chained prev own calc (chain_head own g es) fs"
  by (induction es arbitrary: g) auto

locale hash_chain =
  fixes prev :: "'e \<Rightarrow> 'h" and own :: "'e \<Rightarrow> 'h" and calc :: "'e \<Rightarrow> 'h"
    and content :: "'e \<Rightarrow> 'c" and hash :: "'c \<Rightarrow> 'h"
  assumes calc: "calc e = hash (content e)"
    and content_prev: "content e = content f \<Longrightarrow> prev e = prev f"
begin

lemma head_binds:
  assumes "chained prev own calc g es" "chained prev own calc g fs"
    and "length es = length fs" "chain_head own g es = chain_head own g fs"
    and "\<And>e f. e \<in> set es \<Longrightarrow> f \<in> set fs \<Longrightarrow> hash (content e) = hash (content f) \<Longrightarrow> content e = content f"
  shows "map content es = map content fs \<and> map own es = map own fs"
  using assms
proof (induction es arbitrary: fs rule: rev_induct)
  case Nil
  then show ?case by simp
next
  case (snoc e es)
  from snoc.prems(3) obtain f fs' where fs: "fs = fs' @ [f]" by (cases fs rule: rev_cases) auto
  have "hash (content e) = hash (content f)"
    using snoc.prems(1,2,4) fs by (simp add: calc)
  with snoc.prems(5) [of e f] fs have c: "content e = content f" by simp
  then have "chain_head own g es = chain_head own g fs'"
    using content_prev [OF c] snoc.prems(1,2) fs by simp
  with snoc fs have "map content es = map content fs' \<and> map own es = map own fs'" by simp
  with c fs snoc.prems(4) show ?case by simp
qed

lemma content_fixes_own:
  "chained prev own calc g es \<Longrightarrow> e \<in> set es \<Longrightarrow> own e = hash (content e)"
  by (induction es arbitrary: g) (auto simp: calc)

lemma stale_predecessor:
  "chained prev own calc g (es @ [e, f]) \<Longrightarrow> prev f = prev e \<Longrightarrow> own e = chain_head own g es"
  by auto

end

section \<open>Hashing\<close>

definition GENESIS_HASH :: string where
  "GENESIS_HASH = replicate 64 (CHR ''0'')"

definition sha256_json :: "env \<Rightarrow> pyval \<Rightarrow> string" where
  "sha256_json E v = sha256 E (canonical_json v)"

definition audit_hash_material :: "audit_event \<Rightarrow> pyval" where
  "audit_hash_material e = PDict
     [(''event_id'', PStr (evt_id e)),
      (''aggregate_type'', PStr (evt_aggregate_type e)),
      (''aggregate_id'', PStr (evt_aggregate_id e)),
      (''event_type'', PStr (evt_type e)),
      (''actor_id'', PStr (evt_actor_id e)),
      (''correlation_id'', PStr (evt_correlation_id e)),
      (''payload'', py_of_json (evt_payload e)),
      (''occurred_at'', PStr (isoformat (as_utc (evt_occurred_at e)))),
      (''previous_hash'', PStr (evt_previous_hash e))]"

definition calculate_event_hash :: "env \<Rightarrow> audit_event \<Rightarrow> string" where
  "calculate_event_hash E e = sha256_json E (audit_hash_material e)"

section \<open>Appending\<close>

text \<open>
  \<open>select(AuditEvent).order_by(sequence.desc()).limit(1).with_for_update()\<close>.  The lock is on the row
  that is found: it does not keep another transaction from inserting a later one, so unless appends
  are serialised the statement may miss the newest events.
\<close>

definition latest_event :: "db \<Rightarrow> audit_event option" where
  "latest_event s = (case rev (sort_key evt_sequence (events s)) of [] \<Rightarrow> None | e # _ \<Rightarrow> Some e)"

definition seen_events :: "env \<Rightarrow> draws \<Rightarrow> db \<Rightarrow> db" where
  "seen_events E d s =
     (if serial_appends E then s
      else s\<lparr>events := take (length (events s) - unseen d) (events s)\<rparr>)"

text \<open>
  The autoincremented key: above every stored one, plus a gap left by rolled-back inserts.  Keys are
  drawn in the order of the commits.
\<close>

definition next_sequence :: "db \<Rightarrow> nat \<Rightarrow> nat" where
  "next_sequence s gap = foldr max (map evt_sequence (events s)) 0 + 1 + gap"

text \<open>
  \<open>append_event\<close> once the latest event has been read; \<open>to_json\<close> is
  \<open>json.loads(canonical_json(payload))\<close>.
\<close>

definition append_after ::
  "env \<Rightarrow> draws \<Rightarrow> nat \<Rightarrow> audit_event option \<Rightarrow> string \<Rightarrow> string \<Rightarrow> string \<Rightarrow> string \<Rightarrow> string \<Rightarrow> pyval \<Rightarrow>
    db \<Rightarrow> (audit_event \<times> db) result" where
  "append_after E d i latest aggregate_type aggregate_id event_type actor correlation payload s =
     (let e = \<lparr>evt_sequence = next_sequence s (seq_gap d),
               evt_id = uuid d i,
               evt_aggregate_type = aggregate_type,
               evt_aggregate_id = aggregate_id,
               evt_type = event_type,
               evt_actor_id = actor,
               evt_correlation_id = correlation,
               evt_payload = to_json payload,
               evt_previous_hash = (case latest of Some l \<Rightarrow> evt_hash l | None \<Rightarrow> GENESIS_HASH),
               evt_hash = '''',
               evt_occurred_at = now d i\<rparr>;
          event = e\<lparr>evt_hash := calculate_event_hash E e\<rparr> in
      case insert_event E event s of Inl x \<Rightarrow> Inl x | Inr s' \<Rightarrow> Inr (event, s'))"

definition append_event ::
  "env \<Rightarrow> draws \<Rightarrow> nat \<Rightarrow> string \<Rightarrow> string \<Rightarrow> string \<Rightarrow> string \<Rightarrow> string \<Rightarrow> pyval \<Rightarrow>
    db \<Rightarrow> (audit_event \<times> db) result" where
  "append_event E d i aggregate_type aggregate_id event_type actor correlation payload s =
     append_after E d i (latest_event (seen_events E d s)) aggregate_type aggregate_id event_type actor correlation
       payload s"

section \<open>Verification\<close>

record audit_verification =
  av_valid :: bool
  av_event_count :: nat
  av_head_hash :: string
  av_broken_sequence :: "nat option"

text \<open>The loop: the sequence of the first broken event, or the last hash.\<close>

fun check_events :: "env \<Rightarrow> string \<Rightarrow> audit_event list \<Rightarrow> nat + string" where
  "check_events E expected [] = Inr expected"
| "check_events E expected (e # es) =
     (if evt_previous_hash e \<noteq> expected \<or> calculate_event_hash E e \<noteq> evt_hash e
      then Inl (evt_sequence e)
      else check_events E (evt_hash e) es)"

definition verify_chain :: "env \<Rightarrow> db \<Rightarrow> audit_verification" where
  "verify_chain E s =
     (let es = sort_key evt_sequence (events s) in
      case check_events E GENESIS_HASH es of
        Inl q \<Rightarrow> \<lparr>av_valid = False, av_event_count = length es,
                  av_head_hash = (if es = [] then GENESIS_HASH else evt_hash (last es)),
                  av_broken_sequence = Some q\<rparr>
      | Inr h \<Rightarrow> \<lparr>av_valid = True, av_event_count = length es, av_head_hash = h,
                  av_broken_sequence = None\<rparr>)"

section \<open>What the hash covers\<close>

lemma audit_hash_material_cong [simp]:
  "audit_hash_material (e\<lparr>evt_hash := h\<rparr>) = audit_hash_material e"
  "audit_hash_material (e\<lparr>evt_sequence := q\<rparr>) = audit_hash_material e"
  by (simp_all add: audit_hash_material_def)

lemma calculate_event_hash_upd [simp]:
  "calculate_event_hash E (e\<lparr>evt_hash := h\<rparr>) = calculate_event_hash E e"
  by (simp add: calculate_event_hash_def)

text \<open>The stored fields two events share when their hash inputs coincide.\<close>

definition same_content :: "audit_event \<Rightarrow> audit_event \<Rightarrow> bool" where
  "same_content e f \<longleftrightarrow>
     evt_id e = evt_id f \<and> evt_aggregate_type e = evt_aggregate_type f \<and>
     evt_aggregate_id e = evt_aggregate_id f \<and> evt_type e = evt_type f \<and>
     evt_actor_id e = evt_actor_id f \<and> evt_correlation_id e = evt_correlation_id f \<and>
     to_json (py_of_json (evt_payload e)) = to_json (py_of_json (evt_payload f)) \<and>
     isoformat (as_utc (evt_occurred_at e)) = isoformat (as_utc (evt_occurred_at f)) \<and>
     evt_previous_hash e = evt_previous_hash f"

abbreviation event_text :: "audit_event \<Rightarrow> string" where
  "event_text e \<equiv> canonical_json (audit_hash_material e)"

lemma event_text_binds:
  assumes "event_text e = event_text f"
  shows "same_content e f"
proof -
  have k: "distinct (map fst kvs)" if "audit_hash_material x = PDict kvs" for kvs x
    using that by (auto simp: audit_hash_material_def)
  obtain a b where ab: "audit_hash_material e = PDict a" "audit_hash_material f = PDict b"
    by (simp add: audit_hash_material_def)
  have eq: "map_option to_json (map_of a x) = map_option to_json (map_of b x)" for x
    using assms ab k [OF ab(1)] k [OF ab(2)]
    by (intro to_json_dict_lookup) (simp_all add: canonical_json_inject)
  have a: "a = (case audit_hash_material e of PDict kvs \<Rightarrow> kvs)"
    and b: "b = (case audit_hash_material f of PDict kvs \<Rightarrow> kvs)"
    by (simp_all add: ab)
  have "evt_id e = evt_id f"
    using eq [of "''event_id''"] unfolding a b by (simp add: audit_hash_material_def)
  moreover have "evt_aggregate_type e = evt_aggregate_type f"
    using eq [of "''aggregate_type''"] unfolding a b by (simp add: audit_hash_material_def)
  moreover have "evt_aggregate_id e = evt_aggregate_id f"
    using eq [of "''aggregate_id''"] unfolding a b by (simp add: audit_hash_material_def)
  moreover have "evt_type e = evt_type f"
    using eq [of "''event_type''"] unfolding a b by (simp add: audit_hash_material_def)
  moreover have "evt_actor_id e = evt_actor_id f"
    using eq [of "''actor_id''"] unfolding a b by (simp add: audit_hash_material_def)
  moreover have "evt_correlation_id e = evt_correlation_id f"
    using eq [of "''correlation_id''"] unfolding a b by (simp add: audit_hash_material_def)
  moreover have "evt_previous_hash e = evt_previous_hash f"
    using eq [of "''previous_hash''"] unfolding a b by (simp add: audit_hash_material_def)
  moreover have "to_json (py_of_json (evt_payload e)) = to_json (py_of_json (evt_payload f))"
    using eq [of "''payload''"] unfolding a b by (simp add: audit_hash_material_def)
  moreover have "isoformat (as_utc (evt_occurred_at e)) = isoformat (as_utc (evt_occurred_at f))"
    using eq [of "''occurred_at''"] unfolding a b by (simp add: audit_hash_material_def)
  ultimately show ?thesis by (simp add: same_content_def)
qed

interpretation audit: hash_chain evt_previous_hash evt_hash "calculate_event_hash E" event_text
    "sha256 E" for E
proof unfold_locales
  show "calculate_event_hash E e = sha256 E (event_text e)" for e
    by (simp add: calculate_event_hash_def sha256_json_def)
  show "evt_previous_hash e = evt_previous_hash f" if "event_text e = event_text f" for e f
    using event_text_binds [OF that] by (simp add: same_content_def)
qed

section \<open>The loop decides the chain\<close>

abbreviation event_chain :: "env \<Rightarrow> string \<Rightarrow> audit_event list \<Rightarrow> bool" where
  "event_chain E \<equiv> chained evt_previous_hash evt_hash (calculate_event_hash E)"

lemma check_events_chain:
  "check_events E g es = Inr h \<longleftrightarrow> event_chain E g es \<and> h = chain_head evt_hash g es"
  by (induction es arbitrary: g) auto

lemma check_events_broken:
  "check_events E g es = Inl q \<Longrightarrow>
     \<exists>as e bs. es = as @ e # bs \<and> evt_sequence e = q \<and> event_chain E g as \<and>
       (evt_previous_hash e \<noteq> chain_head evt_hash g as \<or> calculate_event_hash E e \<noteq> evt_hash e)"
proof (induction es arbitrary: g)
  case (Cons e es)
  show ?case
  proof (cases "evt_previous_hash e \<noteq> g \<or> calculate_event_hash E e \<noteq> evt_hash e")
    case True
    with Cons.prems show ?thesis by (intro exI [of _ "[]"] exI [of _ e] exI [of _ es]) auto
  next
    case False
    with Cons obtain as e' bs where "es = as @ e' # bs" "evt_sequence e' = q"
      "event_chain E (evt_hash e) as"
      "evt_previous_hash e' \<noteq> chain_head evt_hash (evt_hash e) as \<or> calculate_event_hash E e' \<noteq> evt_hash e'"
      by fastforce
    with False show ?thesis by (intro exI [of _ "e # as"] exI [of _ e'] exI [of _ bs]) auto
  qed
qed simp

lemma verify_chain_valid:
  "av_valid (verify_chain E s) \<longleftrightarrow> event_chain E GENESIS_HASH (sort_key evt_sequence (events s))"
proof -
  let ?c = "check_events E GENESIS_HASH (sort_key evt_sequence (events s))"
  have "event_chain E GENESIS_HASH (sort_key evt_sequence (events s)) \<longleftrightarrow> (\<exists>h. ?c = Inr h)"
    by (simp add: check_events_chain)
  then show ?thesis by (cases ?c) (simp_all add: verify_chain_def Let_def)
qed

text \<open>The events an auditor reads, in order; a verified head and count determine them.\<close>

abbreviation history :: "db \<Rightarrow> audit_event list" where
  "history s \<equiv> sort_key evt_sequence (events s)"

lemma verify_valid_head:
  "av_valid (verify_chain E s) \<Longrightarrow> event_chain E GENESIS_HASH (history s) \<and>
     av_head_hash (verify_chain E s) = chain_head evt_hash GENESIS_HASH (history s)"
  by (cases "check_events E GENESIS_HASH (history s)")
    (simp_all add: verify_chain_def Let_def, simp add: check_events_chain)

lemma verify_chain_count [simp]: "av_event_count (verify_chain E s) = length (events s)"
  by (cases "check_events E GENESIS_HASH (history s)")
    (simp_all add: verify_chain_def Let_def)

lemma verify_chain_binds:
  assumes "av_valid (verify_chain E s)" "av_valid (verify_chain E t)"
    and "length (events s) = length (events t)"
    and "av_head_hash (verify_chain E s) = av_head_hash (verify_chain E t)"
    and "\<And>e f. e \<in> set (events s) \<Longrightarrow> f \<in> set (events t) \<Longrightarrow>
      sha256 E (event_text e) = sha256 E (event_text f) \<Longrightarrow> event_text e = event_text f"
  shows "list_all2 same_content (history s) (history t)"
proof -
  have "map event_text (history s) = map event_text (history t)"
    using audit.head_binds [of E GENESIS_HASH "history s" "history t"] verify_valid_head [OF assms(1)]
      verify_valid_head [OF assms(2)] assms(3-5) by (simp add: length_sort)
  then have "list_all2 (\<lambda>e f. event_text e = event_text f) (history s) (history t)"
    by (simp add: list.rel_map list_all2_map1 list_all2_map2 list.rel_eq [symmetric])
  then show ?thesis by (rule list_all2_mono) (rule event_text_binds)
qed

section \<open>The invariant of the audit table\<close>

text \<open>The rows stand in the order of their sequence; they are linked when appends are serialised.\<close>

definition audit_ok :: "env \<Rightarrow> db \<Rightarrow> bool" where
  "audit_ok E s \<longleftrightarrow> sorted_wrt (<) (map evt_sequence (events s)) \<and>
     (serial_appends E \<longrightarrow> event_chain E GENESIS_HASH (events s))"

lemma sort_key_sorted:
  "sorted_wrt (<) (map f xs) \<Longrightarrow> sort_key f xs = xs" for f :: "'a \<Rightarrow> nat"
  by (metis sort_key_id_if_sorted strict_sorted_iff)

lemma audit_ok_sorted: "audit_ok E s \<Longrightarrow> sort_key evt_sequence (events s) = events s"
  by (simp add: audit_ok_def sort_key_sorted)

lemma latest_event_sorted:
  "sorted_wrt (<) (map evt_sequence (events s)) \<Longrightarrow>
     latest_event s = (if events s = [] then None else Some (last (events s)))"
  by (cases "events s" rule: rev_cases) (simp_all add: latest_event_def sort_key_sorted)

lemma verify_chain_audit_ok:
  "audit_ok E s \<Longrightarrow> serial_appends E \<Longrightarrow> verify_chain E s =
     \<lparr>av_valid = True, av_event_count = length (events s),
      av_head_hash = chain_head evt_hash GENESIS_HASH (events s), av_broken_sequence = None\<rparr>"
proof -
  assume a: "audit_ok E s" "serial_appends E"
  then have "check_events E GENESIS_HASH (events s) = Inr (chain_head evt_hash GENESIS_HASH (events s))"
    by (simp add: check_events_chain audit_ok_def)
  with audit_ok_sorted [OF a(1)] show ?thesis by (simp add: verify_chain_def Let_def)
qed

lemma audit_ok_empty [simp]: "audit_ok E empty_db"
  by (simp add: audit_ok_def empty_db_def)

lemma audit_ok_events: "events s' = events s \<Longrightarrow> audit_ok E s' = audit_ok E s"
  by (simp add: audit_ok_def)

lemma foldr_max_ge: "x \<in> set xs \<Longrightarrow> x \<le> foldr max xs (0::nat)"
  by (induction xs) (auto simp: max_def intro: le_trans)

lemma next_sequence_greater: "e \<in> set (events s) \<Longrightarrow> evt_sequence e < next_sequence s gap"
  using foldr_max_ge [of "evt_sequence e" "map evt_sequence (events s)"]
  by (simp add: next_sequence_def)

text \<open>The appended event, and the frame of the operation.\<close>

lemma append_event_elim:
  assumes "append_event E d i ty aid et actor corr payload s = Inr (e, s')"
  obtains "s' = s\<lparr>events := events s @ [e]\<rparr>" "insert_event E e s = Inr s'"
    "evt_id e = uuid d i" "evt_aggregate_type e = ty" "evt_aggregate_id e = aid"
    "evt_type e = et" "evt_actor_id e = actor" "evt_correlation_id e = corr"
    "evt_payload e = to_json payload" "evt_occurred_at e = now d i"
    "evt_previous_hash e =
       (case latest_event (seen_events E d s) of Some l \<Rightarrow> evt_hash l | None \<Rightarrow> GENESIS_HASH)"
    "evt_hash e = calculate_event_hash E e" "evt_sequence e = next_sequence s (seq_gap d)"
proof -
  define e0 where "e0 = \<lparr>evt_sequence = next_sequence s (seq_gap d), evt_id = uuid d i,
      evt_aggregate_type = ty, evt_aggregate_id = aid, evt_type = et, evt_actor_id = actor,
      evt_correlation_id = corr, evt_payload = to_json payload,
      evt_previous_hash =
        (case latest_event (seen_events E d s) of Some l \<Rightarrow> evt_hash l | None \<Rightarrow> GENESIS_HASH),
      evt_hash = '''', evt_occurred_at = now d i\<rparr>"
  have e: "e = e0\<lparr>evt_hash := calculate_event_hash E e0\<rparr>" and i: "insert_event E e s = Inr s'"
    using assms unfolding append_event_def append_after_def e0_def [symmetric] Let_def
    by (auto split: sum.splits)
  have "s' = s\<lparr>events := events s @ [e]\<rparr>"
    using i by (simp add: insert_event_def constrained_ok)
  from this i show thesis by (rule that) (simp_all add: e, simp_all add: e0_def)
qed

lemma append_event_audit_ok:
  assumes "append_event E d i ty aid et actor corr payload s = Inr (e, s')" "audit_ok E s"
  shows "audit_ok E s'"
proof -
  from assms(1) have s': "events s' = events s @ [e]"
    and p: "evt_previous_hash e =
      (case latest_event (seen_events E d s) of Some l \<Rightarrow> evt_hash l | None \<Rightarrow> GENESIS_HASH)"
    and h: "evt_hash e = calculate_event_hash E e" and q: "evt_sequence e = next_sequence s (seq_gap d)"
    by (auto elim: append_event_elim)
  from assms(2) have srt: "sorted_wrt (<) (map evt_sequence (events s))" by (simp add: audit_ok_def)
  have "evt_previous_hash e = chain_head evt_hash GENESIS_HASH (events s)" if "serial_appends E"
    using p latest_event_sorted [OF srt] that by (simp add: chain_head_def seen_events_def)
  with assms(2) s' h q show ?thesis
    by (auto simp: audit_ok_def sorted_wrt_append intro: next_sequence_greater)
qed

lemma append_event_frame:
  assumes "append_event E d i ty aid et actor corr payload s = Inr (e, s')"
  shows "assets s' = assets s" "offers s' = offers s" "reservations s' = reservations s"
    "dispatches s' = dispatches s" "readings s' = readings s" "settlements s' = settlements s"
    "idem s' = idem s" "messages s' = messages s" "events s' = events s @ [e]"
  using assms by (auto elim: append_event_elim)

lemma append_event_keys_ok:
  "append_event E d i ty aid et actor corr payload s = Inr (e, s') \<Longrightarrow> keys_ok s \<Longrightarrow> keys_ok s'"
  by (elim append_event_elim) (rule insert_keys_ok)

lemma append_event_refs_ok:
  "append_event E d i ty aid et actor corr payload s = Inr (e, s') \<Longrightarrow> refs_ok s \<Longrightarrow> refs_ok s'"
  by (elim append_event_elim) (rule insert_refs_ok)

end
