(* ===== verification/Store.thy ===== *)
theory Store
  imports AuditChain
begin

text \<open>
  The writes every transaction of the program is made of: the inserts of \<open>Models\<close>, an audit
  append, and the assignment of attributes of loaded rows.  The locale \<open>store_invariant\<close> names
  what a property of the database must keep under them; each transaction keeps such a property,
  proved once per transaction in the theory that models it.
\<close>

section \<open>Attribute assignment\<close>

text \<open>An update of one message, flushed under the width constraints.\<close>

definition update_message ::
  "env \<Rightarrow> string \<Rightarrow> (outbox_message \<Rightarrow> outbox_message) \<Rightarrow> db \<Rightarrow> db result" where
  "update_message E i f s =
     (let ms = modify msg_id i f (messages s) in
      if strict_widths E \<and> \<not> list_all (\<lambda>m. msg_id m = i \<longrightarrow> message_fits m) ms
      then Inl (DataError ''outbox_messages'')
      else Inr (s\<lparr>messages := ms\<rparr>))"

definition set_dispatch :: "string \<Rightarrow> (dispatch \<Rightarrow> dispatch) \<Rightarrow> db \<Rightarrow> db" where
  "set_dispatch i f s = s\<lparr>dispatches := modify dsp_id i f (dispatches s)\<rparr>"

definition set_reservation :: "string \<Rightarrow> (reservation \<Rightarrow> reservation) \<Rightarrow> db \<Rightarrow> db" where
  "set_reservation i f s = s\<lparr>reservations := modify rsv_id i f (reservations s)\<rparr>"

definition set_offer :: "string \<Rightarrow> (flex_offer \<Rightarrow> flex_offer) \<Rightarrow> db \<Rightarrow> db" where
  "set_offer i f s = s\<lparr>offers := modify ofr_id i f (offers s)\<rparr>"

definition set_settlement :: "string \<Rightarrow> (settlement \<Rightarrow> settlement) \<Rightarrow> db \<Rightarrow> db" where
  "set_settlement i f s = s\<lparr>settlements := modify stl_id i f (settlements s)\<rparr>"

section \<open>Effect on the tables\<close>

lemma update_message_Inr:
  "update_message E i f s = Inr s' \<Longrightarrow> s' = s\<lparr>messages := modify msg_id i f (messages s)\<rparr>"
  by (auto simp: update_message_def Let_def split: if_splits)

text \<open>An update never changes what identifies a row or what it refers to.\<close>

definition keeps_message :: "(outbox_message \<Rightarrow> outbox_message) \<Rightarrow> bool" where
  "keeps_message f \<longleftrightarrow> (\<forall>m. msg_id (f m) = msg_id m \<and> msg_topic (f m) = msg_topic m \<and>
     msg_aggregate_id (f m) = msg_aggregate_id m \<and>
     msg_idempotency_key (f m) = msg_idempotency_key m \<and> msg_payload (f m) = msg_payload m)"

definition keeps_dispatch :: "(dispatch \<Rightarrow> dispatch) \<Rightarrow> bool" where
  "keeps_dispatch f \<longleftrightarrow> (\<forall>d. dsp_id (f d) = dsp_id d \<and> dsp_reservation_id (f d) = dsp_reservation_id d \<and>
     dsp_target_kw (f d) = dsp_target_kw d \<and> dsp_starts_at (f d) = dsp_starts_at d \<and>
     dsp_ends_at (f d) = dsp_ends_at d \<and> dsp_issued_by (f d) = dsp_issued_by d)"

definition keeps_reservation :: "(reservation \<Rightarrow> reservation) \<Rightarrow> bool" where
  "keeps_reservation f \<longleftrightarrow> (\<forall>r. rsv_id (f r) = rsv_id r \<and> rsv_offer_id (f r) = rsv_offer_id r \<and>
     rsv_quantity_kw (f r) = rsv_quantity_kw r \<and> rsv_requested_by (f r) = rsv_requested_by r)"

definition keeps_offer :: "(flex_offer \<Rightarrow> flex_offer) \<Rightarrow> bool" where
  "keeps_offer f \<longleftrightarrow> (\<forall>x. ofr_id (f x) = ofr_id x \<and> ofr_asset_id (f x) = ofr_asset_id x \<and>
     ofr_quantity_kw (f x) = ofr_quantity_kw x \<and> ofr_price_per_kwh (f x) = ofr_price_per_kwh x \<and>
     ofr_window_start (f x) = ofr_window_start x \<and> ofr_window_end (f x) = ofr_window_end x \<and>
     ofr_created_by (f x) = ofr_created_by x)"

definition keeps_settlement :: "(settlement \<Rightarrow> settlement) \<Rightarrow> bool" where
  "keeps_settlement f \<longleftrightarrow> (\<forall>x. stl_id (f x) = stl_id x \<and>
     stl_reservation_id (f x) = stl_reservation_id x \<and> stl_settled_by (f x) = stl_settled_by x \<and>
     stl_delivered_kwh (f x) = stl_delivered_kwh x \<and> stl_price_per_kwh (f x) = stl_price_per_kwh x \<and>
     stl_amount (f x) = stl_amount x)"

lemmas keeps_defs = keeps_message_def keeps_dispatch_def keeps_reservation_def keeps_offer_def
  keeps_settlement_def

section \<open>Properties of the database kept by every write\<close>

locale store_invariant =
  fixes E :: env and I :: "db \<Rightarrow> bool"
  assumes asset: "insert_asset E a s = Inr s' \<Longrightarrow> I s \<Longrightarrow> I s'"
    and offer: "insert_offer E f s = Inr s' \<Longrightarrow> I s \<Longrightarrow> I s'"
    and reservation: "insert_reservation E r s = Inr s' \<Longrightarrow> I s \<Longrightarrow> I s'"
    and dispatch: "insert_dispatch E x s = Inr s' \<Longrightarrow> I s \<Longrightarrow> I s'"
    and reading: "insert_reading E g s = Inr s' \<Longrightarrow> I s \<Longrightarrow> I s'"
    and settlement: "insert_settlement E t s = Inr s' \<Longrightarrow> I s \<Longrightarrow> I s'"
    and idem: "insert_idem E i s = Inr s' \<Longrightarrow> I s \<Longrightarrow> I s'"
    and message: "insert_message E m s = Inr s' \<Longrightarrow> I s \<Longrightarrow> I s'"
    and append: "append_event E d n ty aid et actor corr payload s = Inr (e, s') \<Longrightarrow> I s \<Longrightarrow> I s'"
    and update: "update_message E k fm s = Inr s' \<Longrightarrow> keeps_message fm \<Longrightarrow> I s \<Longrightarrow> I s'"
    and dispatches: "keeps_dispatch fd \<Longrightarrow> I s \<Longrightarrow> I (set_dispatch k fd s)"
    and reservations: "keeps_reservation fr \<Longrightarrow> I s \<Longrightarrow> I (set_reservation k fr s)"
    and offers: "keeps_offer fo \<Longrightarrow> I s \<Longrightarrow> I (set_offer k fo s)"
    and settlements: "keeps_settlement fs \<Longrightarrow> I s \<Longrightarrow> I (set_settlement k fs s)"
begin

lemma atomic: "transaction body s = (r, s') \<Longrightarrow> (\<And>a t. body s = Inr (a, t) \<Longrightarrow> I t) \<Longrightarrow> I s \<Longrightarrow> I s'"
  by (auto simp: transaction_def split: sum.splits)

lemmas writes = asset offer reservation dispatch reading settlement idem message append update
lemmas assigns = dispatches reservations offers settlements

end

lemmas set_defs = set_dispatch_def set_reservation_def set_offer_def set_settlement_def

lemma update_keys_ok:
  "update_message E k fm s = Inr s' \<Longrightarrow> keeps_message fm \<Longrightarrow> keys_ok s \<Longrightarrow> keys_ok s'"
  "keeps_dispatch fd \<Longrightarrow> keys_ok s \<Longrightarrow> keys_ok (set_dispatch k fd s)"
  "keeps_reservation fr \<Longrightarrow> keys_ok s \<Longrightarrow> keys_ok (set_reservation k fr s)"
  "keeps_offer fo \<Longrightarrow> keys_ok s \<Longrightarrow> keys_ok (set_offer k fo s)"
  "keeps_settlement fs \<Longrightarrow> keys_ok s \<Longrightarrow> keys_ok (set_settlement k fs s)"
  by (auto simp: set_defs keys_ok_def keeps_defs map_modify dest!: update_message_Inr)

lemma update_refs_ok:
  "update_message E k fm s = Inr s' \<Longrightarrow> keeps_message fm \<Longrightarrow> refs_ok s \<Longrightarrow> refs_ok s'"
  "keeps_dispatch fd \<Longrightarrow> refs_ok s \<Longrightarrow> refs_ok (set_dispatch k fd s)"
  "keeps_reservation fr \<Longrightarrow> refs_ok s \<Longrightarrow> refs_ok (set_reservation k fr s)"
  "keeps_offer fo \<Longrightarrow> refs_ok s \<Longrightarrow> refs_ok (set_offer k fo s)"
  "keeps_settlement fs \<Longrightarrow> refs_ok s \<Longrightarrow> refs_ok (set_settlement k fs s)"
  by (auto simp: set_defs refs_ok_def keeps_defs image_modify in_modify dest!: update_message_Inr)

lemma insert_events:
  "insert_asset E a s = Inr s' \<Longrightarrow> events s' = events s"
  "insert_offer E f s = Inr s' \<Longrightarrow> events s' = events s"
  "insert_reservation E r s = Inr s' \<Longrightarrow> events s' = events s"
  "insert_dispatch E d s = Inr s' \<Longrightarrow> events s' = events s"
  "insert_reading E g s = Inr s' \<Longrightarrow> events s' = events s"
  "insert_settlement E t s = Inr s' \<Longrightarrow> events s' = events s"
  "insert_idem E i s = Inr s' \<Longrightarrow> events s' = events s"
  "insert_message E m s = Inr s' \<Longrightarrow> events s' = events s"
  by (simp_all add: insert_defs constrained_ok)

text \<open>
  What is recorded stays recorded: \<open>old\<close> is what the tables held before.  Assets, readings,
  audit events and idempotency records are never changed; the rows of the other tables keep their
  position, identity and agreed terms.
\<close>

definition offer_terms where
  "offer_terms x = (ofr_id x, ofr_asset_id x, ofr_quantity_kw x, ofr_price_per_kwh x,
     ofr_window_start x, ofr_window_end x, ofr_created_by x)"

definition reservation_terms where
  "reservation_terms r = (rsv_id r, rsv_offer_id r, rsv_quantity_kw r, rsv_requested_by r)"

definition dispatch_terms where
  "dispatch_terms d = (dsp_id d, dsp_reservation_id d, dsp_target_kw d, dsp_starts_at d,
     dsp_ends_at d, dsp_issued_by d)"

definition settlement_terms where
  "settlement_terms x = (stl_id x, stl_reservation_id x, stl_settled_by x, stl_delivered_kwh x,
     stl_price_per_kwh x, stl_amount x)"

definition message_terms where
  "message_terms m = (msg_id m, msg_topic m, msg_aggregate_id m, msg_idempotency_key m, msg_payload m)"

lemmas terms_defs = offer_terms_def reservation_terms_def dispatch_terms_def settlement_terms_def
  message_terms_def

definition retains :: "db \<Rightarrow> db \<Rightarrow> bool" where
  "retains old s \<longleftrightarrow>
     prefix (assets old) (assets s) \<and> prefix (readings old) (readings s) \<and>
     prefix (events old) (events s) \<and> prefix (idem old) (idem s) \<and>
     prefix (map offer_terms (offers old)) (map offer_terms (offers s)) \<and>
     prefix (map reservation_terms (reservations old)) (map reservation_terms (reservations s)) \<and>
     prefix (map dispatch_terms (dispatches old)) (map dispatch_terms (dispatches s)) \<and>
     prefix (map settlement_terms (settlements old)) (map settlement_terms (settlements s)) \<and>
     prefix (map message_terms (messages old)) (map message_terms (messages s))"

lemma retains_refl [simp]: "retains s s"
  by (simp add: retains_def)

lemma retains_trans: "retains a b \<Longrightarrow> retains b c \<Longrightarrow> retains a c"
  unfolding retains_def by (meson prefix_order.trans)

lemma insert_retains:
  "insert_asset E a s = Inr s' \<Longrightarrow> retains s s'"
  "insert_offer E f s = Inr s' \<Longrightarrow> retains s s'"
  "insert_reservation E r s = Inr s' \<Longrightarrow> retains s s'"
  "insert_dispatch E d s = Inr s' \<Longrightarrow> retains s s'"
  "insert_reading E g s = Inr s' \<Longrightarrow> retains s s'"
  "insert_settlement E t s = Inr s' \<Longrightarrow> retains s s'"
  "insert_event E e s = Inr s' \<Longrightarrow> retains s s'"
  "insert_idem E i s = Inr s' \<Longrightarrow> retains s s'"
  "insert_message E m s = Inr s' \<Longrightarrow> retains s s'"
  by (simp_all add: insert_defs constrained_ok retains_def)

lemma update_retains:
  "update_message E k fm s = Inr s' \<Longrightarrow> keeps_message fm \<Longrightarrow> retains s s'"
  "keeps_dispatch fd \<Longrightarrow> retains s (set_dispatch k fd s)"
  "keeps_reservation fr \<Longrightarrow> retains s (set_reservation k fr s)"
  "keeps_offer fo \<Longrightarrow> retains s (set_offer k fo s)"
  "keeps_settlement fs \<Longrightarrow> retains s (set_settlement k fs s)"
  by (auto simp: set_defs retains_def keeps_defs terms_defs map_modify dest!: update_message_Inr)

interpretation keys: store_invariant E keys_ok for E
  by unfold_locales
    (erule insert_keys_ok append_event_keys_ok, assumption | rule update_keys_ok, assumption+)+

interpretation refs: store_invariant E refs_ok for E
  by unfold_locales
    (erule insert_refs_ok append_event_refs_ok, assumption | rule update_refs_ok, assumption+)+

lemma update_events:
  "update_message E k fm s = Inr s' \<Longrightarrow> events s' = events s" "events (set_dispatch k fd s) = events s"
  "events (set_reservation k fr s) = events s" "events (set_offer k fo s) = events s"
  "events (set_settlement k fs s) = events s"
  by (auto simp: set_defs dest!: update_message_Inr)

interpretation chain: store_invariant E "audit_ok E" for E
  by unfold_locales
    (erule append_event_audit_ok, assumption
      | simp add: insert_events update_events cong: audit_ok_events)+

interpretation kept: store_invariant E "retains old" for E old
  by unfold_locales
    (rule retains_trans, assumption,
      (erule insert_retains | erule append_event_elim, erule insert_retains | erule update_retains, assumption
        | erule update_retains))+

text \<open>Where widths are enforced, the messages and the events that are stored fit their columns.\<close>

definition fits_ok :: "env \<Rightarrow> db \<Rightarrow> bool" where
  "fits_ok E s \<longleftrightarrow> strict_widths E \<longrightarrow>
     (\<forall>m\<in>set (messages s). message_fits m) \<and> (\<forall>e\<in>set (events s). event_fits e)"

lemma fits_ok_update:
  assumes "update_message E k fm s = Inr s'" "keeps_message fm" "fits_ok E s"
  shows "fits_ok E s'"
proof -
  have "msg_id (fm m) = msg_id m" for m using assms(2) by (simp add: keeps_message_def)
  moreover have "fm m \<in> set (modify msg_id (msg_id m) fm (messages s))" if "m \<in> set (messages s)" for m
    using that by (rule modify_same) simp
  ultimately show ?thesis
    using assms(1,3)
    by (auto simp: fits_ok_def update_message_def Let_def list_all_iff split: if_splits)
      (fastforce simp: in_modify split: if_splits)
qed

lemma fits_ok_insert:
  "insert_event E e s = Inr s' \<Longrightarrow> fits_ok E s \<Longrightarrow> fits_ok E s'"
  "insert_message E m s = Inr s' \<Longrightarrow> fits_ok E s \<Longrightarrow> fits_ok E s'"
  by (auto simp: fits_ok_def insert_defs constrained_ok)

interpretation fits: store_invariant E "fits_ok E" for E
proof unfold_locales
  show "append_event E d n ty aid et actor corr payload s = Inr (e, s') \<Longrightarrow> fits_ok E s \<Longrightarrow> fits_ok E s'"
    for d n ty aid et actor corr payload s e s'
    by (elim append_event_elim) (rule fits_ok_insert)
  show "update_message E k fm s = Inr s' \<Longrightarrow> keeps_message fm \<Longrightarrow> fits_ok E s \<Longrightarrow> fits_ok E s'" for k fm s s'
    by (rule fits_ok_update)
qed (auto simp: insert_defs constrained_ok fits_ok_def set_defs)

end
