(* ===== verification/Ports.thy ===== *)
theory Ports
  imports Models
begin

text \<open>
  \<open>ports.py\<close> and \<open>openadr.py\<close>: the signal handed to a publisher and the publishers of the
  repository.  A publisher is a function of its own state: it returns a reference or raises, and
  leaves a new state.  The operator-supplied mapper, validator and transport of the OpenADR
  boundary are parameters.  The locale \<open>publisher\<close> is what the outbox worker relies on.
\<close>

record dispatch_signal =
  sig_dispatch_id :: string
  sig_asset_external_id :: string
  sig_target_kw :: decimal
  sig_starts_at :: datetime
  sig_ends_at :: datetime

type_synonym 'p publish = "dispatch_signal \<Rightarrow> string \<Rightarrow> 'p \<Rightarrow> string result \<times> 'p"

section \<open>The publishers\<close>

definition noop_publish :: "'p publish" where
  "noop_publish sg key st =
     (if blank key then (Inl (ValueError ''Publisher idempotency key cannot be blank.''), st)
      else (Inr (''noop:'' @ sig_dispatch_id sg), st))"

text \<open>\<open>FaultInjectingDispatchPublisher\<close>: the state is the attempt counter and the delegate's state.\<close>

definition fault_init :: "int \<Rightarrow> 'p \<Rightarrow> (int \<times> 'p) result" where
  "fault_init failures_before_success st =
     (if failures_before_success < 0
      then Inl (ValueError ''failures_before_success cannot be negative.'')
      else Inr (0, st))"

definition fault_publish :: "int \<Rightarrow> 'p publish \<Rightarrow> (int \<times> 'p) publish" where
  "fault_publish failures_before_success delegate sg key st =
     (let attempts = fst st + 1 in
      if attempts \<le> failures_before_success
      then (Inl (RuntimeError (''Injected outbound failure #'' @ show_int attempts @ ''.'')),
            (attempts, snd st))
      else (let (r, st') = delegate sg key (snd st) in (r, (attempts, st'))))"

text \<open>\<open>OpenAdr3ContractPublisher.publish\<close>; only a non-empty dictionary goes on to validation.\<close>

type_synonym document = "(string \<times> pyval) list"

definition openadr_publish ::
  "(dispatch_signal \<Rightarrow> pyval result) \<Rightarrow> (document \<Rightarrow> unit result) \<Rightarrow>
   (document \<Rightarrow> string \<Rightarrow> 't \<Rightarrow> string result \<times> 't) \<Rightarrow> 't publish" where
  "openadr_publish map_dispatch validate_event post_event sg key st =
     (if blank key then (Inl (ValueError ''OpenADR transport idempotency key cannot be blank.''), st)
      else case map_dispatch sg of Inl e \<Rightarrow> (Inl e, st)
      | Inr doc \<Rightarrow>
         (case doc of
            PDict (kv # kvs) \<Rightarrow>
              (case validate_event (kv # kvs) of Inl e \<Rightarrow> (Inl e, st)
               | Inr _ \<Rightarrow> post_event (kv # kvs) key st)
          | _ \<Rightarrow> (Inl (ValueError ''OpenADR mapper returned an empty event document.''), st)))"

text \<open>\<open>RecordingOpenAdr3Transport\<close>: the state is the list of calls.\<close>

definition recording_post_event ::
  "document \<Rightarrow> string \<Rightarrow> (document \<times> string) list \<Rightarrow> string result \<times> (document \<times> string) list" where
  "recording_post_event doc key calls = (Inr (''openadr-fixture:'' @ key), calls @ [(doc, key)])"

section \<open>The contract\<close>

text \<open>
  A publication accepted under a key was made under a key that is not blank, and repeating it,
  in whatever state of the publisher, yields the same reference.
\<close>

text \<open>The accepted references of \<open>n\<close> publications of one signal under one key.\<close>

fun replays :: "'p publish \<Rightarrow> dispatch_signal \<Rightarrow> string \<Rightarrow> nat \<Rightarrow> 'p \<Rightarrow> string list" where
  "replays publish sg key 0 st = []"
| "replays publish sg key (Suc n) st = (case publish sg key st of
      (Inr r, st') \<Rightarrow> r # replays publish sg key n st'
    | (Inl _, st') \<Rightarrow> replays publish sg key n st')"

locale publisher =
  fixes publish :: "'p publish"
  assumes keyed: "publish sg key st = (Inr r, st') \<Longrightarrow> \<not> blank key"
    and replay: "publish sg key st = (Inr r, st') \<Longrightarrow> publish sg key u = (Inr q, u') \<Longrightarrow> q = r"
begin

lemma replays_only:
  "publish sg key u = (Inr q, u') \<Longrightarrow> set (replays publish sg key n st) \<subseteq> {q}"
proof (induction n arbitrary: st)
  case (Suc n)
  obtain x st' where p: "publish sg key st = (x, st')" by (cases "publish sg key st")
  then show ?case using Suc replay by (cases x) auto
qed simp

lemma replays_equal:
  "r \<in> set (replays publish sg key n st) \<Longrightarrow> q \<in> set (replays publish sg key n st) \<Longrightarrow> q = r"
proof (induction n arbitrary: st)
  case (Suc n)
  obtain x st' where p: "publish sg key st = (x, st')" by (cases "publish sg key st")
  show ?case
  proof (cases x)
    case (Inl e)
    with Suc p show ?thesis by simp
  next
    case (Inr y)
    with p have "set (replays publish sg key n st') \<subseteq> {y}" using replays_only by blast
    with Suc.prems p Inr show ?thesis by auto
  qed
qed simp

lemma blank_refused: "blank key \<Longrightarrow> \<exists>e. fst (publish sg key st) = Inl e"
  using keyed by (cases "publish sg key st"; cases "fst (publish sg key st)") auto

text \<open>Injected failures in front of a publisher keep the contract.\<close>

lemma fault_publisher: "publisher (fault_publish n publish)"
proof unfold_locales
  show "\<not> blank key" if "fault_publish n publish sg key st = (Inr r, st')" for sg key st r st'
    using that by (auto simp: fault_publish_def Let_def split: if_splits prod.splits dest: keyed)
  show "q = r" if "fault_publish n publish sg key st = (Inr r, st')"
    "fault_publish n publish sg key u = (Inr q, u')" for sg key st r st' u q u'
    using that by (auto simp: fault_publish_def Let_def split: if_splits prod.splits dest: replay)
qed

end

interpretation noop: publisher noop_publish
  by unfold_locales (auto simp: noop_publish_def split: if_splits)

interpretation fault_noop: publisher "fault_publish n noop_publish" for n
  by (rule noop.fault_publisher)

interpretation openadr_recording: publisher "openadr_publish m v recording_post_event" for m v
  by unfold_locales
    (auto simp: openadr_publish_def recording_post_event_def
      split: if_splits sum.splits pyval.splits list.splits)

end
