(* ===== verification/Outbox.thy ===== *)
theory Outbox
  imports Store Ports
begin

text \<open>
  \<open>outbox.py\<close>: the versioned payload and its reader, enqueueing inside the caller's transaction,
  and the worker: claim one due message, publish outside any transaction, record success or
  failure under the claim token, with bounded exponential backoff; and the health snapshot.
  The records read their rows without a lock: \<open>record_success\<close> and \<open>record_failure\<close> are the
  transactions whose rows did not change between the read and the write, \<open>record_success_from\<close> and
  \<open>record_failure_from\<close> the same ones with the reads taken in an earlier state.
\<close>

section \<open>Payload\<close>

definition DISPATCH_TOPIC :: string where
  "DISPATCH_TOPIC = ''dispatch.publish''"

definition DISPATCH_PAYLOAD_VERSION :: string where
  "DISPATCH_PAYLOAD_VERSION = ''energy-flex-dispatch.v1''"

definition LEGACY_DISPATCH_FIELDS :: "string set" where
  "LEGACY_DISPATCH_FIELDS =
     {''dispatch_id'', ''asset_external_id'', ''target_kw'', ''starts_at'', ''ends_at''}"

definition VERSIONED_DISPATCH_FIELDS :: "string set" where
  "VERSIONED_DISPATCH_FIELDS = LEGACY_DISPATCH_FIELDS \<union> {''schema_version''}"

definition dispatch_payload :: "dispatch_signal \<Rightarrow> (string \<times> string) list" where
  "dispatch_payload sg =
     [(''schema_version'', DISPATCH_PAYLOAD_VERSION),
      (''dispatch_id'', sig_dispatch_id sg),
      (''asset_external_id'', sig_asset_external_id sg),
      (''target_kw'', dec_format (sig_target_kw sg)),
      (''starts_at'', isoformat (as_utc (sig_starts_at sg))),
      (''ends_at'', isoformat (as_utc (sig_ends_at sg)))]"

text \<open>\<open>payload[k]\<close>; called only for keys the shape check has found.\<close>

definition field :: "(string \<times> string) list \<Rightarrow> string \<Rightarrow> string" where
  "field payload k = (case map_of payload k of Some v \<Rightarrow> v | None \<Rightarrow> '''')"

definition restore_signal :: "(string \<times> string) list \<Rightarrow> dispatch_signal result" where
  "restore_signal payload =
     (case dec_parse (field payload ''target_kw'') of Inl e \<Rightarrow> Inl e | Inr target \<Rightarrow>
      case fromisoformat (field payload ''starts_at'') of Inl e \<Rightarrow> Inl e | Inr starts \<Rightarrow>
      case fromisoformat (field payload ''ends_at'') of Inl e \<Rightarrow> Inl e | Inr ends \<Rightarrow>
      Inr \<lparr>sig_dispatch_id = field payload ''dispatch_id'',
           sig_asset_external_id = field payload ''asset_external_id'',
           sig_target_kw = target, sig_starts_at = starts, sig_ends_at = ends\<rparr>)"

definition dispatch_signal :: "(string \<times> string) list \<Rightarrow> dispatch_signal result" where
  "dispatch_signal payload =
     (let fields = fst ` set payload in
      if fields = VERSIONED_DISPATCH_FIELDS \<and>
         map_of payload ''schema_version'' \<noteq> Some DISPATCH_PAYLOAD_VERSION
      then Inl (ValueError ''Dispatch outbox payload version is unsupported.'')
      else if fields \<noteq> VERSIONED_DISPATCH_FIELDS \<and> fields \<noteq> LEGACY_DISPATCH_FIELDS
      then Inl (ValueError ''Dispatch outbox payload has an unexpected shape.'')
      else restore_signal payload)"

section \<open>Enqueueing\<close>

definition enqueue_dispatch ::
  "env \<Rightarrow> draws \<Rightarrow> nat \<Rightarrow> dispatch_signal \<Rightarrow> string \<Rightarrow> db \<Rightarrow> (outbox_message \<times> db) result" where
  "enqueue_dispatch E d i sg idempotency_key s =
     (if blank idempotency_key then Inl (ValueError ''Outbox idempotency key cannot be blank.'')
      else let message = \<lparr>msg_id = uuid d i, msg_topic = DISPATCH_TOPIC,
                msg_aggregate_id = sig_dispatch_id sg, msg_idempotency_key = idempotency_key,
                msg_payload = dispatch_payload sg, msg_status = PENDING, msg_attempts = 0,
                msg_available_at = now d i, msg_lease_expires_at = None, msg_locked_by = None,
                msg_adapter_reference = None, msg_last_error = None, msg_published_at = None,
                msg_created_at = now d i, msg_updated_at = now d i\<rparr> in
        case insert_message E message s of Inl e \<Rightarrow> Inl e | Inr s' \<Rightarrow> Inr (message, s'))"

section \<open>The worker\<close>

record worker =
  worker_id :: string
  max_attempts :: int
  base_retry_seconds :: int
  max_retry_seconds :: int
  lease_seconds :: int

definition make_worker :: "string \<Rightarrow> int \<Rightarrow> int \<Rightarrow> int \<Rightarrow> int \<Rightarrow> worker result" where
  "make_worker wid maxa base maxr lease =
     (if maxa < 1 then Inl (ValueError ''max_attempts must be at least one.'')
      else if base < 1 \<or> maxr < base then Inl (ValueError ''Retry bounds are invalid.'')
      else if lease < 1 then Inl (ValueError ''lease_seconds must be at least one.'')
      else Inr \<lparr>worker_id = wid, max_attempts = maxa, base_retry_seconds = base,
                max_retry_seconds = maxr, lease_seconds = lease\<rparr>)"

record claimed_message =
  clm_id :: string
  clm_aggregate_id :: string
  clm_idempotency_key :: string
  clm_payload :: "(string \<times> string) list"
  clm_attempts :: int
  clm_token :: string

definition retry_delay :: "worker \<Rightarrow> int \<Rightarrow> int" where
  "retry_delay w attempts =
     (let delay = base_retry_seconds w * 2 ^ nat (max 0 (attempts - 1)) in
      min delay (max_retry_seconds w))"

text \<open>The \<open>where\<close> clause of the claim at time \<open>t\<close>.\<close>

definition claimable :: "datetime \<Rightarrow> outbox_message \<Rightarrow> bool" where
  "claimable t m = (msg_topic m = DISPATCH_TOPIC \<and> dt_le (msg_available_at m) t \<and>
     (msg_status m = PENDING \<or>
      (msg_status m = PROCESSING \<and>
       (case msg_lease_expires_at m of None \<Rightarrow> False | Some l \<Rightarrow> dt_le l t))))"

definition claim_order :: "outbox_message \<Rightarrow> int \<times> int \<times> string" where
  "claim_order m = (instant (msg_available_at m), instant (msg_created_at m), msg_id m)"

text \<open>The assignments to a message when it is claimed, published, given up or put back.\<close>

definition mark_claimed :: "datetime \<Rightarrow> worker \<Rightarrow> string \<Rightarrow> outbox_message \<Rightarrow> outbox_message" where
  "mark_claimed t w claim_token m = m\<lparr>msg_status := PROCESSING, msg_attempts := msg_attempts m + 1,
     msg_locked_by := Some claim_token,
     msg_lease_expires_at := Some (plus_seconds t (lease_seconds w)), msg_updated_at := t\<rparr>"

definition mark_published :: "datetime \<Rightarrow> string \<Rightarrow> outbox_message \<Rightarrow> outbox_message" where
  "mark_published t reference m = m\<lparr>msg_status := PUBLISHED,
     msg_adapter_reference := Some reference, msg_published_at := Some t,
     msg_lease_expires_at := None, msg_locked_by := None, msg_last_error := None,
     msg_updated_at := t\<rparr>"

definition mark_dead :: "datetime \<Rightarrow> string \<Rightarrow> outbox_message \<Rightarrow> outbox_message" where
  "mark_dead t err m = m\<lparr>msg_last_error := Some err, msg_lease_expires_at := None,
     msg_locked_by := None, msg_updated_at := t, msg_status := DEAD\<rparr>"

definition mark_retry :: "datetime \<Rightarrow> string \<Rightarrow> int \<Rightarrow> outbox_message \<Rightarrow> outbox_message" where
  "mark_retry t err delay m = m\<lparr>msg_last_error := Some err, msg_lease_expires_at := None,
     msg_locked_by := None, msg_updated_at := t, msg_status := PENDING,
     msg_available_at := plus_seconds t delay\<rparr>"

lemmas mark_defs = mark_claimed_def mark_published_def mark_dead_def mark_retry_def

definition claim_one :: "env \<Rightarrow> worker \<Rightarrow> draws \<Rightarrow> db \<Rightarrow> claimed_message option result \<times> db" where
  "claim_one E w d s =
     (let t = as_utc (now d 0) in
      transaction (\<lambda>s.
        case sort_key claim_order (filter (claimable t) (messages s)) of
          [] \<Rightarrow> Inr (None, s)
        | m # _ \<Rightarrow>
           (let claim_token = worker_id w @ '':'' @ uuid d 0 in
            case update_message E (msg_id m) (mark_claimed t w claim_token) s of
              Inl e \<Rightarrow> Inl e
            | Inr s' \<Rightarrow> Inr (Some \<lparr>clm_id = msg_id m, clm_aggregate_id = msg_aggregate_id m,
                clm_idempotency_key = msg_idempotency_key m, clm_payload = msg_payload m,
                clm_attempts = msg_attempts m + 1, clm_token = claim_token\<rparr>, s'))) s)"

definition record_success ::
  "env \<Rightarrow> worker \<Rightarrow> draws \<Rightarrow> claimed_message \<Rightarrow> string \<Rightarrow> db \<Rightarrow> bool result \<times> db" where
  "record_success E w d c reference s =
     (let t = as_utc (now d 0) in
      transaction (\<lambda>s.
        case lookup msg_id (clm_id c) (messages s) of None \<Rightarrow> Inr (False, s)
        | Some m \<Rightarrow>
          if msg_locked_by m \<noteq> Some (clm_token c) then Inr (False, s)
          else case lookup dsp_id (clm_aggregate_id c) (dispatches s) of
            None \<Rightarrow> Inl (RuntimeError ''Outbox dispatch aggregate no longer exists.'')
          | Some dsp \<Rightarrow>
          case lookup rsv_id (dsp_reservation_id dsp) (reservations s) of
            None \<Rightarrow> Inl (RuntimeError ''Dispatch reservation no longer exists.'')
          | Some rsv \<Rightarrow>
          case update_message E (msg_id m) (mark_published t reference) s of
            Inl e \<Rightarrow> Inl e
          | Inr s1 \<Rightarrow>
            (let s2 = set_dispatch (dsp_id dsp)
                   (\<lambda>x. x\<lparr>dsp_adapter_reference := Some reference, dsp_status := ISSUED\<rparr>) s1;
                 s3 = set_reservation (rsv_id rsv) (\<lambda>x. x\<lparr>rsv_status := DISPATCHED\<rparr>) s2 in
             case append_event E d 1 ''dispatch'' (dsp_id dsp) ''dispatch.published''
                 (''system:'' @ worker_id w) (clm_idempotency_key c)
                 (PDict [(''outbox_message_id'', PStr (msg_id m)),
                         (''adapter_reference'', PStr reference),
                         (''attempt'', PInt (msg_attempts m))]) s3 of
               Inl e \<Rightarrow> Inl e
             | Inr (_, s4) \<Rightarrow> Inr (True, s4))) s)"

definition error_text :: "pyexn \<Rightarrow> string" where
  "error_text exc = take 2000 (exn_name exc @ '': '' @ exn_text exc)"

definition record_failure ::
  "env \<Rightarrow> worker \<Rightarrow> draws \<Rightarrow> claimed_message \<Rightarrow> pyexn \<Rightarrow> db \<Rightarrow> bool result \<times> db" where
  "record_failure E w d c exc s =
     (let t = as_utc (now d 0) in
      transaction (\<lambda>s.
        case lookup msg_id (clm_id c) (messages s) of None \<Rightarrow> Inr (False, s)
        | Some m \<Rightarrow>
          if msg_locked_by m \<noteq> Some (clm_token c) then Inr (False, s)
          else if max_attempts w \<le> msg_attempts m then
            (case update_message E (msg_id m) (mark_dead t (error_text exc)) s of
               Inl e \<Rightarrow> Inl e
             | Inr s1 \<Rightarrow>
               (case lookup dsp_id (clm_aggregate_id c) (dispatches s1) of
                  None \<Rightarrow> Inr (True, s1)
                | Some dsp \<Rightarrow>
                  (let s2 = set_dispatch (dsp_id dsp) (\<lambda>x. x\<lparr>dsp_status := REJECTED\<rparr>) s1;
                       s3 = (case lookup rsv_id (dsp_reservation_id dsp) (reservations s2) of
                               None \<Rightarrow> s2
                             | Some rsv \<Rightarrow>
                                 set_reservation (rsv_id rsv) (\<lambda>x. x\<lparr>rsv_status := RES_CANCELLED\<rparr>) s2) in
                   case append_event E d 1 ''dispatch'' (dsp_id dsp) ''dispatch.delivery_failed''
                       (''system:'' @ worker_id w) (clm_idempotency_key c)
                       (PDict [(''outbox_message_id'', PStr (msg_id m)),
                               (''attempts'', PInt (msg_attempts m)),
                               (''error'', PStr (error_text exc))]) s3 of
                     Inl e \<Rightarrow> Inl e
                   | Inr (_, s4) \<Rightarrow> Inr (True, s4))))
          else
            (case update_message E (msg_id m)
                (mark_retry t (error_text exc) (retry_delay w (msg_attempts m))) s of
               Inl e \<Rightarrow> Inl e
             | Inr s1 \<Rightarrow> Inr (False, s1))) s)"

text \<open>
  The records under READ COMMITTED.  \<open>session.get\<close> takes no lock, so another transaction can commit
  between the reads, here in the state \<open>seen\<close>, and the write, here to \<open>s\<close>.  The \<open>UPDATE\<close> of a loaded
  row goes by primary key and sets the attributes whose value differs from the loaded one.
\<close>

definition flushed :: "('r \<Rightarrow> 'v) \<Rightarrow> 'r \<Rightarrow> 'r \<Rightarrow> 'r \<Rightarrow> 'v" where
  "flushed f old new row = (if f new = f old then f row else f new)"

definition flush_message :: "outbox_message \<Rightarrow> outbox_message \<Rightarrow> outbox_message \<Rightarrow> outbox_message" where
  "flush_message old new m = m\<lparr>msg_status := flushed msg_status old new m,
     msg_available_at := flushed msg_available_at old new m,
     msg_lease_expires_at := flushed msg_lease_expires_at old new m,
     msg_locked_by := flushed msg_locked_by old new m,
     msg_adapter_reference := flushed msg_adapter_reference old new m,
     msg_last_error := flushed msg_last_error old new m,
     msg_published_at := flushed msg_published_at old new m,
     msg_updated_at := flushed msg_updated_at old new m\<rparr>"

definition flush_dispatch :: "dispatch \<Rightarrow> dispatch \<Rightarrow> dispatch \<Rightarrow> dispatch" where
  "flush_dispatch old new x = x\<lparr>dsp_adapter_reference := flushed dsp_adapter_reference old new x,
     dsp_status := flushed dsp_status old new x\<rparr>"

definition flush_reservation :: "reservation \<Rightarrow> reservation \<Rightarrow> reservation \<Rightarrow> reservation" where
  "flush_reservation old new x = x\<lparr>rsv_status := flushed rsv_status old new x\<rparr>"

definition record_success_from ::
  "env \<Rightarrow> worker \<Rightarrow> draws \<Rightarrow> claimed_message \<Rightarrow> string \<Rightarrow> db \<Rightarrow> db \<Rightarrow> bool result \<times> db" where
  "record_success_from E w d c reference seen s =
     (let t = as_utc (now d 0) in
      transaction (\<lambda>s.
        case lookup msg_id (clm_id c) (messages seen) of None \<Rightarrow> Inr (False, s)
        | Some m \<Rightarrow>
          if msg_locked_by m \<noteq> Some (clm_token c) then Inr (False, s)
          else case lookup dsp_id (clm_aggregate_id c) (dispatches seen) of
            None \<Rightarrow> Inl (RuntimeError ''Outbox dispatch aggregate no longer exists.'')
          | Some dsp \<Rightarrow>
          case lookup rsv_id (dsp_reservation_id dsp) (reservations seen) of
            None \<Rightarrow> Inl (RuntimeError ''Dispatch reservation no longer exists.'')
          | Some rsv \<Rightarrow>
          case update_message E (msg_id m) (flush_message m (mark_published t reference m)) s of
            Inl e \<Rightarrow> Inl e
          | Inr s1 \<Rightarrow>
            (let s2 = set_dispatch (dsp_id dsp) (flush_dispatch dsp
                   (dsp\<lparr>dsp_adapter_reference := Some reference, dsp_status := ISSUED\<rparr>)) s1;
                 s3 = set_reservation (rsv_id rsv)
                   (flush_reservation rsv (rsv\<lparr>rsv_status := DISPATCHED\<rparr>)) s2 in
             case append_event E d 1 ''dispatch'' (dsp_id dsp) ''dispatch.published''
                 (''system:'' @ worker_id w) (clm_idempotency_key c)
                 (PDict [(''outbox_message_id'', PStr (msg_id m)),
                         (''adapter_reference'', PStr reference),
                         (''attempt'', PInt (msg_attempts m))]) s3 of
               Inl e \<Rightarrow> Inl e
             | Inr (_, s4) \<Rightarrow> Inr (True, s4))) s)"

definition record_failure_from ::
  "env \<Rightarrow> worker \<Rightarrow> draws \<Rightarrow> claimed_message \<Rightarrow> pyexn \<Rightarrow> db \<Rightarrow> db \<Rightarrow> bool result \<times> db" where
  "record_failure_from E w d c exc seen s =
     (let t = as_utc (now d 0) in
      transaction (\<lambda>s.
        case lookup msg_id (clm_id c) (messages seen) of None \<Rightarrow> Inr (False, s)
        | Some m \<Rightarrow>
          if msg_locked_by m \<noteq> Some (clm_token c) then Inr (False, s)
          else if max_attempts w \<le> msg_attempts m then
            (case update_message E (msg_id m) (flush_message m (mark_dead t (error_text exc) m)) s of
               Inl e \<Rightarrow> Inl e
             | Inr s1 \<Rightarrow>
               (case lookup dsp_id (clm_aggregate_id c) (dispatches seen) of
                  None \<Rightarrow> Inr (True, s1)
                | Some dsp \<Rightarrow>
                  (let s2 = set_dispatch (dsp_id dsp)
                         (flush_dispatch dsp (dsp\<lparr>dsp_status := REJECTED\<rparr>)) s1;
                       s3 = (case lookup rsv_id (dsp_reservation_id dsp) (reservations seen) of
                               None \<Rightarrow> s2
                             | Some rsv \<Rightarrow> set_reservation (rsv_id rsv)
                                 (flush_reservation rsv (rsv\<lparr>rsv_status := RES_CANCELLED\<rparr>)) s2) in
                   case append_event E d 1 ''dispatch'' (dsp_id dsp) ''dispatch.delivery_failed''
                       (''system:'' @ worker_id w) (clm_idempotency_key c)
                       (PDict [(''outbox_message_id'', PStr (msg_id m)),
                               (''attempts'', PInt (msg_attempts m)),
                               (''error'', PStr (error_text exc))]) s3 of
                     Inl e \<Rightarrow> Inl e
                   | Inr (_, s4) \<Rightarrow> Inr (True, s4))))
          else
            (case update_message E (msg_id m) (flush_message m
                (mark_retry t (error_text exc) (retry_delay w (msg_attempts m)) m)) s of
               Inl e \<Rightarrow> Inl e
             | Inr s1 \<Rightarrow> Inr (False, s1))) s)"

section \<open>One batch\<close>

record run_result =
  rr_attempted :: nat
  rr_published :: nat
  rr_retried :: nat
  rr_dead :: nat

definition no_run :: run_result where
  "no_run = \<lparr>rr_attempted = 0, rr_published = 0, rr_retried = 0, rr_dead = 0\<rparr>"

text \<open>
  The loop body: \<open>n\<close> iterations are left; call \<open>2 k\<close> of the draws is the claim of iteration
  \<open>k\<close>, call \<open>2 k + 1\<close> its record.  An exception of the claim or of a record ends the loop.
\<close>

fun run_loop :: "env \<Rightarrow> worker \<Rightarrow> 'p publish \<Rightarrow> (nat \<Rightarrow> draws) \<Rightarrow> nat \<Rightarrow> nat \<Rightarrow> run_result \<Rightarrow>
    db \<Rightarrow> 'p \<Rightarrow> run_result result \<times> db \<times> 'p" where
  "run_loop E w publish ds k 0 acc s p = (Inr acc, s, p)"
| "run_loop E w publish ds k (Suc n) acc s p =
     (case claim_one E w (ds (2 * k)) s of
        (Inl e, s1) \<Rightarrow> (Inl e, s1, p)
      | (Inr None, s1) \<Rightarrow> (Inr acc, s1, p)
      | (Inr (Some c), s1) \<Rightarrow>
        (let acc1 = acc\<lparr>rr_attempted := rr_attempted acc + 1\<rparr>;
             (outcome, p1) = (case dispatch_signal (clm_payload c) of
                 Inl e \<Rightarrow> (Inl e, p)
               | Inr sg \<Rightarrow> publish sg (clm_idempotency_key c) p) in
         case outcome of
           Inl exc \<Rightarrow>
             (case record_failure E w (ds (2 * k + 1)) c exc s1 of
                (Inl e, s2) \<Rightarrow> (Inl e, s2, p1)
              | (Inr terminal, s2) \<Rightarrow>
                  run_loop E w publish ds (Suc k) n
                    (if terminal then acc1\<lparr>rr_dead := rr_dead acc1 + 1\<rparr>
                     else acc1\<lparr>rr_retried := rr_retried acc1 + 1\<rparr>) s2 p1)
         | Inr reference \<Rightarrow>
             (case record_success E w (ds (2 * k + 1)) c reference s1 of
                (Inl e, s2) \<Rightarrow> (Inl e, s2, p1)
              | (Inr ok, s2) \<Rightarrow>
                  run_loop E w publish ds (Suc k) n
                    (if ok then acc1\<lparr>rr_published := rr_published acc1 + 1\<rparr> else acc1) s2 p1)))"

definition run_once :: "env \<Rightarrow> worker \<Rightarrow> 'p publish \<Rightarrow> (nat \<Rightarrow> draws) \<Rightarrow> int \<Rightarrow> db \<Rightarrow> 'p \<Rightarrow>
    run_result result \<times> db \<times> 'p" where
  "run_once E w publish ds limit s p =
     (if limit < 1 then (Inl (ValueError ''limit must be at least one.''), s, p)
      else run_loop E w publish ds 0 (nat limit) no_run s p)"

section \<open>Health snapshot\<close>

record outbox_snapshot =
  os_pending :: nat
  os_processing :: nat
  os_published :: nat
  os_dead :: nat
  os_due :: nat
  os_oldest_pending_age :: "int option"

text \<open>The age is in microseconds; the source reports it in seconds.\<close>

definition snapshot :: "datetime \<Rightarrow> db \<Rightarrow> outbox_snapshot" where
  "snapshot t s =
     (let count = (\<lambda>P. length (filter P (messages s)));
          pending = filter (\<lambda>m. msg_status m = PENDING) (messages s) in
      \<lparr>os_pending = count (\<lambda>m. msg_status m = PENDING),
       os_processing = count (\<lambda>m. msg_status m = PROCESSING),
       os_published = count (\<lambda>m. msg_status m = PUBLISHED),
       os_dead = count (\<lambda>m. msg_status m = DEAD),
       os_due = count (\<lambda>m. msg_status m = PENDING \<and> dt_le (msg_available_at m) t),
       os_oldest_pending_age =
         (case pending of [] \<Rightarrow> None
          | m # ms \<Rightarrow> Some (max 0 (instant t -
              foldl min (instant (msg_created_at m)) (map (\<lambda>x. instant (msg_created_at x)) ms))))\<rparr>)"

section \<open>Properties kept\<close>

context store_invariant
begin

lemma claim_one: "claim_one E w d s = (r, s') \<Longrightarrow> I s \<Longrightarrow> I s'"
  unfolding claim_one_def Let_def
  by (erule atomic)
    (auto split: list.splits sum.splits, (erule writes | simp add: keeps_defs mark_defs)+)

lemma record_success: "record_success E w d c reference s = (r, s') \<Longrightarrow> I s \<Longrightarrow> I s'"
  unfolding record_success_def Let_def
  by (erule atomic)
    (auto split: option.splits sum.splits if_splits,
      (erule writes | rule assigns | simp add: keeps_defs mark_defs)+)

lemma record_failure: "record_failure E w d c exc s = (r, s') \<Longrightarrow> I s \<Longrightarrow> I s'"
  unfolding record_failure_def Let_def
  by (erule atomic)
    (auto split: option.splits sum.splits if_splits,
      (erule writes | rule assigns | simp add: keeps_defs mark_defs)+)

end

section \<open>What each operation does\<close>

lemma sort_key_head:
  assumes "sort_key f xs = m # rest"
  shows "m \<in> set xs" "\<forall>x\<in>set xs. f m \<le> f x"
proof -
  have "set xs = set (m # rest)" using assms by (metis set_sort)
  then show "m \<in> set xs" by simp
  have "sorted (map f (m # rest))" using assms by (metis sorted_sort_key)
  with \<open>set xs = set (m # rest)\<close> show "\<forall>x\<in>set xs. f m \<le> f x" by auto
qed

text \<open>A claim takes the first due message and marks it, under the token of this claim.\<close>

lemma claim_one_elim:
  assumes "claim_one E w d s = (Inr (Some c), s')"
  obtains m where "m \<in> set (messages s)" "claimable (as_utc (now d 0)) m"
    "\<forall>x\<in>set (messages s). claimable (as_utc (now d 0)) x \<longrightarrow> claim_order m \<le> claim_order x"
    "c = \<lparr>clm_id = msg_id m, clm_aggregate_id = msg_aggregate_id m,
       clm_idempotency_key = msg_idempotency_key m, clm_payload = msg_payload m,
       clm_attempts = msg_attempts m + 1, clm_token = worker_id w @ '':'' @ uuid d 0\<rparr>"
    "s' = s\<lparr>messages := modify msg_id (msg_id m)
       (mark_claimed (as_utc (now d 0)) w (worker_id w @ '':'' @ uuid d 0)) (messages s)\<rparr>"
proof -
  let ?t = "as_utc (now d 0)"
  from assms obtain m rest where srt: "sort_key claim_order (filter (claimable ?t) (messages s)) = m # rest"
    and u: "update_message E (msg_id m) (mark_claimed ?t w (worker_id w @ '':'' @ uuid d 0)) s = Inr s'"
    and c: "c = \<lparr>clm_id = msg_id m, clm_aggregate_id = msg_aggregate_id m,
       clm_idempotency_key = msg_idempotency_key m, clm_payload = msg_payload m,
       clm_attempts = msg_attempts m + 1, clm_token = worker_id w @ '':'' @ uuid d 0\<rparr>"
    unfolding claim_one_def Let_def transaction_Inr by (auto split: list.splits sum.splits)
  from sort_key_head [OF srt] show thesis
    by (intro that [OF _ _ _ c update_message_Inr [OF u]]) auto
qed

lemma claim_one_None:
  "claim_one E w d s = (Inr None, s') \<longleftrightarrow>
     s' = s \<and> (\<forall>m\<in>set (messages s). \<not> claimable (as_utc (now d 0)) m)"
proof -
  have "claim_one E w d s = (Inr None, s') \<longleftrightarrow>
      s' = s \<and> sort_key claim_order (filter (claimable (as_utc (now d 0))) (messages s)) = []"
    unfolding claim_one_def Let_def transaction_Inr by (auto split: list.splits sum.splits)
  also have "(sort_key claim_order (filter (claimable (as_utc (now d 0))) (messages s)) = []) \<longleftrightarrow>
      (\<forall>m\<in>set (messages s). \<not> claimable (as_utc (now d 0)) m)"
    by (metis (mono_tags, lifting) filter_empty_conv set_empty set_sort)
  finally show ?thesis .
qed

lemma claim_one_error: "claim_one E w d s = (Inl e, s') \<Longrightarrow> s' = s"
  unfolding claim_one_def Let_def transaction_Inl by simp

text \<open>A record whose claim is not current any more changes nothing.\<close>

definition current :: "claimed_message \<Rightarrow> db \<Rightarrow> bool" where
  "current c s = (case lookup msg_id (clm_id c) (messages s) of None \<Rightarrow> False
     | Some m \<Rightarrow> msg_locked_by m = Some (clm_token c))"

lemma record_stale:
  assumes "\<not> current c s"
  shows "record_success E w d c reference s = (Inr False, s)"
    and "record_failure E w d c exc s = (Inr False, s)"
  using assms
  by (auto simp: record_success_def record_failure_def current_def transaction_def Let_def
      split: option.splits)

lemma record_success_elim:
  assumes "record_success E w d c reference s = (Inr True, s')"
  obtains m dsp rsv e where
    "lookup msg_id (clm_id c) (messages s) = Some m" "msg_locked_by m = Some (clm_token c)"
    "lookup dsp_id (clm_aggregate_id c) (dispatches s) = Some dsp"
    "lookup rsv_id (dsp_reservation_id dsp) (reservations s) = Some rsv"
    "s' = s\<lparr>messages := modify msg_id (clm_id c) (mark_published (as_utc (now d 0)) reference) (messages s),
       dispatches := modify dsp_id (clm_aggregate_id c)
         (\<lambda>x. x\<lparr>dsp_adapter_reference := Some reference, dsp_status := ISSUED\<rparr>) (dispatches s),
       reservations := modify rsv_id (dsp_reservation_id dsp)
         (\<lambda>x. x\<lparr>rsv_status := DISPATCHED\<rparr>) (reservations s),
       events := events s @ [e]\<rparr>"
    "evt_type e = ''dispatch.published''" "evt_aggregate_id e = clm_aggregate_id c"
    "evt_correlation_id e = clm_idempotency_key c"
proof -
  let ?t = "as_utc (now d 0)"
  from assms obtain m dsp rsv s1 e where
    m: "lookup msg_id (clm_id c) (messages s) = Some m" "msg_locked_by m = Some (clm_token c)"
    and dsp: "lookup dsp_id (clm_aggregate_id c) (dispatches s) = Some dsp"
    and rsv: "lookup rsv_id (dsp_reservation_id dsp) (reservations s) = Some rsv"
    and u: "update_message E (msg_id m) (mark_published ?t reference) s = Inr s1"
    and a: "append_event E d 1 ''dispatch'' (dsp_id dsp) ''dispatch.published''
      (''system:'' @ worker_id w) (clm_idempotency_key c)
      (PDict [(''outbox_message_id'', PStr (msg_id m)), (''adapter_reference'', PStr reference),
        (''attempt'', PInt (msg_attempts m))])
      (set_reservation (rsv_id rsv) (\<lambda>x. x\<lparr>rsv_status := DISPATCHED\<rparr>)
        (set_dispatch (dsp_id dsp)
          (\<lambda>x. x\<lparr>dsp_adapter_reference := Some reference, dsp_status := ISSUED\<rparr>) s1)) = Inr (e, s')"
    unfolding record_success_def Let_def transaction_Inr
    by (auto split: option.splits sum.splits if_splits)
  from a show thesis
    using lookup_Some [OF m(1)] lookup_Some [OF dsp] lookup_Some [OF rsv]
    by (elim append_event_elim, intro that [OF m dsp rsv])
      (auto simp: set_defs update_message_Inr [OF u])
qed

lemma record_success_False: "record_success E w d c reference s = (Inr False, s') \<Longrightarrow> s' = s \<and> \<not> current c s"
  unfolding record_success_def Let_def transaction_Inr current_def
  by (auto split: option.splits sum.splits if_splits)

lemma record_success_Inl: "record_success E w d c reference s = (Inl e, s') \<Longrightarrow> s' = s"
  unfolding record_success_def Let_def transaction_Inl by simp

lemma record_failure_retry:
  assumes "record_failure E w d c exc s = (Inr False, s')" "current c s"
  obtains m where "lookup msg_id (clm_id c) (messages s) = Some m"
    "msg_locked_by m = Some (clm_token c)" "msg_attempts m < max_attempts w"
    "s' = s\<lparr>messages := modify msg_id (clm_id c)
       (mark_retry (as_utc (now d 0)) (error_text exc) (retry_delay w (msg_attempts m))) (messages s)\<rparr>"
proof -
  from assms obtain m where m: "lookup msg_id (clm_id c) (messages s) = Some m"
      "msg_locked_by m = Some (clm_token c)" "msg_attempts m < max_attempts w"
    and u: "update_message E (msg_id m)
      (mark_retry (as_utc (now d 0)) (error_text exc) (retry_delay w (msg_attempts m))) s = Inr s'"
    unfolding record_failure_def Let_def transaction_Inr current_def
    by (auto split: option.splits sum.splits if_splits)
  show thesis using update_message_Inr [OF u] lookup_Some [OF m(1)] by (intro that [OF m]) auto
qed

lemma record_failure_dead:
  assumes "record_failure E w d c exc s = (Inr True, s')"
  obtains m where "lookup msg_id (clm_id c) (messages s) = Some m"
    "msg_locked_by m = Some (clm_token c)" "max_attempts w \<le> msg_attempts m"
    "messages s' = modify msg_id (clm_id c) (mark_dead (as_utc (now d 0)) (error_text exc)) (messages s)"
    "\<And>dsp. lookup dsp_id (clm_aggregate_id c) (dispatches s) = Some dsp \<Longrightarrow>
      \<exists>e. s' = s\<lparr>messages := modify msg_id (clm_id c) (mark_dead (as_utc (now d 0)) (error_text exc)) (messages s),
        dispatches := modify dsp_id (clm_aggregate_id c) (\<lambda>x. x\<lparr>dsp_status := REJECTED\<rparr>) (dispatches s),
        reservations := modify rsv_id (dsp_reservation_id dsp)
          (\<lambda>x. x\<lparr>rsv_status := RES_CANCELLED\<rparr>) (reservations s),
        events := events s @ [e]\<rparr> \<and>
        evt_type e = ''dispatch.delivery_failed'' \<and> evt_aggregate_id e = clm_aggregate_id c \<and>
        evt_correlation_id e = clm_idempotency_key c"
    "lookup dsp_id (clm_aggregate_id c) (dispatches s) = None \<Longrightarrow> s' = s\<lparr>messages := modify msg_id (clm_id c) (mark_dead (as_utc (now d 0)) (error_text exc)) (messages s)\<rparr>"
proof -
  from assms obtain m s1 where m: "lookup msg_id (clm_id c) (messages s) = Some m"
      "msg_locked_by m = Some (clm_token c)" "max_attempts w \<le> msg_attempts m"
    and u: "update_message E (msg_id m) (mark_dead (as_utc (now d 0)) (error_text exc)) s = Inr s1"
    and r: "(case lookup dsp_id (clm_aggregate_id c) (dispatches s1) of
        None \<Rightarrow> Inr (True, s1)
      | Some dsp \<Rightarrow>
          (case append_event E d 1 ''dispatch'' (dsp_id dsp) ''dispatch.delivery_failed''
            (''system:'' @ worker_id w) (clm_idempotency_key c)
            (PDict [(''outbox_message_id'', PStr (msg_id m)), (''attempts'', PInt (msg_attempts m)),
              (''error'', PStr (error_text exc))])
            (case lookup rsv_id (dsp_reservation_id dsp)
                (reservations (set_dispatch (dsp_id dsp) (\<lambda>x. x\<lparr>dsp_status := REJECTED\<rparr>) s1)) of
              None \<Rightarrow> set_dispatch (dsp_id dsp) (\<lambda>x. x\<lparr>dsp_status := REJECTED\<rparr>) s1
            | Some rsv \<Rightarrow> set_reservation (rsv_id rsv) (\<lambda>x. x\<lparr>rsv_status := RES_CANCELLED\<rparr>)
                (set_dispatch (dsp_id dsp) (\<lambda>x. x\<lparr>dsp_status := REJECTED\<rparr>) s1)) of
            Inl e \<Rightarrow> Inl e | Inr (_, s4) \<Rightarrow> Inr (True, s4))) = Inr (True, s')"
    unfolding record_failure_def Let_def transaction_Inr
    by (auto split: option.split_asm sum.split_asm if_split_asm)
  have s1: "s1 = s\<lparr>messages := modify msg_id (clm_id c)
      (mark_dead (as_utc (now d 0)) (error_text exc)) (messages s)\<rparr>"
    using update_message_Inr [OF u] lookup_Some [OF m(1)] by simp
  show thesis
  proof (rule that [OF m])
    show "messages s' = modify msg_id (clm_id c)
        (mark_dead (as_utc (now d 0)) (error_text exc)) (messages s)"
      using r by (auto simp: s1 set_defs split: option.split_asm sum.split_asm dest!: append_event_frame(8))
    show "s' = s\<lparr>messages := modify msg_id (clm_id c) (mark_dead (as_utc (now d 0)) (error_text exc)) (messages s)\<rparr>"
      if "lookup dsp_id (clm_aggregate_id c) (dispatches s) = None"
      using r that by (simp add: s1)
    show "\<exists>e. s' = s\<lparr>messages := modify msg_id (clm_id c) (mark_dead (as_utc (now d 0)) (error_text exc)) (messages s),
        dispatches := modify dsp_id (clm_aggregate_id c) (\<lambda>x. x\<lparr>dsp_status := REJECTED\<rparr>) (dispatches s),
        reservations := modify rsv_id (dsp_reservation_id dsp)
          (\<lambda>x. x\<lparr>rsv_status := RES_CANCELLED\<rparr>) (reservations s),
        events := events s @ [e]\<rparr> \<and>
        evt_type e = ''dispatch.delivery_failed'' \<and> evt_aggregate_id e = clm_aggregate_id c \<and>
        evt_correlation_id e = clm_idempotency_key c"
      if l: "lookup dsp_id (clm_aggregate_id c) (dispatches s) = Some dsp" for dsp
    proof -
      let ?s2 = "set_dispatch (dsp_id dsp) (\<lambda>x. x\<lparr>dsp_status := REJECTED\<rparr>) s1"
      let ?s3 = "set_reservation (dsp_reservation_id dsp) (\<lambda>x. x\<lparr>rsv_status := RES_CANCELLED\<rparr>) ?s2"
      have s3: "(case lookup rsv_id (dsp_reservation_id dsp) (reservations ?s2) of None \<Rightarrow> ?s2
          | Some rsv \<Rightarrow> set_reservation (rsv_id rsv) (\<lambda>x. x\<lparr>rsv_status := RES_CANCELLED\<rparr>) ?s2) = ?s3"
        by (auto simp: set_defs lookup_None modify_id dest: lookup_Some split: option.splits)
      have l1: "lookup dsp_id (clm_aggregate_id c) (dispatches s1) = Some dsp"
        using l by (simp add: s1)
      obtain e where
        a: "append_event E d 1 ''dispatch'' (dsp_id dsp) ''dispatch.delivery_failed''
          (''system:'' @ worker_id w) (clm_idempotency_key c)
          (PDict [(''outbox_message_id'', PStr (msg_id m)), (''attempts'', PInt (msg_attempts m)),
            (''error'', PStr (error_text exc))]) ?s3 = Inr (e, s')"
        using r unfolding l1 option.case s3 by (auto split: sum.split_asm)
      then show ?thesis
        using lookup_Some [OF l]
        by (elim append_event_elim, intro exI [of _ e]) (auto simp: s1 set_defs)
    qed
  qed
qed

section \<open>Records whose rows did not change\<close>

lemma flush_marks:
  "flush_message m (mark_published t reference m) m = mark_published t reference m"
  "flush_message m (mark_dead t err m) m = mark_dead t err m"
  "flush_message m (mark_retry t err delay m) m = mark_retry t err delay m"
  "flush_dispatch x (x\<lparr>dsp_adapter_reference := r, dsp_status := st\<rparr>) x =
     x\<lparr>dsp_adapter_reference := r, dsp_status := st\<rparr>"
  "flush_dispatch x (x\<lparr>dsp_status := st\<rparr>) x = x\<lparr>dsp_status := st\<rparr>"
  "flush_reservation y (y\<lparr>rsv_status := rst\<rparr>) y = y\<lparr>rsv_status := rst\<rparr>"
  by (simp_all add: flush_message_def flush_dispatch_def flush_reservation_def flushed_def mark_defs)

lemma modify_found:
  assumes "distinct (map key t)" "lookup key k t = Some r" "f r = g r"
  shows "modify key (key r) f t = modify key (key r) g t"
proof -
  have "x = r" if "x \<in> set t" "key x = key r" for x
    using assms(1) that lookup_Some [OF assms(2)] by (auto simp: distinct_map dest: inj_onD)
  with assms(3) show ?thesis by (auto simp: modify_def)
qed

lemma update_message_found:
  assumes "keys_ok s" "lookup msg_id k (messages s) = Some m" "f m = g m"
  shows "update_message E (msg_id m) f s = update_message E (msg_id m) g s"
proof -
  have "modify msg_id (msg_id m) f (messages s) = modify msg_id (msg_id m) g (messages s)"
    using assms by (intro modify_found [of msg_id]) (simp_all add: keys_ok_def)
  then show ?thesis by (simp add: update_message_def)
qed

lemma set_dispatch_found:
  assumes "keys_ok s" "lookup dsp_id k (dispatches s) = Some x" "f x = g x"
    and "dispatches s' = dispatches s"
  shows "set_dispatch (dsp_id x) f s' = set_dispatch (dsp_id x) g s'"
  using modify_found [of dsp_id "dispatches s" k x f g] assms by (simp add: set_dispatch_def keys_ok_def)

lemma set_reservation_found:
  assumes "keys_ok s" "lookup rsv_id k (reservations s) = Some x" "f x = g x"
    and "reservations s' = reservations s"
  shows "set_reservation (rsv_id x) f s' = set_reservation (rsv_id x) g s'"
  using modify_found [of rsv_id "reservations s" k x f g] assms by (simp add: set_reservation_def keys_ok_def)

lemma record_success_from_same:
  assumes k: "keys_ok s"
  shows "record_success_from E w d c reference s s = record_success E w d c reference s"
proof (cases "lookup msg_id (clm_id c) (messages s)")
  case (Some m)
  note u = update_message_found [OF k Some, of "flush_message m (mark_published (as_utc (now d 0)) reference m)"
      "mark_published (as_utc (now d 0)) reference" E, OF flush_marks(1)]
  have "set_dispatch (dsp_id x) (flush_dispatch x (x\<lparr>dsp_adapter_reference := Some reference, dsp_status := ISSUED\<rparr>)) s1 =
      set_dispatch (dsp_id x) (\<lambda>x. x\<lparr>dsp_adapter_reference := Some reference, dsp_status := ISSUED\<rparr>) s1"
    if "lookup dsp_id (clm_aggregate_id c) (dispatches s) = Some x" "s1 = s\<lparr>messages := ms\<rparr>" for x s1 ms
    by (rule set_dispatch_found [OF k that(1)]) (simp_all add: flush_marks that(2))
  moreover have "set_reservation (rsv_id y) (flush_reservation y (y\<lparr>rsv_status := DISPATCHED\<rparr>)) (set_dispatch i f s1) =
      set_reservation (rsv_id y) (\<lambda>y. y\<lparr>rsv_status := DISPATCHED\<rparr>) (set_dispatch i f s1)"
    if "lookup rsv_id q (reservations s) = Some y" "s1 = s\<lparr>messages := ms\<rparr>" for q y i f s1 ms
    by (rule set_reservation_found [OF k that(1)]) (simp_all add: flush_marks that(2) set_dispatch_def)
  ultimately show ?thesis
    by (simp add: record_success_from_def record_success_def Let_def transaction_def Some u
        split: option.split sum.split) (auto dest!: update_message_Inr)
qed (simp add: record_success_from_def record_success_def transaction_def Let_def)

lemma record_failure_from_same:
  assumes k: "keys_ok s"
  shows "record_failure_from E w d c exc s s = record_failure E w d c exc s"
proof (cases "lookup msg_id (clm_id c) (messages s)")
  case (Some m)
  note u = update_message_found [OF k Some, of "flush_message m (mark_dead (as_utc (now d 0)) (error_text exc) m)"
      "mark_dead (as_utc (now d 0)) (error_text exc)" E, OF flush_marks(2)]
  note v = update_message_found [OF k Some, of "flush_message m (mark_retry (as_utc (now d 0)) (error_text exc) n m)"
      "mark_retry (as_utc (now d 0)) (error_text exc) n" E for n, OF flush_marks(3)]
  have "set_dispatch (dsp_id x) (flush_dispatch x (x\<lparr>dsp_status := REJECTED\<rparr>)) s1 =
      set_dispatch (dsp_id x) (\<lambda>x. x\<lparr>dsp_status := REJECTED\<rparr>) s1"
    if "lookup dsp_id (clm_aggregate_id c) (dispatches s) = Some x" "s1 = s\<lparr>messages := ms\<rparr>" for x s1 ms
    by (rule set_dispatch_found [OF k that(1)]) (simp_all add: flush_marks that(2))
  moreover have "set_reservation (rsv_id y) (flush_reservation y (y\<lparr>rsv_status := RES_CANCELLED\<rparr>)) (set_dispatch i f s1) =
      set_reservation (rsv_id y) (\<lambda>y. y\<lparr>rsv_status := RES_CANCELLED\<rparr>) (set_dispatch i f s1)"
    if "lookup rsv_id q (reservations s) = Some y" "s1 = s\<lparr>messages := ms\<rparr>" for q y i f s1 ms
    by (rule set_reservation_found [OF k that(1)]) (simp_all add: flush_marks that(2) set_dispatch_def)
  moreover have "dispatches (s\<lparr>messages := ms\<rparr>) = dispatches s"
    "reservations (set_dispatch i f (s\<lparr>messages := ms\<rparr>)) = reservations s" for ms i f
    by (simp_all add: set_dispatch_def)
  ultimately show ?thesis
    by (simp add: record_failure_from_def record_failure_def Let_def transaction_def Some u v
        split: option.split sum.split) (auto dest!: update_message_Inr)
qed (simp add: record_failure_from_def record_failure_def transaction_def Let_def)

section \<open>The payload format\<close>

lemma payload_fields: "fst ` set (dispatch_payload sg) = VERSIONED_DISPATCH_FIELDS"
  by (auto simp: dispatch_payload_def VERSIONED_DISPATCH_FIELDS_def LEGACY_DISPATCH_FIELDS_def)

lemma payload_version: "map_of (dispatch_payload sg) ''schema_version'' = Some DISPATCH_PAYLOAD_VERSION"
  by (simp add: dispatch_payload_def)

lemma payload_field:
  "field (dispatch_payload sg) ''dispatch_id'' = sig_dispatch_id sg"
  "field (dispatch_payload sg) ''asset_external_id'' = sig_asset_external_id sg"
  "field (dispatch_payload sg) ''target_kw'' = dec_format (sig_target_kw sg)"
  "field (dispatch_payload sg) ''starts_at'' = isoformat (as_utc (sig_starts_at sg))"
  "field (dispatch_payload sg) ''ends_at'' = isoformat (as_utc (sig_ends_at sg))"
  by (simp_all add: dispatch_payload_def field_def)

text \<open>A signal as the worker reads it back: a plain decimal and UTC timestamps.\<close>

definition plain_signal :: "dispatch_signal \<Rightarrow> dispatch_signal" where
  "plain_signal sg = sg\<lparr>sig_target_kw := dec_plain (sig_target_kw sg),
     sig_starts_at := as_utc (sig_starts_at sg), sig_ends_at := as_utc (sig_ends_at sg)\<rparr>"

definition signal_ok :: "dispatch_signal \<Rightarrow> bool" where
  "signal_ok sg = (dt_ok (as_utc (sig_starts_at sg)) \<and> dt_ok (as_utc (sig_ends_at sg)))"

lemma dispatch_signal_payload:
  "signal_ok sg \<Longrightarrow> dispatch_signal (dispatch_payload sg) = Inr (plain_signal sg)"
  by (simp add: dispatch_signal_def payload_fields payload_version restore_signal_def payload_field
      dec_parse_format_plain iso.dec_enc signal_ok_def plain_signal_def Let_def)

interpretation payload: codec dispatch_payload dispatch_signal "\<lambda>sg. signal_ok sg \<and> plain_signal sg = sg"
  by unfold_locales (simp add: dispatch_signal_payload)

text \<open>Messages written before the payload had a version.\<close>

definition legacy_payload :: "dispatch_signal \<Rightarrow> (string \<times> string) list" where
  "legacy_payload sg = tl (dispatch_payload sg)"

lemma legacy_field: "k \<noteq> ''schema_version'' \<Longrightarrow> field (legacy_payload sg) k = field (dispatch_payload sg) k"
  by (simp add: legacy_payload_def field_def dispatch_payload_def)

lemma dispatch_signal_legacy:
  assumes "signal_ok sg"
  shows "dispatch_signal (legacy_payload sg) = Inr (plain_signal sg)"
proof -
  have f: "fst ` set (legacy_payload sg) = LEGACY_DISPATCH_FIELDS"
    by (auto simp: legacy_payload_def dispatch_payload_def LEGACY_DISPATCH_FIELDS_def)
  have "''schema_version'' \<notin> LEGACY_DISPATCH_FIELDS"
    by (simp add: LEGACY_DISPATCH_FIELDS_def)
  then have "LEGACY_DISPATCH_FIELDS \<noteq> VERSIONED_DISPATCH_FIELDS"
    unfolding VERSIONED_DISPATCH_FIELDS_def by blast
  with f have "dispatch_signal (legacy_payload sg) = restore_signal (legacy_payload sg)"
    unfolding dispatch_signal_def Let_def by simp
  also have "\<dots> = restore_signal (dispatch_payload sg)"
    unfolding restore_signal_def
      legacy_field [of "''target_kw''", simplified] legacy_field [of "''starts_at''", simplified]
      legacy_field [of "''ends_at''", simplified] legacy_field [of "''dispatch_id''", simplified]
      legacy_field [of "''asset_external_id''", simplified] ..
  also have "\<dots> = dispatch_signal (dispatch_payload sg)"
    by (simp add: dispatch_signal_def payload_fields payload_version)
  finally show ?thesis using assms by (simp add: dispatch_signal_payload)
qed

lemma dispatch_signal_shape:
  "dispatch_signal p = Inr sg \<Longrightarrow>
     fst ` set p = LEGACY_DISPATCH_FIELDS \<or>
     (fst ` set p = VERSIONED_DISPATCH_FIELDS \<and>
      map_of p ''schema_version'' = Some DISPATCH_PAYLOAD_VERSION)"
  by (auto simp: dispatch_signal_def Let_def split: if_splits)

section \<open>Backoff\<close>

definition worker_ok :: "worker \<Rightarrow> bool" where
  "worker_ok w = (1 \<le> max_attempts w \<and> 1 \<le> base_retry_seconds w \<and>
     base_retry_seconds w \<le> max_retry_seconds w \<and> 1 \<le> lease_seconds w)"

lemma make_worker_ok: "make_worker wid a b m l = Inr w \<Longrightarrow> worker_ok w"
  by (auto simp: make_worker_def worker_ok_def split: if_splits)

lemma retry_delay_bounds:
  assumes "worker_ok w"
  shows "base_retry_seconds w \<le> retry_delay w n \<and> retry_delay w n \<le> max_retry_seconds w"
proof -
  have "base_retry_seconds w * 1 \<le> base_retry_seconds w * 2 ^ nat (max 0 (n - 1))"
    using assms by (intro mult_left_mono) (simp_all add: worker_ok_def)
  with assms show ?thesis by (simp add: retry_delay_def worker_ok_def Let_def)
qed

lemma retry_delay_mono:
  assumes "worker_ok w" "m \<le> n"
  shows "retry_delay w m \<le> retry_delay w n"
proof -
  have "(2::int) ^ nat (max 0 (m - 1)) \<le> 2 ^ nat (max 0 (n - 1))"
    using assms(2) by (intro power_increasing) auto
  then have "base_retry_seconds w * 2 ^ nat (max 0 (m - 1)) \<le> base_retry_seconds w * 2 ^ nat (max 0 (n - 1))"
    using assms(1) by (intro mult_left_mono) (simp_all add: worker_ok_def)
  then show ?thesis by (simp add: retry_delay_def Let_def)
qed

lemma retry_delay_doubles:
  assumes "1 \<le> n" "retry_delay w (n + 1) < max_retry_seconds w"
  shows "retry_delay w (n + 1) = 2 * (base_retry_seconds w * 2 ^ nat (n - 1))"
proof -
  have "nat n = Suc (nat (n - 1))" using assms(1) by simp
  then have "(2::int) ^ nat n = 2 * 2 ^ nat (n - 1)" by simp
  with assms show ?thesis by (simp add: retry_delay_def Let_def max_def)
qed

section \<open>A batch\<close>

text \<open>What one batch counts: every attempt is published, retried, dead or overtaken.\<close>

lemma run_loop_counts:
  "run_loop E w publish ds k n acc s p = (Inr r, s', p') \<Longrightarrow>
     rr_attempted r \<le> rr_attempted acc + n \<and>
     rr_published acc \<le> rr_published r \<and>
     rr_published r + rr_retried r + rr_dead r + rr_attempted acc
       \<le> rr_published acc + rr_retried acc + rr_dead acc + rr_attempted r"
proof (induction n arbitrary: k acc s p)
  case (Suc n)
  show ?case
    using Suc.prems
    by (auto simp: Let_def split: prod.split_asm sum.split_asm option.split_asm if_split_asm dest!: Suc.IH)
qed simp

lemma run_once_counts:
  assumes "run_once E w publish ds limit s p = (Inr r, s', p')"
  shows "int (rr_attempted r) \<le> limit \<and>
     rr_published r + rr_retried r + rr_dead r \<le> rr_attempted r"
  using assms run_loop_counts [of E w publish ds 0 "nat limit" no_run s p r s' p']
  by (auto simp: run_once_def no_run_def split: if_splits)

context store_invariant
begin

lemma run_loop: "run_loop E w publish ds k n acc s p = (r, s', p') \<Longrightarrow> I s \<Longrightarrow> I s'"
proof (induction n arbitrary: k acc s p)
  case (Suc n)
  show ?case
    using Suc.prems
    by (auto simp: Let_def split: prod.split_asm sum.split_asm option.split_asm
        dest: Suc.IH claim_one record_failure record_success)
qed simp

lemma run_once: "run_once E w publish ds limit s p = (r, s', p') \<Longrightarrow> I s \<Longrightarrow> I s'"
  by (auto simp: run_once_def split: if_splits dest: run_loop)

end

section \<open>The snapshot\<close>

lemma filter_partition: "length (filter P xs) = length (filter (\<lambda>x. P x \<and> Q x) xs) + length (filter (\<lambda>x. P x \<and> \<not> Q x) xs)"
  by (induction xs) auto

lemma snapshot_total:
  "os_pending (snapshot t s) + os_processing (snapshot t s) + os_published (snapshot t s) +
     os_dead (snapshot t s) = length (messages s)"
proof -
  have "length (filter (\<lambda>m. msg_status m = PENDING) ms) + length (filter (\<lambda>m. msg_status m = PROCESSING) ms) +
      length (filter (\<lambda>m. msg_status m = PUBLISHED) ms) + length (filter (\<lambda>m. msg_status m = DEAD) ms) = length ms"
    for ms by (induction ms) (auto, metis outbox_status.exhaust)
  then show ?thesis by (simp add: snapshot_def Let_def)
qed

lemma snapshot_due: "os_due (snapshot t s) \<le> os_pending (snapshot t s)"
  using filter_partition [where P = "\<lambda>m. msg_status m = PENDING"
      and Q = "\<lambda>m. dt_le (msg_available_at m) t" and xs = "messages s"]
  by (simp add: snapshot_def Let_def)

lemma snapshot_age: "os_oldest_pending_age (snapshot t s) = None \<longleftrightarrow> os_pending (snapshot t s) = 0"
  by (auto simp: snapshot_def Let_def split: list.splits)

end
