(* ===== verification/Schemas.thy ===== *)
theory Schemas
  imports Models
begin

text \<open>
  \<open>schemas.py\<close>: the commands of the API and their validation, the \<open>Field\<close> constraints first and
  the model validator after them.  The text of a field error is pydantic's; only that a field is
  refused is modelled.  The locale \<open>validated\<close> is what the service may assume of a command.
\<close>

section \<open>Commands\<close>

record asset_create =
  ac_external_id :: string
  ac_owner_id :: string
  ac_asset_type :: asset_type
  ac_capacity_kw :: decimal
  ac_location_code :: string

record offer_create =
  oc_asset_id :: string
  oc_window_start :: datetime
  oc_window_end :: datetime
  oc_direction :: flex_direction
  oc_quantity_kw :: decimal
  oc_price_per_kwh :: decimal

record reservation_create =
  rc_quantity_kw :: decimal

record dispatch_create =
  dc_target_kw :: decimal
  dc_starts_at :: datetime
  dc_ends_at :: datetime

record meter_reading_create =
  mc_asset_id :: string
  mc_interval_start :: datetime
  mc_interval_end :: datetime
  mc_energy_kwh :: decimal
  mc_source :: string

section \<open>Fields\<close>

definition zero_dec :: decimal where
  "zero_dec = Dec False 0 0"

text \<open>\<open>max_digits=18, decimal_places=6\<close>: at most six decimal places and twelve whole digits.\<close>

definition digits_18_6 :: "decimal \<Rightarrow> bool" where
  "digits_18_6 d = (six_places d \<and> dec_less (Dec False (dcoef d) (dexp d)) (Dec False (10 ^ 12) 0))"

definition positive_field :: "decimal \<Rightarrow> bool" where
  "positive_field d = (dec_less zero_dec d \<and> digits_18_6 d)"

definition nonneg_field :: "decimal \<Rightarrow> bool" where
  "nonneg_field d = (dec_le zero_dec d \<and> digits_18_6 d)"

definition text_field :: "nat \<Rightarrow> nat \<Rightarrow> string \<Rightarrow> bool" where
  "text_field lo hi t = (lo \<le> length t \<and> length t \<le> hi)"

definition field_error :: pyexn where
  "field_error = ValueError ''field''"

section \<open>Validation\<close>

definition validate_asset :: "asset_create \<Rightarrow> asset_create result" where
  "validate_asset c =
     (if text_field 3 100 (ac_external_id c) \<and> text_field 3 100 (ac_owner_id c) \<and>
         positive_field (ac_capacity_kw c) \<and> text_field 2 80 (ac_location_code c)
      then Inr c else Inl field_error)"

definition validate_window ::
  "string \<Rightarrow> string \<Rightarrow> datetime \<Rightarrow> datetime \<Rightarrow> 'a \<Rightarrow> 'a result" where
  "validate_window naive order start stop c =
     (if tzoff start = None \<or> tzoff stop = None then Inl (ValueError naive)
      else if dt_le stop start then Inl (ValueError order)
      else Inr c)"

definition validate_offer :: "offer_create \<Rightarrow> offer_create result" where
  "validate_offer c =
     (if \<not> (positive_field (oc_quantity_kw c) \<and> nonneg_field (oc_price_per_kwh c))
      then Inl field_error
      else validate_window ''offer timestamps must include a timezone''
        ''window_end must be later than window_start'' (oc_window_start c) (oc_window_end c) c)"

definition validate_reservation :: "reservation_create \<Rightarrow> reservation_create result" where
  "validate_reservation c = (if positive_field (rc_quantity_kw c) then Inr c else Inl field_error)"

definition validate_dispatch :: "dispatch_create \<Rightarrow> dispatch_create result" where
  "validate_dispatch c =
     (if \<not> positive_field (dc_target_kw c) then Inl field_error
      else validate_window ''dispatch timestamps must include a timezone''
        ''ends_at must be later than starts_at'' (dc_starts_at c) (dc_ends_at c) c)"

definition validate_meter_reading :: "meter_reading_create \<Rightarrow> meter_reading_create result" where
  "validate_meter_reading c =
     (if \<not> (nonneg_field (mc_energy_kwh c) \<and> text_field 2 100 (mc_source c)) then Inl field_error
      else validate_window ''meter timestamps must include a timezone''
        ''interval_end must be later than interval_start'' (mc_interval_start c)
        (mc_interval_end c) c)"

lemmas validate_defs = validate_asset_def validate_offer_def validate_reservation_def
  validate_dispatch_def validate_meter_reading_def validate_window_def

section \<open>What validation establishes\<close>

lemma dec_val_zero [simp]: "dec_val zero_dec = 0"
  by (simp add: zero_dec_def dec_val_def dsig_def)

lemma positive_field_val:
  "positive_field d \<Longrightarrow> 0 < dec_val d \<and> dec_val (numeric6 d) = dec_val d"
  by (simp add: positive_field_def digits_18_6_def dec_val_numeric6 dec_less_val)

lemma nonneg_field_val:
  "nonneg_field d \<Longrightarrow> 0 \<le> dec_val d \<and> dec_val (numeric6 d) = dec_val d"
  by (simp add: nonneg_field_def digits_18_6_def dec_val_numeric6 dec_le_val)

text \<open>A validator returns the command it was given or raises; what it returns is admissible.\<close>

locale validated =
  fixes validate :: "'c \<Rightarrow> 'c result" and ok :: "'c \<Rightarrow> bool"
  assumes returns: "validate c = Inr c' \<Longrightarrow> c' = c \<and> ok c"
    and raises: "validate c = Inl e \<Longrightarrow> \<exists>m. e = ValueError m"
begin

lemma accepted: "validate c = Inr c' \<Longrightarrow> ok c'"
  using returns by blast

lemma idempotent: "validate c = Inr c' \<Longrightarrow> validate c' = Inr c'"
  using returns by blast

end

definition window_ok :: "datetime \<Rightarrow> datetime \<Rightarrow> bool" where
  "window_ok a b \<longleftrightarrow> tzoff a \<noteq> None \<and> tzoff b \<noteq> None \<and> instant a < instant b"

lemma validate_window_ok:
  "validate_window n r a b c = Inr c' \<longleftrightarrow> c' = c \<and> window_ok a b"
  by (auto simp: validate_window_def window_ok_def dt_le_def)

lemma validate_window_Inl: "validate_window n r a b c = Inl e \<Longrightarrow> \<exists>m. e = ValueError m"
  by (auto simp: validate_window_def split: if_splits)

interpretation val_asset: validated validate_asset
  "\<lambda>c. 0 < dec_val (ac_capacity_kw c) \<and> dec_val (numeric6 (ac_capacity_kw c)) = dec_val (ac_capacity_kw c)"
  by unfold_locales
    (auto simp: validate_asset_def field_error_def positive_field_val split: if_splits)

interpretation val_offer: validated validate_offer
  "\<lambda>c. window_ok (oc_window_start c) (oc_window_end c) \<and> 0 < dec_val (oc_quantity_kw c) \<and>
     dec_val (numeric6 (oc_quantity_kw c)) = dec_val (oc_quantity_kw c) \<and>
     0 \<le> dec_val (oc_price_per_kwh c) \<and>
     dec_val (numeric6 (oc_price_per_kwh c)) = dec_val (oc_price_per_kwh c)"
  by unfold_locales
    (auto simp: validate_offer_def field_error_def positive_field_val nonneg_field_val
      validate_window_ok split: if_splits dest!: validate_window_Inl)

interpretation val_reservation: validated validate_reservation
  "\<lambda>c. 0 < dec_val (rc_quantity_kw c) \<and> dec_val (numeric6 (rc_quantity_kw c)) = dec_val (rc_quantity_kw c)"
  by unfold_locales
    (auto simp: validate_reservation_def field_error_def positive_field_val split: if_splits)

interpretation val_dispatch: validated validate_dispatch
  "\<lambda>c. window_ok (dc_starts_at c) (dc_ends_at c) \<and> 0 < dec_val (dc_target_kw c) \<and>
     dec_val (numeric6 (dc_target_kw c)) = dec_val (dc_target_kw c)"
  by unfold_locales
    (auto simp: validate_dispatch_def field_error_def positive_field_val validate_window_ok
      split: if_splits dest!: validate_window_Inl)

interpretation val_reading: validated validate_meter_reading
  "\<lambda>c. window_ok (mc_interval_start c) (mc_interval_end c) \<and> 0 \<le> dec_val (mc_energy_kwh c) \<and>
     dec_val (numeric6 (mc_energy_kwh c)) = dec_val (mc_energy_kwh c)"
  by unfold_locales
    (auto simp: validate_meter_reading_def field_error_def nonneg_field_val validate_window_ok
      split: if_splits dest!: validate_window_Inl)

end
