(* ===== verification/Service.thy ===== *)
theory Service
  imports Outbox Schemas
begin

text \<open>
  \<open>service.py\<close>, \<open>CoordinationService\<close>: one definition per method.  A method checks the role, then
  runs its body as one transaction; \<open>draws\<close> number the identifiers and clock readings of the
  body in code order.  A method returns the resource as it left it in memory; the database holds
  its decimals at the scale of their columns.
\<close>

section \<open>Helpers\<close>

definition not_found :: "string \<Rightarrow> string \<Rightarrow> pyexn" where
  "not_found what i = NotFoundError (what @ '' '' @ squote @ i @ squote @ '' was not found.'')"

definition find_asset :: "string \<Rightarrow> db \<Rightarrow> asset result" where
  "find_asset i s = (case lookup ast_id i (assets s) of
     None \<Rightarrow> Inl (not_found ''Asset'' i) | Some a \<Rightarrow> Inr a)"

definition find_offer :: "string \<Rightarrow> db \<Rightarrow> flex_offer result" where
  "find_offer i s = (case lookup ofr_id i (offers s) of
     None \<Rightarrow> Inl (not_found ''Offer'' i) | Some a \<Rightarrow> Inr a)"

definition find_reservation :: "string \<Rightarrow> db \<Rightarrow> reservation result" where
  "find_reservation i s = (case lookup rsv_id i (reservations s) of
     None \<Rightarrow> Inl (not_found ''Reservation'' i) | Some a \<Rightarrow> Inr a)"

definition request_hash :: "env \<Rightarrow> pyval \<Rightarrow> string" where
  "request_hash E payload = sha256_json E payload"

text \<open>
  \<open>_idempotent_resource\<close>; \<open>get\<close> is \<open>session.get\<close> on the resource's table.
\<close>

definition idempotent_resource ::
  "string \<Rightarrow> string \<Rightarrow> string \<Rightarrow> (string \<Rightarrow> 'r option) \<Rightarrow> db \<Rightarrow> 'r option result" where
  "idempotent_resource operation key req get s =
     (if blank key then Inl (ConflictError ''Idempotency-Key cannot be blank.'')
      else case lookup (\<lambda>r. (idm_operation r, idm_key r)) (operation, key) (idem s) of
        None \<Rightarrow> Inr None
      | Some r \<Rightarrow>
          if idm_request_hash r \<noteq> req
          then Inl (ConflictError ''Idempotency-Key was already used with a different request.'')
          else case get (idm_resource_id r) of
            None \<Rightarrow> Inl (ConflictError ''Idempotency record points to a missing resource.'')
          | Some x \<Rightarrow> Inr (Some x))"

definition store_idempotency ::
  "env \<Rightarrow> draws \<Rightarrow> nat \<Rightarrow> string \<Rightarrow> string \<Rightarrow> string \<Rightarrow> string \<Rightarrow> string \<Rightarrow> db \<Rightarrow> db result" where
  "store_idempotency E d i operation key req resource_type resource_id s =
     insert_idem E \<lparr>idm_id = uuid d i, idm_operation = operation, idm_key = key,
       idm_request_hash = req, idm_resource_type = resource_type, idm_resource_id = resource_id,
       idm_response_snapshot = canonical_json (PDict [(''resource_id'', PStr resource_id)]),
       idm_created_at = now d i\<rparr> s"

section \<open>Assets and offers\<close>

definition register_asset_tx ::
  "env \<Rightarrow> draws \<Rightarrow> asset_create \<Rightarrow> actor \<Rightarrow> db \<Rightarrow> (asset \<times> db) result" where
  "register_asset_tx E d c a s =
     (case lookup ast_external_id (ac_external_id c) (assets s) of
        Some _ \<Rightarrow> Inl (ConflictError (''Asset external_id '' @ squote @ ac_external_id c @ squote @
          '' already exists.''))
      | None \<Rightarrow>
        (let asset = \<lparr>ast_id = uuid d 0, ast_external_id = ac_external_id c,
               ast_owner_id = ac_owner_id c, ast_type = ac_asset_type c,
               ast_capacity_kw = ac_capacity_kw c, ast_location_code = ac_location_code c,
               ast_status = ACTIVE, ast_created_at = now d 0\<rparr> in
         case insert_asset E asset s of Inl e \<Rightarrow> Inl e | Inr s1 \<Rightarrow>
         case append_event E d 2 ''asset'' (ast_id asset) ''asset.registered'' (actor_id a) (uuid d 1)
           (PDict [(''external_id'', PStr (ast_external_id asset)),
                   (''asset_type'', PStr (asset_type_value (ast_type asset))),
                   (''capacity_kw'', PDec (ast_capacity_kw asset)),
                   (''location_code'', PStr (ast_location_code asset))]) s1 of
           Inl e \<Rightarrow> Inl e
         | Inr (_, s2) \<Rightarrow> Inr (asset, s2)))"

definition register_asset ::
  "env \<Rightarrow> draws \<Rightarrow> asset_create \<Rightarrow> actor \<Rightarrow> db \<Rightarrow> asset result \<times> db" where
  "register_asset E d c a s =
     (case require_role a [ASSET_OWNER] of Inl e \<Rightarrow> (Inl e, s) | Inr _ \<Rightarrow>
      if ac_owner_id c \<noteq> actor_id a
      then (Inl (ForbiddenError ''An asset owner can register only their own asset.''), s)
      else transaction (register_asset_tx E d c a) s)"

definition create_offer_tx ::
  "env \<Rightarrow> draws \<Rightarrow> offer_create \<Rightarrow> actor \<Rightarrow> db \<Rightarrow> (flex_offer \<times> db) result" where
  "create_offer_tx E d c a s =
     (case find_asset (oc_asset_id c) s of Inl e \<Rightarrow> Inl e | Inr asset \<Rightarrow>
      if ast_owner_id asset \<noteq> actor_id a
      then Inl (ForbiddenError ''Only the asset owner can create its offer.'')
      else if ast_status asset \<noteq> ACTIVE
      then Inl (InvalidTransitionError ''A suspended asset cannot create an offer.'')
      else if dec_less (ast_capacity_kw asset) (oc_quantity_kw c)
      then Inl (ConflictError ''Offer quantity exceeds the registered capacity.'')
      else
        (let offer = \<lparr>ofr_id = uuid d 0, ofr_asset_id = ast_id asset,
               ofr_window_start = oc_window_start c, ofr_window_end = oc_window_end c,
               ofr_direction = oc_direction c, ofr_quantity_kw = oc_quantity_kw c,
               ofr_price_per_kwh = oc_price_per_kwh c, ofr_status = OPEN,
               ofr_created_by = actor_id a, ofr_created_at = now d 0\<rparr> in
         case insert_offer E offer s of Inl e \<Rightarrow> Inl e | Inr s1 \<Rightarrow>
         case append_event E d 2 ''offer'' (ofr_id offer) ''offer.created'' (actor_id a) (uuid d 1)
           (PDict [(''asset_id'', PStr (ast_id asset)),
                   (''direction'', PStr (direction_value (ofr_direction offer))),
                   (''quantity_kw'', PDec (ofr_quantity_kw offer)),
                   (''price_per_kwh'', PDec (ofr_price_per_kwh offer)),
                   (''window_start'', PTime (ofr_window_start offer)),
                   (''window_end'', PTime (ofr_window_end offer))]) s1 of
           Inl e \<Rightarrow> Inl e
         | Inr (_, s2) \<Rightarrow> Inr (offer, s2)))"

definition create_offer ::
  "env \<Rightarrow> draws \<Rightarrow> offer_create \<Rightarrow> actor \<Rightarrow> db \<Rightarrow> flex_offer result \<times> db" where
  "create_offer E d c a s =
     (case require_role a [ASSET_OWNER] of Inl e \<Rightarrow> (Inl e, s) | Inr _ \<Rightarrow>
      transaction (create_offer_tx E d c a) s)"

section \<open>Reservations\<close>

definition reserve_request :: "string \<Rightarrow> reservation_create \<Rightarrow> actor \<Rightarrow> pyval" where
  "reserve_request offer_id c a = PDict
     [(''offer_id'', PStr offer_id), (''quantity_kw'', PDec (rc_quantity_kw c)),
      (''actor_id'', PStr (actor_id a))]"

definition reserve_offer_tx ::
  "env \<Rightarrow> draws \<Rightarrow> string \<Rightarrow> reservation_create \<Rightarrow> actor \<Rightarrow> string \<Rightarrow> db \<Rightarrow> (reservation \<times> db) result" where
  "reserve_offer_tx E d offer_id c a key s =
     (let req = request_hash E (reserve_request offer_id c a) in
      case idempotent_resource ''reserve_offer'' key req
             (\<lambda>i. lookup rsv_id i (reservations s)) s of Inl e \<Rightarrow> Inl e
      | Inr (Some existing) \<Rightarrow> Inr (existing, s)
      | Inr None \<Rightarrow>
      case find_offer offer_id s of Inl e \<Rightarrow> Inl e | Inr offer \<Rightarrow>
      if ofr_status offer \<noteq> OPEN
      then Inl (InvalidTransitionError ''Only an open offer can be reserved.'')
      else if dec_less (ofr_quantity_kw offer) (rc_quantity_kw c)
      then Inl (ConflictError ''Reservation quantity exceeds the offer quantity.'')
      else
        (let rsv = \<lparr>rsv_id = uuid d 0, rsv_offer_id = ofr_id offer,
               rsv_quantity_kw = rc_quantity_kw c, rsv_status = RESERVED,
               rsv_requested_by = actor_id a, rsv_created_at = now d 0\<rparr>;
             s0 = set_offer (ofr_id offer) (\<lambda>x. x\<lparr>ofr_status := OFFER_RESERVED\<rparr>) s in
         case insert_reservation E rsv s0 of Inl e \<Rightarrow> Inl e | Inr s1 \<Rightarrow>
         case append_event E d 1 ''reservation'' (rsv_id rsv) ''offer.reserved'' (actor_id a) key
           (PDict [(''offer_id'', PStr (ofr_id offer)),
                   (''quantity_kw'', PDec (rsv_quantity_kw rsv))]) s1 of
           Inl e \<Rightarrow> Inl e
         | Inr (_, s2) \<Rightarrow>
         case store_idempotency E d 2 ''reserve_offer'' key req ''reservation'' (rsv_id rsv) s2 of
           Inl e \<Rightarrow> Inl e
         | Inr s3 \<Rightarrow> Inr (rsv, s3)))"

definition reserve_offer ::
  "env \<Rightarrow> draws \<Rightarrow> string \<Rightarrow> reservation_create \<Rightarrow> actor \<Rightarrow> string \<Rightarrow> db \<Rightarrow> reservation result \<times> db" where
  "reserve_offer E d offer_id c a key s =
     (case require_role a [MARKET_OPERATOR] of Inl e \<Rightarrow> (Inl e, s) | Inr _ \<Rightarrow>
      transaction (reserve_offer_tx E d offer_id c a key) s)"

section \<open>Dispatches\<close>

definition dispatch_request :: "env \<Rightarrow> string \<Rightarrow> dispatch_create \<Rightarrow> actor \<Rightarrow> pyval" where
  "dispatch_request E reservation_id c a = PDict
     [(''reservation_id'', PStr reservation_id),
      (''target_kw'', PStr (pyd_decimal E (dc_target_kw c))),
      (''starts_at'', PStr (pyd_time E (dc_starts_at c))),
      (''ends_at'', PStr (pyd_time E (dc_ends_at c))),
      (''actor_id'', PStr (actor_id a))]"

definition issue_dispatch_tx ::
  "env \<Rightarrow> draws \<Rightarrow> string \<Rightarrow> dispatch_create \<Rightarrow> actor \<Rightarrow> string \<Rightarrow> db \<Rightarrow> (dispatch \<times> db) result" where
  "issue_dispatch_tx E d reservation_id c a key s =
     (let req = request_hash E (dispatch_request E reservation_id c a) in
      case idempotent_resource ''issue_dispatch'' key req
             (\<lambda>i. lookup dsp_id i (dispatches s)) s of Inl e \<Rightarrow> Inl e
      | Inr (Some existing) \<Rightarrow> Inr (existing, s)
      | Inr None \<Rightarrow>
      case find_reservation reservation_id s of Inl e \<Rightarrow> Inl e | Inr rsv \<Rightarrow>
      if rsv_status rsv \<noteq> RESERVED
      then Inl (InvalidTransitionError ''Only a reserved reservation can be dispatched.'')
      else if dec_less (rsv_quantity_kw rsv) (dc_target_kw c)
      then Inl (ConflictError ''Dispatch target exceeds reserved capacity.'')
      else case find_offer (rsv_offer_id rsv) s of Inl e \<Rightarrow> Inl e | Inr offer \<Rightarrow>
      case find_asset (ofr_asset_id offer) s of Inl e \<Rightarrow> Inl e | Inr asset \<Rightarrow>
      if dt_less (as_utc (dc_starts_at c)) (as_utc (ofr_window_start offer)) \<or>
         dt_less (as_utc (ofr_window_end offer)) (as_utc (dc_ends_at c))
      then Inl (ConflictError ''Dispatch window must stay inside the offer window.'')
      else
        (let dsp = \<lparr>dsp_id = uuid d 0, dsp_reservation_id = rsv_id rsv,
               dsp_target_kw = dc_target_kw c, dsp_starts_at = dc_starts_at c,
               dsp_ends_at = dc_ends_at c, dsp_status = QUEUED, dsp_issued_by = actor_id a,
               dsp_adapter_reference = None, dsp_created_at = now d 0\<rparr> in
         case insert_dispatch E dsp s of Inl e \<Rightarrow> Inl e | Inr s1 \<Rightarrow>
         case enqueue_dispatch E d 1
             \<lparr>sig_dispatch_id = dsp_id dsp, sig_asset_external_id = ast_external_id asset,
              sig_target_kw = dsp_target_kw dsp, sig_starts_at = dsp_starts_at dsp,
              sig_ends_at = dsp_ends_at dsp\<rparr> key s1 of Inl e \<Rightarrow> Inl e
         | Inr (message, s2) \<Rightarrow>
           (let ref = Some (''outbox:'' @ msg_id message);
                s3 = set_dispatch (dsp_id dsp) (\<lambda>x. x\<lparr>dsp_adapter_reference := ref\<rparr>) s2;
                s4 = set_reservation (rsv_id rsv) (\<lambda>x. x\<lparr>rsv_status := DISPATCH_PENDING\<rparr>) s3 in
            case append_event E d 2 ''dispatch'' (dsp_id dsp) ''dispatch.queued'' (actor_id a) key
              (PDict [(''reservation_id'', PStr (rsv_id rsv)),
                      (''target_kw'', PDec (dsp_target_kw dsp)),
                      (''starts_at'', PTime (dsp_starts_at dsp)),
                      (''ends_at'', PTime (dsp_ends_at dsp)),
                      (''outbox_message_id'', PStr (msg_id message)),
                      (''delivery_status'', PStr ''queued'')]) s4 of
              Inl e \<Rightarrow> Inl e
            | Inr (_, s5) \<Rightarrow>
            case store_idempotency E d 3 ''issue_dispatch'' key req ''dispatch'' (dsp_id dsp) s5 of
              Inl e \<Rightarrow> Inl e
            | Inr s6 \<Rightarrow> Inr (dsp\<lparr>dsp_adapter_reference := ref\<rparr>, s6))))"

definition issue_dispatch ::
  "env \<Rightarrow> draws \<Rightarrow> string \<Rightarrow> dispatch_create \<Rightarrow> actor \<Rightarrow> string \<Rightarrow> db \<Rightarrow> dispatch result \<times> db" where
  "issue_dispatch E d reservation_id c a key s =
     (case require_role a [MARKET_OPERATOR] of Inl e \<Rightarrow> (Inl e, s) | Inr _ \<Rightarrow>
      transaction (issue_dispatch_tx E d reservation_id c a key) s)"

section \<open>Meter readings\<close>

definition reading_dump :: "env \<Rightarrow> meter_reading_create \<Rightarrow> pyval" where
  "reading_dump E c = PDict
     [(''asset_id'', PStr (mc_asset_id c)),
      (''interval_start'', PStr (pyd_time E (mc_interval_start c))),
      (''interval_end'', PStr (pyd_time E (mc_interval_end c))),
      (''energy_kwh'', PStr (pyd_decimal E (mc_energy_kwh c))),
      (''source'', PStr (mc_source c))]"

definition record_meter_reading_tx ::
  "env \<Rightarrow> draws \<Rightarrow> meter_reading_create \<Rightarrow> actor \<Rightarrow> db \<Rightarrow> (meter_reading \<times> db) result" where
  "record_meter_reading_tx E d c a s =
     (let fingerprint = request_hash E (reading_dump E c) in
      case find_asset (mc_asset_id c) s of Inl e \<Rightarrow> Inl e | Inr asset \<Rightarrow>
      if actor_role a = ASSET_OWNER \<and> ast_owner_id asset \<noteq> actor_id a
      then Inl (ForbiddenError ''An asset owner can submit only their own reading.'')
      else case lookup mtr_fingerprint fingerprint (readings s) of
        Some existing \<Rightarrow> Inr (existing, s)
      | None \<Rightarrow>
        (let reading = \<lparr>mtr_id = uuid d 0, mtr_asset_id = ast_id asset,
               mtr_interval_start = mc_interval_start c, mtr_interval_end = mc_interval_end c,
               mtr_energy_kwh = mc_energy_kwh c, mtr_source = mc_source c,
               mtr_fingerprint = fingerprint, mtr_recorded_by = actor_id a,
               mtr_received_at = now d 0\<rparr> in
         case insert_reading E reading s of Inl e \<Rightarrow> Inl e | Inr s1 \<Rightarrow>
         case append_event E d 1 ''meter_reading'' (mtr_id reading) ''meter_reading.recorded''
             (actor_id a) fingerprint
           (PDict [(''asset_id'', PStr (ast_id asset)),
                   (''interval_start'', PTime (mtr_interval_start reading)),
                   (''interval_end'', PTime (mtr_interval_end reading)),
                   (''energy_kwh'', PDec (mtr_energy_kwh reading)),
                   (''source'', PStr (mtr_source reading)),
                   (''fingerprint'', PStr (mtr_fingerprint reading))]) s1 of
           Inl e \<Rightarrow> Inl e
         | Inr (_, s2) \<Rightarrow> Inr (reading, s2)))"

definition record_meter_reading ::
  "env \<Rightarrow> draws \<Rightarrow> meter_reading_create \<Rightarrow> actor \<Rightarrow> db \<Rightarrow> meter_reading result \<times> db" where
  "record_meter_reading E d c a s =
     (case require_role a [ASSET_OWNER, SYSTEM] of Inl e \<Rightarrow> (Inl e, s) | Inr _ \<Rightarrow>
      transaction (record_meter_reading_tx E d c a) s)"

section \<open>Settlement\<close>

definition settle_request :: "string \<Rightarrow> actor \<Rightarrow> pyval" where
  "settle_request reservation_id a = PDict
     [(''reservation_id'', PStr reservation_id), (''actor_id'', PStr (actor_id a))]"

text \<open>The readings fully inside the dispatch window, in the order of the query.\<close>

definition window_readings :: "flex_offer \<Rightarrow> dispatch \<Rightarrow> db \<Rightarrow> meter_reading list" where
  "window_readings offer dsp s =
     sort_key (\<lambda>r. (instant (mtr_interval_start r), mtr_id r))
       (filter (\<lambda>r. mtr_asset_id r = ofr_asset_id offer \<and>
                    dt_le (dsp_starts_at dsp) (mtr_interval_start r) \<and>
                    dt_le (mtr_interval_end r) (dsp_ends_at dsp)) (readings s))"

text \<open>\<open>MONEY_QUANTUM = Decimal("0.000001")\<close>, by its exponent.\<close>

definition MONEY_QUANTUM :: int where
  "MONEY_QUANTUM = - 6"

definition delivered_energy :: "decimal list \<Rightarrow> decimal result" where
  "delivered_energy energies = dec_quantize ROUND_HALF_EVEN MONEY_QUANTUM (dec_sum energies)"

definition settlement_amount :: "decimal \<Rightarrow> decimal \<Rightarrow> decimal result" where
  "settlement_amount delivered price =
     dec_quantize ROUND_HALF_UP MONEY_QUANTUM (dec_mul delivered price)"

definition evidence_manifest ::
  "string \<Rightarrow> reservation \<Rightarrow> flex_offer \<Rightarrow> dispatch \<Rightarrow> meter_reading list \<Rightarrow> decimal \<Rightarrow> decimal \<Rightarrow>
    audit_event \<Rightarrow> pyval" where
  "evidence_manifest settlement_id rsv offer dsp rs delivered amount event = PDict
     [(''schema_version'', PStr ''1.0''),
      (''settlement_id'', PStr settlement_id),
      (''reservation_id'', PStr (rsv_id rsv)),
      (''offer_id'', PStr (ofr_id offer)),
      (''asset_id'', PStr (ofr_asset_id offer)),
      (''dispatch_id'', PStr (dsp_id dsp)),
      (''meter_reading_ids'', PList (map (\<lambda>r. PStr (mtr_id r)) rs)),
      (''delivered_kwh'', PStr (dec_format delivered)),
      (''price_per_kwh'', PStr (dec_format (ofr_price_per_kwh offer))),
      (''amount'', PStr (dec_format amount)),
      (''audit_event_id'', PStr (evt_id event)),
      (''audit_head_hash'', PStr (evt_hash event))]"

definition settle_reservation_tx ::
  "env \<Rightarrow> draws \<Rightarrow> string \<Rightarrow> actor \<Rightarrow> string \<Rightarrow> db \<Rightarrow> (settlement \<times> db) result" where
  "settle_reservation_tx E d reservation_id a key s =
     (let req = request_hash E (settle_request reservation_id a) in
      case idempotent_resource ''settle_reservation'' key req
             (\<lambda>i. lookup stl_id i (settlements s)) s of Inl e \<Rightarrow> Inl e
      | Inr (Some existing) \<Rightarrow> Inr (existing, s)
      | Inr None \<Rightarrow>
      case find_reservation reservation_id s of Inl e \<Rightarrow> Inl e | Inr rsv \<Rightarrow>
      if rsv_status rsv \<noteq> DISPATCHED
      then Inl (InvalidTransitionError ''Only a delivered dispatch can be settled.'')
      else case lookup dsp_reservation_id (rsv_id rsv) (dispatches s) of
        None \<Rightarrow> Inl (NotFoundError ''No dispatch exists for the reservation.'')
      | Some dsp \<Rightarrow>
      if dsp_status dsp \<noteq> ISSUED
      then Inl (InvalidTransitionError ''Settlement requires a successfully published dispatch.'')
      else if actor_id a \<in> {dsp_issued_by dsp, rsv_requested_by rsv}
      then Inl (ForbiddenError ''Settlement requires an actor separate from reservation and dispatch.'')
      else case find_offer (rsv_offer_id rsv) s of Inl e \<Rightarrow> Inl e | Inr offer \<Rightarrow>
      (let rs = window_readings offer dsp s in
      if rs = []
      then Inl (ConflictError ''Settlement requires at least one meter reading fully inside the dispatch window.'')
      else case delivered_energy (map mtr_energy_kwh rs) of Inl e \<Rightarrow> Inl e | Inr delivered \<Rightarrow>
      case settlement_amount delivered (ofr_price_per_kwh offer) of Inl e \<Rightarrow> Inl e | Inr amount \<Rightarrow>
        (let stl = \<lparr>stl_id = uuid d 0, stl_reservation_id = rsv_id rsv,
               stl_delivered_kwh = delivered, stl_price_per_kwh = ofr_price_per_kwh offer,
               stl_amount = amount, stl_evidence_manifest = PDict [], stl_evidence_hash = '''',
               stl_settled_by = actor_id a, stl_created_at = now d 0\<rparr> in
         case insert_settlement E stl s of Inl e \<Rightarrow> Inl e | Inr s1 \<Rightarrow>
         case append_event E d 1 ''settlement'' (stl_id stl) ''settlement.calculated'' (actor_id a) key
           (PDict [(''reservation_id'', PStr (rsv_id rsv)),
                   (''dispatch_id'', PStr (dsp_id dsp)),
                   (''meter_reading_ids'', PList (map (\<lambda>r. PStr (mtr_id r)) rs)),
                   (''delivered_kwh'', PDec delivered),
                   (''price_per_kwh'', PDec (ofr_price_per_kwh offer)),
                   (''amount'', PDec amount)]) s1 of
           Inl e \<Rightarrow> Inl e
         | Inr (event, s2) \<Rightarrow>
           (let manifest = evidence_manifest (stl_id stl) rsv offer dsp rs delivered amount event;
                fill = (\<lambda>x. x\<lparr>stl_evidence_manifest := manifest,
                              stl_evidence_hash := sha256_json E manifest\<rparr>);
                s3 = set_settlement (stl_id stl) fill s2;
                s4 = set_reservation (rsv_id rsv) (\<lambda>x. x\<lparr>rsv_status := RES_COMPLETED\<rparr>) s3;
                s5 = set_dispatch (dsp_id dsp) (\<lambda>x. x\<lparr>dsp_status := DSP_COMPLETED\<rparr>) s4 in
            case store_idempotency E d 2 ''settle_reservation'' key req ''settlement'' (stl_id stl) s5 of
              Inl e \<Rightarrow> Inl e
            | Inr s6 \<Rightarrow> Inr (fill stl, s6)))))"

definition settle_reservation ::
  "env \<Rightarrow> draws \<Rightarrow> string \<Rightarrow> actor \<Rightarrow> string \<Rightarrow> db \<Rightarrow> settlement result \<times> db" where
  "settle_reservation E d reservation_id a key s =
     (case require_role a [SETTLEMENT_ANALYST] of Inl e \<Rightarrow> (Inl e, s) | Inr _ \<Rightarrow>
      transaction (settle_reservation_tx E d reservation_id a key) s)"

section \<open>Queries\<close>

record evidence =
  ev_manifest :: pyval
  ev_evidence_hash :: string
  ev_hash_valid :: bool

definition settlement_evidence :: "env \<Rightarrow> string \<Rightarrow> actor \<Rightarrow> db \<Rightarrow> evidence result" where
  "settlement_evidence E settlement_id a s =
     (case require_role a [AUDITOR, MARKET_OPERATOR, SETTLEMENT_ANALYST] of Inl e \<Rightarrow> Inl e | Inr _ \<Rightarrow>
      case lookup stl_id settlement_id (settlements s) of
        None \<Rightarrow> Inl (not_found ''Settlement'' settlement_id)
      | Some x \<Rightarrow> Inr \<lparr>ev_manifest = stl_evidence_manifest x, ev_evidence_hash = stl_evidence_hash x,
          ev_hash_valid = (sha256_json E (stl_evidence_manifest x) = stl_evidence_hash x)\<rparr>)"

definition service_audit_verification :: "env \<Rightarrow> actor \<Rightarrow> db \<Rightarrow> audit_verification result" where
  "service_audit_verification E a s =
     (case require_role a [AUDITOR] of Inl e \<Rightarrow> Inl e | Inr _ \<Rightarrow> Inr (verify_chain E s))"

section \<open>Properties kept\<close>

context store_invariant
begin

lemma register_asset: "register_asset E d c a s = (r, s') \<Longrightarrow> I s \<Longrightarrow> I s'"
  unfolding register_asset_def
  by (simp split: sum.splits if_splits, erule atomic)
    (auto simp: register_asset_tx_def Let_def split: option.splits sum.splits if_splits,
      (erule writes)+)

lemma create_offer: "create_offer E d c a s = (r, s') \<Longrightarrow> I s \<Longrightarrow> I s'"
  unfolding create_offer_def
  by (simp split: sum.splits if_splits, erule atomic)
    (auto simp: create_offer_tx_def Let_def split: option.splits sum.splits if_splits,
      (erule writes)+)

lemma reserve_offer: "reserve_offer E d oid c a key s = (r, s') \<Longrightarrow> I s \<Longrightarrow> I s'"
  unfolding reserve_offer_def
  by (simp split: sum.splits if_splits, erule atomic)
    (auto simp: reserve_offer_tx_def store_idempotency_def Let_def
        split: option.splits sum.splits if_splits,
      (erule writes | rule assigns | simp add: keeps_defs)+)

lemma enqueue_dispatch: "enqueue_dispatch E d n sg key s = Inr (m, s') \<Longrightarrow> I s \<Longrightarrow> I s'"
  by (auto simp: enqueue_dispatch_def Let_def split: sum.splits if_splits elim: message)

lemma issue_dispatch: "issue_dispatch E d rid c a key s = (r, s') \<Longrightarrow> I s \<Longrightarrow> I s'"
  unfolding issue_dispatch_def
  by (simp split: sum.splits if_splits, erule atomic)
    (auto simp: issue_dispatch_tx_def store_idempotency_def Let_def
        split: option.splits sum.splits if_splits,
      (erule writes enqueue_dispatch | rule assigns | simp add: keeps_defs)+)

lemma record_meter_reading: "record_meter_reading E d c a s = (r, s') \<Longrightarrow> I s \<Longrightarrow> I s'"
  unfolding record_meter_reading_def
  by (simp split: sum.splits if_splits, erule atomic)
    (auto simp: record_meter_reading_tx_def Let_def split: option.splits sum.splits if_splits,
      (assumption | erule writes)+)

lemma settle_reservation: "settle_reservation E d rid a key s = (r, s') \<Longrightarrow> I s \<Longrightarrow> I s'"
  unfolding settle_reservation_def
  by (simp split: sum.splits if_splits, erule atomic)
    (auto simp: settle_reservation_tx_def store_idempotency_def Let_def
        split: option.splits sum.splits if_splits,
      (erule writes | rule assigns | simp add: keeps_defs)+)

end

section \<open>What each operation does\<close>

text \<open>A call replays when its key is on record; otherwise it is fresh.\<close>

definition idem_lookup :: "string \<Rightarrow> string \<Rightarrow> db \<Rightarrow> idempotency_record option" where
  "idem_lookup operation key s = lookup (\<lambda>r. (idm_operation r, idm_key r)) (operation, key) (idem s)"

lemma idempotent_fresh:
  "idempotent_resource op key req get s = Inr None \<longleftrightarrow> \<not> blank key \<and> idem_lookup op key s = None"
  by (auto simp: idempotent_resource_def idem_lookup_def split: option.splits if_splits)

lemma idempotent_replay:
  "idempotent_resource op key req get s = Inr (Some x) \<longleftrightarrow>
     \<not> blank key \<and> (\<exists>r. idem_lookup op key s = Some r \<and> idm_request_hash r = req \<and>
       get (idm_resource_id r) = Some x)"
  by (auto simp: idempotent_resource_def idem_lookup_def split: option.splits if_splits)

lemma find_Inr:
  "find_asset i s = Inr a \<longleftrightarrow> lookup ast_id i (assets s) = Some a"
  "find_offer i s = Inr f \<longleftrightarrow> lookup ofr_id i (offers s) = Some f"
  "find_reservation i s = Inr r \<longleftrightarrow> lookup rsv_id i (reservations s) = Some r"
  by (auto simp: find_asset_def find_offer_def find_reservation_def split: option.splits)

lemma store_idempotency_Inr:
  "store_idempotency E d i op key req ty rid s = Inr s' \<Longrightarrow>
     \<exists>r. s' = s\<lparr>idem := idem s @ [r]\<rparr> \<and> idm_operation r = op \<and> idm_key r = key \<and>
       idm_request_hash r = req \<and> idm_resource_id r = rid \<and> insert_idem E r s = Inr s'"
  unfolding store_idempotency_def
  by (rule exI, intro conjI) (auto simp: insert_defs constrained_ok)

lemma register_asset_elim:
  assumes "register_asset E d c a s = (Inr x, s')"
  obtains e where "actor_role a = ASSET_OWNER" "ac_owner_id c = actor_id a"
    "x = \<lparr>ast_id = uuid d 0, ast_external_id = ac_external_id c, ast_owner_id = ac_owner_id c,
       ast_type = ac_asset_type c, ast_capacity_kw = ac_capacity_kw c,
       ast_location_code = ac_location_code c, ast_status = ACTIVE, ast_created_at = now d 0\<rparr>"
    "ast_id x \<notin> ast_id ` set (assets s)" "ast_external_id x \<notin> ast_external_id ` set (assets s)"
    "s' = s\<lparr>assets := assets s @ [store_asset x], events := events s @ [e]\<rparr>"
    "evt_type e = ''asset.registered''" "evt_aggregate_id e = ast_id x" "evt_actor_id e = actor_id a"
proof -
  let ?x = "\<lparr>ast_id = uuid d 0, ast_external_id = ac_external_id c, ast_owner_id = ac_owner_id c,
       ast_type = ac_asset_type c, ast_capacity_kw = ac_capacity_kw c,
       ast_location_code = ac_location_code c, ast_status = ACTIVE, ast_created_at = now d 0\<rparr>"
  from assms obtain s1 e payload where g: "actor_role a = ASSET_OWNER" "ac_owner_id c = actor_id a"
    and x: "x = ?x" and i: "insert_asset E ?x s = Inr s1"
    and ap: "append_event E d 2 ''asset'' (uuid d 0) ''asset.registered'' (actor_id a) (uuid d 1)
      payload s1 = Inr (e, s')"
    unfolding register_asset_def register_asset_tx_def Let_def
    by (auto simp: transaction_Inr split: sum.split_asm option.split_asm if_split_asm)
  from i have "s1 = s\<lparr>assets := assets s @ [store_asset ?x]\<rparr>"
      "ast_id ?x \<notin> ast_id ` set (assets s)" "ast_external_id ?x \<notin> ast_external_id ` set (assets s)"
    by (auto simp: insert_asset_def constrained_ok)
  with g x ap show thesis by (elim append_event_elim, intro that [of e]) auto
qed

lemma create_offer_elim:
  assumes "create_offer E d c a s = (Inr x, s')"
  obtains ast e where "actor_role a = ASSET_OWNER"
    "lookup ast_id (oc_asset_id c) (assets s) = Some ast" "ast_owner_id ast = actor_id a"
    "ast_status ast = ACTIVE" "dec_val (oc_quantity_kw c) \<le> dec_val (ast_capacity_kw ast)"
    "x = \<lparr>ofr_id = uuid d 0, ofr_asset_id = oc_asset_id c, ofr_window_start = oc_window_start c,
       ofr_window_end = oc_window_end c, ofr_direction = oc_direction c,
       ofr_quantity_kw = oc_quantity_kw c, ofr_price_per_kwh = oc_price_per_kwh c,
       ofr_status = OPEN, ofr_created_by = actor_id a, ofr_created_at = now d 0\<rparr>"
    "ofr_id x \<notin> ofr_id ` set (offers s)"
    "s' = s\<lparr>offers := offers s @ [store_offer x], events := events s @ [e]\<rparr>"
    "evt_type e = ''offer.created''" "evt_aggregate_id e = ofr_id x" "evt_actor_id e = actor_id a"
proof -
  let ?x = "\<lparr>ofr_id = uuid d 0, ofr_asset_id = oc_asset_id c, ofr_window_start = oc_window_start c,
       ofr_window_end = oc_window_end c, ofr_direction = oc_direction c,
       ofr_quantity_kw = oc_quantity_kw c, ofr_price_per_kwh = oc_price_per_kwh c,
       ofr_status = OPEN, ofr_created_by = actor_id a, ofr_created_at = now d 0\<rparr>"
  from assms obtain ast s1 e payload where g: "actor_role a = ASSET_OWNER"
      "lookup ast_id (oc_asset_id c) (assets s) = Some ast" "ast_owner_id ast = actor_id a"
      "ast_status ast = ACTIVE" "dec_val (oc_quantity_kw c) \<le> dec_val (ast_capacity_kw ast)"
    and x: "x = ?x" and i: "insert_offer E ?x s = Inr s1"
    and ap: "append_event E d 2 ''offer'' (uuid d 0) ''offer.created'' (actor_id a) (uuid d 1)
      payload s1 = Inr (e, s')"
    unfolding create_offer_def create_offer_tx_def Let_def
    by (auto simp: transaction_Inr find_Inr dec_less_val not_less
        split: sum.split_asm option.split_asm if_split_asm dest: lookup_Some)
  from i have "s1 = s\<lparr>offers := offers s @ [store_offer ?x]\<rparr>" "ofr_id ?x \<notin> ofr_id ` set (offers s)"
    by (auto simp: insert_offer_def constrained_ok)
  with g x ap show thesis by (elim append_event_elim, intro that [of ast e]) auto
qed

abbreviation reserve_hash where
  "reserve_hash E offer_id c a \<equiv> request_hash E (reserve_request offer_id c a)"

lemma reserve_offer_replay:
  "idem_lookup ''reserve_offer'' key s = Some r \<Longrightarrow> reserve_offer E d oid c a key s = (Inr x, s') \<Longrightarrow>
     s' = s \<and> idm_request_hash r = reserve_hash E oid c a \<and>
     lookup rsv_id (idm_resource_id r) (reservations s) = Some x"
  unfolding reserve_offer_def reserve_offer_tx_def Let_def
  by (auto simp: transaction_Inr idempotent_replay idempotent_fresh
      split: sum.split_asm option.split_asm if_split_asm)

lemma reserve_offer_fresh:
  assumes "reserve_offer E d oid c a key s = (Inr x, s')" "idem_lookup ''reserve_offer'' key s = None"
  obtains ofr e i where "actor_role a = MARKET_OPERATOR" "\<not> blank key"
    "lookup ofr_id oid (offers s) = Some ofr" "ofr_status ofr = OPEN"
    "dec_val (rc_quantity_kw c) \<le> dec_val (ofr_quantity_kw ofr)"
    "x = \<lparr>rsv_id = uuid d 0, rsv_offer_id = oid, rsv_quantity_kw = rc_quantity_kw c,
       rsv_status = RESERVED, rsv_requested_by = actor_id a, rsv_created_at = now d 0\<rparr>"
    "rsv_id x \<notin> rsv_id ` set (reservations s)" "rsv_offer_id x \<notin> rsv_offer_id ` set (reservations s)"
    "s' = s\<lparr>offers := modify ofr_id oid (\<lambda>x. x\<lparr>ofr_status := OFFER_RESERVED\<rparr>) (offers s),
       reservations := reservations s @ [store_reservation x], events := events s @ [e],
       idem := idem s @ [i]\<rparr>"
    "evt_type e = ''offer.reserved''" "evt_aggregate_id e = rsv_id x" "evt_correlation_id e = key"
    "idm_operation i = ''reserve_offer''" "idm_key i = key"
    "idm_request_hash i = reserve_hash E oid c a" "idm_resource_id i = rsv_id x"
proof -
  let ?x = "\<lparr>rsv_id = uuid d 0, rsv_offer_id = oid, rsv_quantity_kw = rc_quantity_kw c,
       rsv_status = RESERVED, rsv_requested_by = actor_id a, rsv_created_at = now d 0\<rparr>"
  let ?s0 = "set_offer oid (\<lambda>x. x\<lparr>ofr_status := OFFER_RESERVED\<rparr>) s"
  from assms obtain ofr s1 s2 e payload where g: "actor_role a = MARKET_OPERATOR" "\<not> blank key"
      "lookup ofr_id oid (offers s) = Some ofr" "ofr_status ofr = OPEN"
      "dec_val (rc_quantity_kw c) \<le> dec_val (ofr_quantity_kw ofr)"
    and x: "x = ?x" and i: "insert_reservation E ?x ?s0 = Inr s1"
    and ap: "append_event E d 1 ''reservation'' (uuid d 0) ''offer.reserved'' (actor_id a) key
      payload s1 = Inr (e, s2)"
    and st: "store_idempotency E d 2 ''reserve_offer'' key (reserve_hash E oid c a)
      ''reservation'' (uuid d 0) s2 = Inr s'"
    unfolding reserve_offer_def reserve_offer_tx_def Let_def
    by (auto simp: transaction_Inr find_Inr idempotent_replay idempotent_fresh dec_less_val not_less
        split: sum.split_asm option.split_asm if_split_asm dest: lookup_Some)
  from i have s1: "s1 = ?s0\<lparr>reservations := reservations s @ [store_reservation ?x]\<rparr>"
      "rsv_id ?x \<notin> rsv_id ` set (reservations s)" "rsv_offer_id ?x \<notin> rsv_offer_id ` set (reservations s)"
    by (auto simp: insert_reservation_def constrained_ok set_offer_def)
  from store_idempotency_Inr [OF st] obtain r where "s' = s2\<lparr>idem := idem s2 @ [r]\<rparr>"
      "idm_operation r = ''reserve_offer''" "idm_key r = key"
      "idm_request_hash r = reserve_hash E oid c a" "idm_resource_id r = uuid d 0" by auto
  with g x ap s1 show thesis
    by (elim append_event_elim, intro that [where ofr = ofr and e = e and i = r]) (auto simp: set_offer_def)
qed

abbreviation dispatch_hash where
  "dispatch_hash E reservation_id c a \<equiv> request_hash E (dispatch_request E reservation_id c a)"

lemma issue_dispatch_replay:
  "idem_lookup ''issue_dispatch'' key s = Some r \<Longrightarrow> issue_dispatch E d rid c a key s = (Inr x, s') \<Longrightarrow>
     s' = s \<and> idm_request_hash r = dispatch_hash E rid c a \<and>
     lookup dsp_id (idm_resource_id r) (dispatches s) = Some x"
  unfolding issue_dispatch_def issue_dispatch_tx_def Let_def
  by (auto simp: transaction_Inr idempotent_replay idempotent_fresh
      split: sum.split_asm option.split_asm if_split_asm)

text \<open>The message an accepted dispatch leaves in the outbox.\<close>

definition new_message :: "draws \<Rightarrow> nat \<Rightarrow> dispatch_signal \<Rightarrow> string \<Rightarrow> outbox_message" where
  "new_message d i sg key = \<lparr>msg_id = uuid d i, msg_topic = DISPATCH_TOPIC,
     msg_aggregate_id = sig_dispatch_id sg, msg_idempotency_key = key,
     msg_payload = dispatch_payload sg, msg_status = PENDING, msg_attempts = 0,
     msg_available_at = now d i, msg_lease_expires_at = None, msg_locked_by = None,
     msg_adapter_reference = None, msg_last_error = None, msg_published_at = None,
     msg_created_at = now d i, msg_updated_at = now d i\<rparr>"

lemma enqueue_dispatch_Inr:
  "enqueue_dispatch E d i sg key s = Inr (m, s') \<longleftrightarrow>
     \<not> blank key \<and> m = new_message d i sg key \<and> insert_message E m s = Inr s'"
  by (auto simp: enqueue_dispatch_def new_message_def Let_def split: sum.splits)

lemma issue_dispatch_fresh:
  assumes "issue_dispatch E d rid c a key s = (Inr x, s')" "idem_lookup ''issue_dispatch'' key s = None"
  obtains rsv ofr ast m e i where "actor_role a = MARKET_OPERATOR" "\<not> blank key"
    "lookup rsv_id rid (reservations s) = Some rsv" "rsv_status rsv = RESERVED"
    "dec_val (dc_target_kw c) \<le> dec_val (rsv_quantity_kw rsv)"
    "lookup ofr_id (rsv_offer_id rsv) (offers s) = Some ofr"
    "lookup ast_id (ofr_asset_id ofr) (assets s) = Some ast"
    "instant (ofr_window_start ofr) \<le> instant (dc_starts_at c)"
    "instant (dc_ends_at c) \<le> instant (ofr_window_end ofr)"
    "x = \<lparr>dsp_id = uuid d 0, dsp_reservation_id = rid, dsp_target_kw = dc_target_kw c,
       dsp_starts_at = dc_starts_at c, dsp_ends_at = dc_ends_at c, dsp_status = QUEUED,
       dsp_issued_by = actor_id a, dsp_adapter_reference = Some (''outbox:'' @ msg_id m),
       dsp_created_at = now d 0\<rparr>"
    "dsp_id x \<notin> dsp_id ` set (dispatches s)"
    "dsp_reservation_id x \<notin> dsp_reservation_id ` set (dispatches s)"
    "m = new_message d 1 \<lparr>sig_dispatch_id = uuid d 0, sig_asset_external_id = ast_external_id ast,
       sig_target_kw = dc_target_kw c, sig_starts_at = dc_starts_at c, sig_ends_at = dc_ends_at c\<rparr> key"
    "msg_id m \<notin> msg_id ` set (messages s)"
    "s' = s\<lparr>dispatches := dispatches s @ [store_dispatch x],
       messages := messages s @ [m],
       reservations := modify rsv_id rid (\<lambda>x. x\<lparr>rsv_status := DISPATCH_PENDING\<rparr>) (reservations s),
       events := events s @ [e], idem := idem s @ [i]\<rparr>"
    "evt_type e = ''dispatch.queued''" "evt_aggregate_id e = dsp_id x" "evt_correlation_id e = key"
    "idm_operation i = ''issue_dispatch''" "idm_key i = key"
    "idm_request_hash i = dispatch_hash E rid c a" "idm_resource_id i = dsp_id x"
proof -
  let ?y = "\<lambda>r. \<lparr>dsp_id = uuid d 0, dsp_reservation_id = r, dsp_target_kw = dc_target_kw c,
       dsp_starts_at = dc_starts_at c, dsp_ends_at = dc_ends_at c, dsp_status = QUEUED,
       dsp_issued_by = actor_id a, dsp_adapter_reference = None, dsp_created_at = now d 0\<rparr>"
  let ?sg = "\<lambda>ast. \<lparr>sig_dispatch_id = uuid d 0, sig_asset_external_id = ast_external_id ast,
       sig_target_kw = dc_target_kw c, sig_starts_at = dc_starts_at c, sig_ends_at = dc_ends_at c\<rparr>"
  from assms obtain rsv ofr ast s1 m s2 s4 e payload where
      g: "actor_role a = MARKET_OPERATOR" "\<not> blank key"
      "lookup rsv_id rid (reservations s) = Some rsv" "rsv_status rsv = RESERVED"
      "dec_val (dc_target_kw c) \<le> dec_val (rsv_quantity_kw rsv)"
      "lookup ofr_id (rsv_offer_id rsv) (offers s) = Some ofr"
      "lookup ast_id (ofr_asset_id ofr) (assets s) = Some ast"
      "instant (ofr_window_start ofr) \<le> instant (dc_starts_at c)"
      "instant (dc_ends_at c) \<le> instant (ofr_window_end ofr)"
    and x: "x = (?y (rsv_id rsv))\<lparr>dsp_adapter_reference := Some (''outbox:'' @ msg_id m)\<rparr>"
    and i: "insert_dispatch E (?y (rsv_id rsv)) s = Inr s1"
    and q: "enqueue_dispatch E d 1 (?sg ast) key s1 = Inr (m, s2)"
    and ap: "append_event E d 2 ''dispatch'' (uuid d 0) ''dispatch.queued'' (actor_id a) key payload
      (set_reservation (rsv_id rsv) (\<lambda>x. x\<lparr>rsv_status := DISPATCH_PENDING\<rparr>)
        (set_dispatch (uuid d 0) (\<lambda>x. x\<lparr>dsp_adapter_reference := Some (''outbox:'' @ msg_id m)\<rparr>) s2))
      = Inr (e, s4)"
    and st: "store_idempotency E d 3 ''issue_dispatch'' key (dispatch_hash E rid c a)
      ''dispatch'' (uuid d 0) s4 = Inr s'"
    unfolding issue_dispatch_def issue_dispatch_tx_def Let_def
    by (auto simp: transaction_Inr find_Inr idempotent_replay idempotent_fresh dec_less_val
        dt_less_def not_less
        split: sum.split_asm option.split_asm if_split_asm)
  have rid: "rsv_id rsv = rid" using lookup_Some [OF g(3)] by simp
  from i have s1: "s1 = s\<lparr>dispatches := dispatches s @ [store_dispatch (?y rid)]\<rparr>"
      "uuid d 0 \<notin> dsp_id ` set (dispatches s)" "rid \<notin> dsp_reservation_id ` set (dispatches s)"
    by (auto simp: insert_dispatch_def constrained_ok rid)
  from q have m: "m = new_message d 1 (?sg ast) key" "s2 = s1\<lparr>messages := messages s @ [m]\<rparr>"
      "msg_id m \<notin> msg_id ` set (messages s)"
    by (auto simp: enqueue_dispatch_Inr insert_message_def constrained_ok s1)
  from store_idempotency_Inr [OF st] obtain r where "s' = s4\<lparr>idem := idem s4 @ [r]\<rparr>"
      "idm_operation r = ''issue_dispatch''" "idm_key r = key"
      "idm_request_hash r = dispatch_hash E rid c a" "idm_resource_id r = uuid d 0" by auto
  moreover have "modify dsp_id (uuid d 0) f (dispatches s @ [store_dispatch (?y rid)]) =
      dispatches s @ [f (store_dispatch (?y rid))]" for f
    using modify_id [OF s1(2)] by (simp add: modify_def store_dispatch_def)
  ultimately show thesis
    using g x ap s1 m rid
    by (elim append_event_elim,
        intro that [where rsv = rsv and ofr = ofr and ast = ast and m = m and e = e and i = r])
      (auto simp: set_defs store_dispatch_def)
qed

lemma reading_elim:
  assumes "record_meter_reading E d c a s = (Inr x, s')"
  obtains (replay) "s' = s" "x \<in> set (readings s)" "mtr_fingerprint x = request_hash E (reading_dump E c)"
  | (fresh) ast e where "actor_role a \<in> {ASSET_OWNER, SYSTEM}"
    "lookup ast_id (mc_asset_id c) (assets s) = Some ast"
    "actor_role a = ASSET_OWNER \<Longrightarrow> ast_owner_id ast = actor_id a"
    "x = \<lparr>mtr_id = uuid d 0, mtr_asset_id = mc_asset_id c, mtr_interval_start = mc_interval_start c,
       mtr_interval_end = mc_interval_end c, mtr_energy_kwh = mc_energy_kwh c,
       mtr_source = mc_source c, mtr_fingerprint = request_hash E (reading_dump E c),
       mtr_recorded_by = actor_id a, mtr_received_at = now d 0\<rparr>"
    "mtr_fingerprint x \<notin> mtr_fingerprint ` set (readings s)"
    "s' = s\<lparr>readings := readings s @ [store_reading x], events := events s @ [e]\<rparr>"
    "evt_type e = ''meter_reading.recorded''" "evt_aggregate_id e = mtr_id x"
proof -
  let ?fp = "request_hash E (reading_dump E c)"
  let ?x = "\<lambda>i. \<lparr>mtr_id = uuid d 0, mtr_asset_id = i, mtr_interval_start = mc_interval_start c,
       mtr_interval_end = mc_interval_end c, mtr_energy_kwh = mc_energy_kwh c,
       mtr_source = mc_source c, mtr_fingerprint = ?fp,
       mtr_recorded_by = actor_id a, mtr_received_at = now d 0\<rparr>"
  show thesis
  proof (cases "lookup mtr_fingerprint ?fp (readings s)")
    case (Some y)
    with assms have "s' = s" "x = y"
      unfolding record_meter_reading_def record_meter_reading_tx_def Let_def
      by (auto simp: transaction_Inr split: sum.split_asm if_split_asm)
    with lookup_Some [OF Some] show thesis by (intro replay) auto
  next
    case None
    with assms obtain ast s1 e payload where g: "actor_role a \<in> {ASSET_OWNER, SYSTEM}"
        "lookup ast_id (mc_asset_id c) (assets s) = Some ast"
        "actor_role a = ASSET_OWNER \<longrightarrow> ast_owner_id ast = actor_id a"
      and x: "x = ?x (ast_id ast)" and i: "insert_reading E (?x (ast_id ast)) s = Inr s1"
      and ap: "append_event E d 1 ''meter_reading'' (uuid d 0) ''meter_reading.recorded''
        (actor_id a) ?fp payload s1 = Inr (e, s')"
      unfolding record_meter_reading_def record_meter_reading_tx_def Let_def
      by (auto simp: transaction_Inr find_Inr split: sum.split_asm option.split_asm if_split_asm)
    have "ast_id ast = mc_asset_id c" using lookup_Some [OF g(2)] by simp
    moreover have "s1 = s\<lparr>readings := readings s @ [store_reading (?x (ast_id ast))]\<rparr>"
      using i by (simp add: insert_reading_def constrained_ok)
    ultimately show thesis
      using g x ap None by (elim append_event_elim, intro fresh [of ast e]) (auto simp: lookup_None)
  qed
qed

abbreviation settle_hash where
  "settle_hash E reservation_id a \<equiv> request_hash E (settle_request reservation_id a)"

lemma settle_reservation_replay:
  "idem_lookup ''settle_reservation'' key s = Some r \<Longrightarrow>
     settle_reservation E d rid a key s = (Inr x, s') \<Longrightarrow>
     s' = s \<and> idm_request_hash r = settle_hash E rid a \<and>
     lookup stl_id (idm_resource_id r) (settlements s) = Some x"
  unfolding settle_reservation_def settle_reservation_tx_def Let_def
  by (auto simp: transaction_Inr idempotent_replay idempotent_fresh
      split: sum.split_asm option.split_asm if_split_asm)

lemma settle_reservation_fresh:
  assumes "settle_reservation E d rid a key s = (Inr x, s')"
    and "idem_lookup ''settle_reservation'' key s = None"
  obtains rsv dsp ofr e i where "actor_role a = SETTLEMENT_ANALYST" "\<not> blank key"
    "lookup rsv_id rid (reservations s) = Some rsv" "rsv_status rsv = DISPATCHED"
    "lookup dsp_reservation_id rid (dispatches s) = Some dsp" "dsp_status dsp = ISSUED"
    "actor_id a \<noteq> dsp_issued_by dsp" "actor_id a \<noteq> rsv_requested_by rsv"
    "lookup ofr_id (rsv_offer_id rsv) (offers s) = Some ofr"
    "window_readings ofr dsp s \<noteq> []"
    "delivered_energy (map mtr_energy_kwh (window_readings ofr dsp s)) = Inr (stl_delivered_kwh x)"
    "settlement_amount (stl_delivered_kwh x) (ofr_price_per_kwh ofr) = Inr (stl_amount x)"
    "stl_id x = uuid d 0" "stl_reservation_id x = rid" "stl_settled_by x = actor_id a"
    "stl_price_per_kwh x = ofr_price_per_kwh ofr"
    "stl_evidence_manifest x = evidence_manifest (uuid d 0) rsv ofr dsp (window_readings ofr dsp s)
       (stl_delivered_kwh x) (stl_amount x) e"
    "stl_evidence_hash x = sha256_json E (stl_evidence_manifest x)"
    "stl_id x \<notin> stl_id ` set (settlements s)"
    "stl_reservation_id x \<notin> stl_reservation_id ` set (settlements s)"
    "s' = s\<lparr>dispatches := modify dsp_id (dsp_id dsp) (\<lambda>x. x\<lparr>dsp_status := DSP_COMPLETED\<rparr>) (dispatches s),
       reservations := modify rsv_id rid (\<lambda>x. x\<lparr>rsv_status := RES_COMPLETED\<rparr>) (reservations s),
       settlements := settlements s @ [store_settlement x],
       events := events s @ [e], idem := idem s @ [i]\<rparr>"
    "evt_type e = ''settlement.calculated''" "evt_aggregate_id e = stl_id x" "evt_correlation_id e = key"
    "evt_hash e = calculate_event_hash E e"
    "idm_operation i = ''settle_reservation''" "idm_key i = key"
    "idm_request_hash i = settle_hash E rid a" "idm_resource_id i = stl_id x"
proof -
  let ?y = "\<lambda>r ofr delivered amount man h. \<lparr>stl_id = uuid d 0, stl_reservation_id = r,
     stl_delivered_kwh = delivered, stl_price_per_kwh = ofr_price_per_kwh ofr, stl_amount = amount,
     stl_evidence_manifest = man, stl_evidence_hash = h, stl_settled_by = actor_id a,
     stl_created_at = now d 0\<rparr>"
  let ?fill = "\<lambda>man. (\<lambda>x. x\<lparr>stl_evidence_manifest := man, stl_evidence_hash := sha256_json E man\<rparr>)"
  from assms obtain rsv dsp ofr delivered amount man s1 s2 e payload where
      g: "actor_role a = SETTLEMENT_ANALYST" "\<not> blank key"
      "lookup rsv_id rid (reservations s) = Some rsv" "rsv_status rsv = DISPATCHED"
      "lookup dsp_reservation_id (rsv_id rsv) (dispatches s) = Some dsp" "dsp_status dsp = ISSUED"
      "actor_id a \<noteq> dsp_issued_by dsp" "actor_id a \<noteq> rsv_requested_by rsv"
      "lookup ofr_id (rsv_offer_id rsv) (offers s) = Some ofr"
      "window_readings ofr dsp s \<noteq> []"
      "delivered_energy (map mtr_energy_kwh (window_readings ofr dsp s)) = Inr delivered"
      "settlement_amount delivered (ofr_price_per_kwh ofr) = Inr amount"
    and man: "man = evidence_manifest (uuid d 0) rsv ofr dsp (window_readings ofr dsp s) delivered amount e"
    and x: "x = ?fill man (?y (rsv_id rsv) ofr delivered amount (PDict []) '''')"
    and i: "insert_settlement E (?y (rsv_id rsv) ofr delivered amount (PDict []) '''') s = Inr s1"
    and ap: "append_event E d 1 ''settlement'' (uuid d 0) ''settlement.calculated'' (actor_id a) key
      payload s1 = Inr (e, s2)"
    and st: "store_idempotency E d 2 ''settle_reservation'' key (settle_hash E rid a) ''settlement''
      (uuid d 0) (set_dispatch (dsp_id dsp) (\<lambda>x. x\<lparr>dsp_status := DSP_COMPLETED\<rparr>)
        (set_reservation (rsv_id rsv) (\<lambda>x. x\<lparr>rsv_status := RES_COMPLETED\<rparr>)
          (set_settlement (uuid d 0) (?fill man) s2))) = Inr s'"
    unfolding settle_reservation_def settle_reservation_tx_def Let_def
    by (auto simp: transaction_Inr find_Inr idempotent_replay idempotent_fresh
        split: sum.split_asm option.split_asm if_split_asm)
  have rid: "rsv_id rsv = rid" using lookup_Some [OF g(3)] by simp
  from i have s1: "s1 = s\<lparr>settlements := settlements s @
        [store_settlement (?y rid ofr delivered amount (PDict []) '''')]\<rparr>"
      "uuid d 0 \<notin> stl_id ` set (settlements s)" "rid \<notin> stl_reservation_id ` set (settlements s)"
    by (auto simp: insert_settlement_def constrained_ok rid)
  from store_idempotency_Inr [OF st] obtain r where "s' = (set_dispatch (dsp_id dsp)
        (\<lambda>x. x\<lparr>dsp_status := DSP_COMPLETED\<rparr>) (set_reservation (rsv_id rsv)
          (\<lambda>x. x\<lparr>rsv_status := RES_COMPLETED\<rparr>) (set_settlement (uuid d 0) (?fill man) s2)))
        \<lparr>idem := idem s2 @ [r]\<rparr>"
      "idm_operation r = ''settle_reservation''" "idm_key r = key"
      "idm_request_hash r = settle_hash E rid a" "idm_resource_id r = uuid d 0"
    by (auto simp: set_defs)
  moreover have "modify stl_id (uuid d 0) f (settlements s @ [store_settlement (?y rid ofr delivered amount m h)]) =
      settlements s @ [f (store_settlement (?y rid ofr delivered amount m h))]" for f m h
    using modify_id [OF s1(2)] by (simp add: modify_def store_settlement_def)
  ultimately show thesis
    using g x ap s1 rid man
    by (elim append_event_elim,
        intro that [where rsv = rsv and ofr = ofr and dsp = dsp and e = e and i = r])
      (auto simp: set_defs store_settlement_def)
qed

end
