(* ===== verification/Redrive.thy ===== *)
theory Redrive
  imports Outbox
begin

text \<open>
  \<open>redrive.py\<close>: the authorized return of one dead dispatch message, with its dispatch and
  reservation, to the pending path.
\<close>

record redrive_authorization =
  ra_message_id :: string
  ra_dispatch_id :: string
  ra_idempotency_key :: string
  ra_previous_attempts :: int
  ra_status :: outbox_status

definition MIN_REASON :: nat where
  "MIN_REASON = 12"

definition rearm :: "datetime \<Rightarrow> outbox_message \<Rightarrow> outbox_message" where
  "rearm t m = m\<lparr>msg_status := PENDING, msg_attempts := 0, msg_available_at := t,
     msg_lease_expires_at := None, msg_locked_by := None, msg_adapter_reference := None,
     msg_last_error := None, msg_published_at := None, msg_updated_at := t\<rparr>"

definition redrive_tx ::
  "env \<Rightarrow> draws \<Rightarrow> actor \<Rightarrow> string \<Rightarrow> string \<Rightarrow> string \<Rightarrow> db \<Rightarrow> (redrive_authorization \<times> db) result" where
  "redrive_tx E d a message_id dispatch_id reason s =
     (case lookup msg_id message_id (messages s) of
        None \<Rightarrow> Inl (NotFoundError (''Outbox message '' @ squote @ message_id @ squote @ '' was not found.''))
      | Some m \<Rightarrow>
      if msg_topic m \<noteq> DISPATCH_TOPIC
      then Inl (ConflictError ''Only dispatch outbox messages can be re-driven here.'')
      else if msg_aggregate_id m \<noteq> dispatch_id
      then Inl (ConflictError ''Outbox message and dispatch identifiers do not match.'')
      else if msg_status m \<noteq> DEAD
      then Inl (InvalidTransitionError ''Only a terminal dead message can be re-driven.'')
      else case lookup dsp_id dispatch_id (dispatches s) of
        None \<Rightarrow> Inl (NotFoundError (''Dispatch '' @ squote @ dispatch_id @ squote @ '' was not found.''))
      | Some dsp \<Rightarrow>
      case lookup rsv_id (dsp_reservation_id dsp) (reservations s) of
        None \<Rightarrow> Inl (NotFoundError (''Reservation '' @ squote @ dsp_reservation_id dsp @ squote @
          '' was not found.''))
      | Some rsv \<Rightarrow>
      if dsp_status dsp \<noteq> REJECTED
      then Inl (InvalidTransitionError ''Re-drive requires the dispatch to be in rejected state.'')
      else if rsv_status rsv \<noteq> RES_CANCELLED
      then Inl (InvalidTransitionError ''Re-drive requires the reservation to be in cancelled state.'')
      else
        (let previous_error = (case msg_last_error m of None \<Rightarrow> '''' | Some x \<Rightarrow> x);
             t = now d 0 in
         case update_message E (msg_id m) (rearm t) s of Inl e \<Rightarrow> Inl e | Inr s1 \<Rightarrow>
           (let s2 = set_dispatch (dsp_id dsp) (\<lambda>x. x\<lparr>dsp_status := QUEUED,
                       dsp_adapter_reference := Some (''outbox:'' @ msg_id m)\<rparr>) s1;
                s3 = set_reservation (rsv_id rsv) (\<lambda>x. x\<lparr>rsv_status := DISPATCH_PENDING\<rparr>) s2 in
            case append_event E d 1 ''dispatch'' (dsp_id dsp) ''dispatch.redrive_authorized''
              (actor_id a) (msg_idempotency_key m)
              (PDict [(''outbox_message_id'', PStr (msg_id m)),
                      (''reason'', PStr (squash reason)),
                      (''previous_attempts'', PInt (msg_attempts m)),
                      (''previous_error_sha256'', PStr (sha256 E previous_error)),
                      (''idempotency_key_reused'', PBool True)]) s3 of
              Inl e \<Rightarrow> Inl e
            | Inr (_, s4) \<Rightarrow>
                Inr (\<lparr>ra_message_id = msg_id m, ra_dispatch_id = dsp_id dsp,
                      ra_idempotency_key = msg_idempotency_key m,
                      ra_previous_attempts = msg_attempts m, ra_status = PENDING\<rparr>, s4))))"

definition authorize_redrive ::
  "env \<Rightarrow> draws \<Rightarrow> actor \<Rightarrow> string \<Rightarrow> string \<Rightarrow> string \<Rightarrow> db \<Rightarrow> redrive_authorization result \<times> db" where
  "authorize_redrive E d a message_id dispatch_id reason s =
     (case require_role a [RECOVERY_OPERATOR] of Inl e \<Rightarrow> (Inl e, s) | Inr _ \<Rightarrow>
      if length (squash reason) < MIN_REASON
      then (Inl (ValueError ''A specific re-drive reason of at least 12 characters is required.''), s)
      else transaction (redrive_tx E d a message_id dispatch_id reason) s)"

section \<open>Properties kept\<close>

context store_invariant
begin

lemma authorize_redrive: "authorize_redrive E d a mid did reason s = (r, s') \<Longrightarrow> I s \<Longrightarrow> I s'"
  unfolding authorize_redrive_def
  by (simp split: sum.splits if_splits, erule atomic)
    (auto simp: redrive_tx_def Let_def split: option.splits sum.splits if_splits,
      (erule writes | rule assigns | simp add: keeps_defs rearm_def)+)

end

section \<open>What an authorized re-drive does\<close>

lemma authorize_redrive_elim:
  assumes "authorize_redrive E d a mid did reason s = (Inr x, s')"
  obtains m dsp rsv e where "actor_role a = RECOVERY_OPERATOR" "MIN_REASON \<le> length (squash reason)"
    "lookup msg_id mid (messages s) = Some m" "msg_aggregate_id m = did" "msg_status m = DEAD"
    "lookup dsp_id did (dispatches s) = Some dsp" "dsp_status dsp = REJECTED"
    "lookup rsv_id (dsp_reservation_id dsp) (reservations s) = Some rsv"
    "rsv_status rsv = RES_CANCELLED"
    "x = \<lparr>ra_message_id = mid, ra_dispatch_id = did, ra_idempotency_key = msg_idempotency_key m,
       ra_previous_attempts = msg_attempts m, ra_status = PENDING\<rparr>"
    "s' = s\<lparr>messages := modify msg_id mid (rearm (now d 0)) (messages s),
       dispatches := modify dsp_id did (\<lambda>x. x\<lparr>dsp_status := QUEUED,
         dsp_adapter_reference := Some (''outbox:'' @ mid)\<rparr>) (dispatches s),
       reservations := modify rsv_id (dsp_reservation_id dsp)
         (\<lambda>x. x\<lparr>rsv_status := DISPATCH_PENDING\<rparr>) (reservations s),
       events := events s @ [e]\<rparr>"
    "evt_type e = ''dispatch.redrive_authorized''" "evt_aggregate_id e = did"
    "evt_correlation_id e = msg_idempotency_key m" "evt_actor_id e = actor_id a"
proof -
  from assms obtain m dsp rsv s1 e payload where
      g: "actor_role a = RECOVERY_OPERATOR" "MIN_REASON \<le> length (squash reason)"
      "lookup msg_id mid (messages s) = Some m" "msg_aggregate_id m = did" "msg_status m = DEAD"
      "lookup dsp_id did (dispatches s) = Some dsp" "dsp_status dsp = REJECTED"
      "lookup rsv_id (dsp_reservation_id dsp) (reservations s) = Some rsv"
      "rsv_status rsv = RES_CANCELLED"
    and x: "x = \<lparr>ra_message_id = msg_id m, ra_dispatch_id = dsp_id dsp,
       ra_idempotency_key = msg_idempotency_key m,
       ra_previous_attempts = msg_attempts m, ra_status = PENDING\<rparr>"
    and u: "update_message E (msg_id m) (rearm (now d 0)) s = Inr s1"
    and ap: "append_event E d 1 ''dispatch'' (dsp_id dsp) ''dispatch.redrive_authorized'' (actor_id a)
      (msg_idempotency_key m) payload
      (set_reservation (rsv_id rsv) (\<lambda>x. x\<lparr>rsv_status := DISPATCH_PENDING\<rparr>)
        (set_dispatch (dsp_id dsp) (\<lambda>x. x\<lparr>dsp_status := QUEUED,
          dsp_adapter_reference := Some (''outbox:'' @ msg_id m)\<rparr>) s1)) = Inr (e, s')"
    unfolding authorize_redrive_def redrive_tx_def Let_def
    by (auto simp: transaction_Inr not_less split: sum.split_asm option.split_asm if_split_asm)
  have ids: "msg_id m = mid" "dsp_id dsp = did" "rsv_id rsv = dsp_reservation_id dsp"
    using lookup_Some g by metis+
  then show thesis
    using g x ap update_message_Inr [OF u]
    by (elim append_event_elim, intro that [where m = m and dsp = dsp and rsv = rsv and e = e])
      (auto simp: set_defs)
qed

lemma authorize_redrive_Inl: "authorize_redrive E d a mid did reason s = (Inl e, s') \<Longrightarrow> s' = s"
  unfolding authorize_redrive_def
  by (auto simp: transaction_Inl split: sum.split_asm if_split_asm)

end
