(* ===== verification/Lifecycle.thy ===== *)
theory Lifecycle
  imports Service Redrive
begin

text \<open>
  The life of a reservation across components: which statuses an outbox message, its dispatch
  and its reservation can have together, which statuses go with an existing dispatch or
  settlement, and that every operation of the service, the worker and the re-drive keeps it so.
\<close>

section \<open>The coupled statuses\<close>

fun phase :: "outbox_status \<Rightarrow> dispatch_status \<Rightarrow> reservation_status \<Rightarrow> bool" where
  "phase PENDING QUEUED DISPATCH_PENDING = True"
| "phase PROCESSING QUEUED DISPATCH_PENDING = True"
| "phase PUBLISHED ISSUED DISPATCHED = True"
| "phase PUBLISHED DSP_COMPLETED RES_COMPLETED = True"
| "phase DEAD REJECTED RES_CANCELLED = True"
| "phase _ _ _ = False"

definition message_ok :: "db \<Rightarrow> outbox_message \<Rightarrow> bool" where
  "message_ok s m \<longleftrightarrow> msg_topic m = DISPATCH_TOPIC \<and>
     (msg_locked_by m = None \<longleftrightarrow> msg_status m \<noteq> PROCESSING) \<and>
     (\<exists>d\<in>set (dispatches s). \<exists>r\<in>set (reservations s).
        dsp_id d = msg_aggregate_id m \<and> rsv_id r = dsp_reservation_id d \<and>
        phase (msg_status m) (dsp_status d) (rsv_status r))"

definition reservation_ok :: "db \<Rightarrow> reservation \<Rightarrow> bool" where
  "reservation_ok s r \<longleftrightarrow>
     (rsv_status r = RESERVED \<longleftrightarrow> rsv_id r \<notin> dsp_reservation_id ` set (dispatches s)) \<and>
     (rsv_status r = RES_COMPLETED \<longleftrightarrow> rsv_id r \<in> stl_reservation_id ` set (settlements s))"

definition offer_ok :: "db \<Rightarrow> flex_offer \<Rightarrow> bool" where
  "offer_ok s f \<longleftrightarrow> ofr_status f =
     (if ofr_id f \<in> rsv_offer_id ` set (reservations s) then OFFER_RESERVED else OPEN)"

definition lifecycle_ok :: "db \<Rightarrow> bool" where
  "lifecycle_ok s \<longleftrightarrow>
     (\<forall>m\<in>set (messages s). message_ok s m) \<and>
     (\<forall>r\<in>set (reservations s). reservation_ok s r) \<and>
     (\<forall>f\<in>set (offers s). offer_ok s f) \<and>
     distinct (map msg_aggregate_id (messages s)) \<and>
     dsp_id ` set (dispatches s) = msg_aggregate_id ` set (messages s)"

lemmas ok_defs = message_ok_def reservation_ok_def offer_ok_def

lemma lifecycle_ok_empty [simp]: "lifecycle_ok empty_db"
  by (simp add: lifecycle_ok_def empty_db_def)

lemma lifecycle_message:
  assumes "lifecycle_ok s" "m \<in> set (messages s)"
  obtains d r where "d \<in> set (dispatches s)" "r \<in> set (reservations s)"
    "dsp_id d = msg_aggregate_id m" "rsv_id r = dsp_reservation_id d"
    "phase (msg_status m) (dsp_status d) (rsv_status r)"
    "msg_topic m = DISPATCH_TOPIC" "msg_locked_by m = None \<longleftrightarrow> msg_status m \<noteq> PROCESSING"
proof -
  have "message_ok s m" using assms by (simp add: lifecycle_ok_def)
  then show thesis unfolding message_ok_def by (elim conjE bexE) (rule that)
qed

text \<open>What the invariant says of one message, with its dispatch and reservation.\<close>

lemma message_linked:
  assumes "lifecycle_ok s" "keys_ok s" "m \<in> set (messages s)"
    and "lookup dsp_id (msg_aggregate_id m) (dispatches s) = Some d"
    and "lookup rsv_id (dsp_reservation_id d) (reservations s) = Some r"
  shows "phase (msg_status m) (dsp_status d) (rsv_status r)"
proof -
  from assms(1,3) obtain d' r' where "d' \<in> set (dispatches s)" "r' \<in> set (reservations s)"
      "dsp_id d' = msg_aggregate_id m" "rsv_id r' = dsp_reservation_id d'"
      "phase (msg_status m) (dsp_status d') (rsv_status r')"
    by (rule lifecycle_message)
  moreover have k: "distinct (map dsp_id (dispatches s))" "distinct (map rsv_id (reservations s))"
    using assms(2) by (simp_all add: keys_ok_def)
  moreover from calculation have "d' = d"
    using lookup_Some [OF assms(4)] keyed_unique [OF k(1)] by simp
  moreover from calculation have "r' = r"
    using lookup_Some [OF assms(5)] keyed_unique [OF k(2)] by simp
  ultimately show ?thesis by simp
qed

lemma message_dispatch:
  assumes "lifecycle_ok s" "refs_ok s" "m \<in> set (messages s)"
  obtains d r where "lookup dsp_id (msg_aggregate_id m) (dispatches s) = Some d"
    "lookup rsv_id (dsp_reservation_id d) (reservations s) = Some r"
proof -
  from assms have "lookup dsp_id (msg_aggregate_id m) (dispatches s) \<noteq> None"
    by (simp add: lookup_None lifecycle_ok_def)
  then obtain d where d: "lookup dsp_id (msg_aggregate_id m) (dispatches s) = Some d" by blast
  with assms(2) have "lookup rsv_id (dsp_reservation_id d) (reservations s) \<noteq> None"
    using lookup_Some [OF d] by (simp add: lookup_None refs_ok_def)
  with d that show thesis by blast
qed

section \<open>One step of one reservation\<close>

text \<open>
  A message, its dispatch and its reservation move together; nothing else changes status.  The
  claim, both records of the worker, the re-drive and the settlement are such moves.
\<close>

lemma message_move:
  assumes ok: "lifecycle_ok s" "keys_ok s"
    and rows: "m0 \<in> set (messages s)" "d0 \<in> set (dispatches s)" "r0 \<in> set (reservations s)"
      "dsp_id d0 = msg_aggregate_id m0" "rsv_id r0 = dsp_reservation_id d0"
    and keeps: "keeps_message f" "keeps_dispatch g" "keeps_reservation h"
    and new: "phase (msg_status (f m0)) (dsp_status (g d0)) (rsv_status (h r0))"
      "msg_locked_by (f m0) = None \<longleftrightarrow> msg_status (f m0) \<noteq> PROCESSING"
    and tables: "messages s' = modify msg_id (msg_id m0) f (messages s)"
      "dispatches s' = modify dsp_id (dsp_id d0) g (dispatches s)"
      "reservations s' = modify rsv_id (rsv_id r0) h (reservations s)"
    and m': "m' \<in> set (messages s')"
  shows "message_ok s' m'"
proof -
  from m' obtain m where m: "m \<in> set (messages s)" "m' = (if msg_id m = msg_id m0 then f m else m)"
    unfolding tables in_modify by blast
  from ok(1) m(1) obtain d r where dr: "d \<in> set (dispatches s)" "r \<in> set (reservations s)"
      "dsp_id d = msg_aggregate_id m" "rsv_id r = dsp_reservation_id d"
      "phase (msg_status m) (dsp_status d) (rsv_status r)"
    and mm: "msg_topic m = DISPATCH_TOPIC" "msg_locked_by m = None \<longleftrightarrow> msg_status m \<noteq> PROCESSING"
    by (rule lifecycle_message)
  show ?thesis
  proof (cases "msg_id m = msg_id m0")
    case True
    have "distinct (map msg_id (messages s))" using ok(2) by (simp add: keys_ok_def)
    then have "m = m0" using m(1) rows(1) True by (rule keyed_unique)
    with mm m(2) keeps(1) have "m' = f m0" "msg_topic m' = DISPATCH_TOPIC"
      "msg_aggregate_id m' = msg_aggregate_id m0" by (simp_all add: keeps_defs)
    moreover have "g d0 \<in> set (dispatches s')" "h r0 \<in> set (reservations s')"
      using rows unfolding tables by (simp_all add: modify_same)
    moreover have "dsp_id (g d0) = msg_aggregate_id m0" "rsv_id (h r0) = dsp_reservation_id (g d0)"
      using rows(4,5) keeps by (simp_all add: keeps_defs)
    ultimately show ?thesis using new unfolding message_ok_def by metis
  next
    case False
    have "msg_aggregate_id m \<noteq> msg_aggregate_id m0"
      using ok(1) m(1) rows(1) False keyed_unique unfolding lifecycle_ok_def by metis
    then have d: "dsp_id d \<noteq> dsp_id d0" using dr rows by simp
    then have "dsp_reservation_id d \<noteq> dsp_reservation_id d0"
      using ok(2) dr rows keyed_unique unfolding keys_ok_def by metis
    then have "rsv_id r \<noteq> rsv_id r0" using dr rows by simp
    with d have "d \<in> set (dispatches s')" "r \<in> set (reservations s')"
      using dr unfolding tables by (simp_all add: modify_other)
    with dr mm m(2) False show ?thesis unfolding message_ok_def by auto
  qed
qed

lemma reservation_move:
  assumes ok: "lifecycle_ok s" "keys_ok s"
    and rows: "d0 \<in> set (dispatches s)" "r0 \<in> set (reservations s)" "rsv_id r0 = dsp_reservation_id d0"
    and keeps: "keeps_dispatch g" "keeps_reservation h"
    and new: "rsv_status (h r0) \<noteq> RESERVED"
    and tables: "dispatches s' = modify dsp_id (dsp_id d0) g (dispatches s)"
      "reservations s' = modify rsv_id (rsv_id r0) h (reservations s)"
    and settled: "stl_reservation_id ` set (settlements s') = stl_reservation_id ` set (settlements s) \<union>
        (if rsv_status (h r0) = RES_COMPLETED then {rsv_id r0} else {})"
      "rsv_status (h r0) \<noteq> RES_COMPLETED \<Longrightarrow> rsv_status r0 \<noteq> RES_COMPLETED"
    and r': "r' \<in> set (reservations s')"
  shows "reservation_ok s' r'"
proof -
  from r' obtain r where r: "r \<in> set (reservations s)" "r' = (if rsv_id r = rsv_id r0 then h r else r)"
    unfolding tables in_modify by blast
  have old: "reservation_ok s r" "reservation_ok s r0"
    using ok(1) r(1) rows(2) by (auto simp: lifecycle_ok_def)
  have i: "dsp_reservation_id ` set (dispatches s') = dsp_reservation_id ` set (dispatches s)"
    unfolding tables using keeps(1) by (intro image_modify) (simp add: keeps_defs)
  show ?thesis
  proof (cases "rsv_id r = rsv_id r0")
    case True
    have "distinct (map rsv_id (reservations s))" using ok(2) by (simp add: keys_ok_def)
    then have "r = r0" using r(1) rows(2) True by (rule keyed_unique)
    with r(2) True keeps(2) have r': "r' = h r0" "rsv_id (h r0) = rsv_id r0"
      by (simp_all add: keeps_defs)
    have "rsv_id r0 \<in> dsp_reservation_id ` set (dispatches s)" using rows by auto
    then show ?thesis
      using new settled(2) old(2) unfolding reservation_ok_def r' i settled(1) by auto
  next
    case False
    with r old(1) show ?thesis unfolding reservation_ok_def i settled(1) by auto
  qed
qed

lemma phase_not_reserved: "phase a b c \<Longrightarrow> c \<noteq> RESERVED"
  by (cases a; cases b; cases c; simp)

lemma lifecycle_move:
  assumes "lifecycle_ok s" "keys_ok s"
    and "m0 \<in> set (messages s)" "d0 \<in> set (dispatches s)" "r0 \<in> set (reservations s)"
      "dsp_id d0 = msg_aggregate_id m0" "rsv_id r0 = dsp_reservation_id d0"
    and keeps: "keeps_message f" "keeps_dispatch g" "keeps_reservation h"
    and new: "phase (msg_status (f m0)) (dsp_status (g d0)) (rsv_status (h r0))"
      "msg_locked_by (f m0) = None \<longleftrightarrow> msg_status (f m0) \<noteq> PROCESSING"
    and tables: "messages s' = modify msg_id (msg_id m0) f (messages s)"
      "dispatches s' = modify dsp_id (dsp_id d0) g (dispatches s)"
      "reservations s' = modify rsv_id (rsv_id r0) h (reservations s)" "offers s' = offers s"
    and settled: "stl_reservation_id ` set (settlements s') = stl_reservation_id ` set (settlements s) \<union>
        (if rsv_status (h r0) = RES_COMPLETED then {rsv_id r0} else {})"
      "rsv_status (h r0) \<noteq> RES_COMPLETED \<Longrightarrow> rsv_status r0 \<noteq> RES_COMPLETED"
  shows "lifecycle_ok s'"
proof -
  have "\<forall>m\<in>set (messages s'). message_ok s' m"
    using message_move [OF assms(1-7) keeps new tables(1-3)] by blast
  moreover have "\<forall>r\<in>set (reservations s'). reservation_ok s' r"
    using reservation_move [OF assms(1,2,4,5,7) keeps(2,3) phase_not_reserved [OF new(1)] tables(2,3)
        settled] by blast
  moreover have "rsv_offer_id ` set (reservations s') = rsv_offer_id ` set (reservations s)"
    unfolding tables using keeps(3) by (intro image_modify) (simp add: keeps_defs)
  then have "\<forall>f\<in>set (offers s'). offer_ok s' f"
    using assms(1) unfolding lifecycle_ok_def offer_ok_def tables by simp
  moreover have "map msg_aggregate_id (messages s') = map msg_aggregate_id (messages s)"
    unfolding tables using keeps(1) by (intro map_modify) (simp add: keeps_defs)
  moreover have "dsp_id ` set (dispatches s') = dsp_id ` set (dispatches s)"
    unfolding tables using keeps(2) by (intro image_modify) (simp add: keeps_defs)
  moreover have "msg_aggregate_id ` set (messages s') = msg_aggregate_id ` set (messages s)"
    unfolding tables using keeps(1) by (intro image_modify) (simp add: keeps_defs)
  ultimately show ?thesis using assms(1) unfolding lifecycle_ok_def by metis
qed

section \<open>Every operation keeps the statuses coupled\<close>

lemma modify_ident [simp]: "modify key k (\<lambda>x. x) t = t"
  by (simp add: modify_def)

lemma lifecycle_ok_frame:
  "lifecycle_ok s \<Longrightarrow> messages s' = messages s \<Longrightarrow> dispatches s' = dispatches s \<Longrightarrow>
     reservations s' = reservations s \<Longrightarrow> offers s' = offers s \<Longrightarrow> settlements s' = settlements s \<Longrightarrow>
     lifecycle_ok s'"
  by (simp add: lifecycle_ok_def ok_defs)

lemma message_ok_mono:
  "message_ok s m \<Longrightarrow> set (dispatches s) \<subseteq> set (dispatches s') \<Longrightarrow>
     set (reservations s) \<subseteq> set (reservations s') \<Longrightarrow> message_ok s' m"
  unfolding message_ok_def by blast

lemma lifecycle_register_asset:
  "register_asset E d c a s = (Inr x, s') \<Longrightarrow> lifecycle_ok s \<Longrightarrow> lifecycle_ok s'"
  by (erule register_asset_elim, erule lifecycle_ok_frame) simp_all

lemma lifecycle_reading:
  "record_meter_reading E d c a s = (Inr x, s') \<Longrightarrow> lifecycle_ok s \<Longrightarrow> lifecycle_ok s'"
  by (erule reading_elim; erule lifecycle_ok_frame) simp_all

lemma lifecycle_create_offer:
  assumes "create_offer E d c a s = (Inr x, s')" "lifecycle_ok s" "refs_ok s"
  shows "lifecycle_ok s'"
  using assms(1)
proof (rule create_offer_elim)
  fix e :: audit_event
  assume x: "x = \<lparr>ofr_id = uuid d 0, ofr_asset_id = oc_asset_id c, ofr_window_start = oc_window_start c,
       ofr_window_end = oc_window_end c, ofr_direction = oc_direction c,
       ofr_quantity_kw = oc_quantity_kw c, ofr_price_per_kwh = oc_price_per_kwh c,
       ofr_status = OPEN, ofr_created_by = actor_id a, ofr_created_at = now d 0\<rparr>"
    and fresh: "ofr_id x \<notin> ofr_id ` set (offers s)"
    and s': "s' = s\<lparr>offers := offers s @ [store_offer x], events := events s @ [e]\<rparr>"
  have "ofr_id x \<notin> rsv_offer_id ` set (reservations s)"
    using assms(3) fresh by (auto simp: refs_ok_def)
  with x have "offer_ok s (store_offer x)" by (simp add: offer_ok_def store_offer_def)
  with assms(2) show ?thesis by (simp add: s' lifecycle_ok_def ok_defs)
qed

lemma lifecycle_reserve:
  assumes "reserve_offer E d oid c a key s = (Inr x, s')" "idem_lookup ''reserve_offer'' key s = None"
    and ok: "lifecycle_ok s" "refs_ok s" "keys_ok s"
  shows "lifecycle_ok s'"
  using assms(1,2)
proof (rule reserve_offer_fresh)
  fix e :: audit_event and i :: idempotency_record
  assume x: "x = \<lparr>rsv_id = uuid d 0, rsv_offer_id = oid, rsv_quantity_kw = rc_quantity_kw c,
       rsv_status = RESERVED, rsv_requested_by = actor_id a, rsv_created_at = now d 0\<rparr>"
    and fresh: "rsv_id x \<notin> rsv_id ` set (reservations s)" "rsv_offer_id x \<notin> rsv_offer_id ` set (reservations s)"
    and s': "s' = s\<lparr>offers := modify ofr_id oid (\<lambda>x. x\<lparr>ofr_status := OFFER_RESERVED\<rparr>) (offers s),
       reservations := reservations s @ [store_reservation x], events := events s @ [e],
       idem := idem s @ [i]\<rparr>"
  have m: "message_ok s' m" if "m \<in> set (messages s)" for m
    by (rule message_ok_mono [of s]) (use ok(1) that in \<open>auto simp: lifecycle_ok_def s'\<close>)
  have new: "rsv_id x \<notin> dsp_reservation_id ` set (dispatches s)"
      "rsv_id x \<notin> stl_reservation_id ` set (settlements s)"
    using ok(2) fresh by (auto simp: refs_ok_def)
  have "reservation_ok s' r" if "r \<in> set (reservations s')" for r
    using ok(1) that new x unfolding lifecycle_ok_def s' reservation_ok_def
    by (auto simp: store_reservation_def)
  moreover have "offer_ok s' f" if "f \<in> set (offers s')" for f
  proof -
    from that obtain f0 where f0: "f0 \<in> set (offers s)"
        "f = (if ofr_id f0 = oid then f0\<lparr>ofr_status := OFFER_RESERVED\<rparr> else f0)"
      unfolding s' by (auto simp: in_modify)
    with ok(1) have "offer_ok s f0" by (simp add: lifecycle_ok_def)
    with f0(2) x show ?thesis
      by (cases "ofr_id f0 = oid") (simp_all add: offer_ok_def s' store_reservation_def)
  qed
  moreover have "\<forall>m\<in>set (messages s'). message_ok s' m" using m by (simp add: s')
  ultimately show ?thesis using ok(1) unfolding lifecycle_ok_def by (simp add: s')
qed

text \<open>The claim a worker holds is of a message that still carries the claimed data.\<close>

definition claim_ok :: "db \<Rightarrow> claimed_message \<Rightarrow> bool" where
  "claim_ok s c \<longleftrightarrow> (\<forall>m\<in>set (messages s). msg_id m = clm_id c \<longrightarrow>
     msg_aggregate_id m = clm_aggregate_id c \<and> msg_idempotency_key m = clm_idempotency_key c \<and>
     msg_payload m = clm_payload c)"

lemma lifecycle_claim:
  assumes "claim_one E w d s = (Inr (Some c), s')" "lifecycle_ok s" "keys_ok s"
  shows "lifecycle_ok s'"
  using assms(1)
proof (rule claim_one_elim)
  fix m :: outbox_message
  let ?f = "mark_claimed (as_utc (now d 0)) w (worker_id w @ '':'' @ uuid d 0)"
  assume m: "m \<in> set (messages s)" "claimable (as_utc (now d 0)) m"
    and s': "s' = s\<lparr>messages := modify msg_id (msg_id m) ?f (messages s)\<rparr>"
  from assms(2) m(1) obtain d r where dr: "d \<in> set (dispatches s)" "r \<in> set (reservations s)"
      "dsp_id d = msg_aggregate_id m" "rsv_id r = dsp_reservation_id d"
      and p: "phase (msg_status m) (dsp_status d) (rsv_status r)"
    by (rule lifecycle_message)
  from m(2) have st: "msg_status m \<in> {PENDING, PROCESSING}" by (auto simp: claimable_def)
  have p': "phase PROCESSING (dsp_status d) (rsv_status r)" "rsv_status r \<noteq> RES_COMPLETED"
    using st p by (cases "dsp_status d"; cases "rsv_status r"; auto)+
  show ?thesis
    by (rule lifecycle_move [OF assms(2,3) m(1) dr, where f = ?f and g = "\<lambda>x. x" and h = "\<lambda>x. x"])
      (use p' in \<open>simp_all add: s' keeps_defs mark_claimed_def\<close>)
qed

lemma locked_phase:
  assumes "lifecycle_ok s" "keys_ok s" "lookup msg_id (clm_id c) (messages s) = Some m"
    and "msg_locked_by m = Some t" "claim_ok s c"
    and "lookup dsp_id (clm_aggregate_id c) (dispatches s) = Some d"
    and "lookup rsv_id (dsp_reservation_id d) (reservations s) = Some r"
  shows "m \<in> set (messages s)" "d \<in> set (dispatches s)" "r \<in> set (reservations s)"
    "dsp_id d = msg_aggregate_id m" "rsv_id r = dsp_reservation_id d" "msg_id m = clm_id c"
    "dsp_id d = clm_aggregate_id c"
    "msg_status m = PROCESSING" "dsp_status d = QUEUED" "rsv_status r = DISPATCH_PENDING"
proof -
  show rows: "m \<in> set (messages s)" "d \<in> set (dispatches s)" "r \<in> set (reservations s)"
      "rsv_id r = dsp_reservation_id d" "msg_id m = clm_id c" "dsp_id d = clm_aggregate_id c"
    using lookup_Some [OF assms(3)] lookup_Some [OF assms(6)] lookup_Some [OF assms(7)] by simp_all
  show i: "dsp_id d = msg_aggregate_id m" using assms(5) rows by (simp add: claim_ok_def)
  from assms(1) rows(1) have "msg_locked_by m = None \<longleftrightarrow> msg_status m \<noteq> PROCESSING"
    by (rule lifecycle_message)
  with assms(4) show pr: "msg_status m = PROCESSING" by auto
  have "phase (msg_status m) (dsp_status d) (rsv_status r)"
    by (rule message_linked [OF assms(1,2) rows(1) _ assms(7)]) (use i rows(6) assms(6) in simp)
  then show "dsp_status d = QUEUED" "rsv_status r = DISPATCH_PENDING"
    unfolding pr by (cases "dsp_status d"; cases "rsv_status r"; simp)+
qed

lemma lifecycle_success:
  assumes "record_success E w d c reference s = (Inr True, s')"
    and ok: "lifecycle_ok s" "keys_ok s" "claim_ok s c"
  shows "lifecycle_ok s'"
  using assms(1)
proof (rule record_success_elim)
  fix m :: outbox_message and dsp :: dispatch and rsv :: reservation and e :: audit_event
  let ?f = "mark_published (as_utc (now d 0)) reference"
  let ?g = "\<lambda>x. x\<lparr>dsp_adapter_reference := Some reference, dsp_status := ISSUED\<rparr>"
  let ?h = "\<lambda>x. x\<lparr>rsv_status := DISPATCHED\<rparr>"
  assume m: "lookup msg_id (clm_id c) (messages s) = Some m" "msg_locked_by m = Some (clm_token c)"
    and dsp: "lookup dsp_id (clm_aggregate_id c) (dispatches s) = Some dsp"
    and rsv: "lookup rsv_id (dsp_reservation_id dsp) (reservations s) = Some rsv"
    and s': "s' = s\<lparr>messages := modify msg_id (clm_id c) ?f (messages s),
       dispatches := modify dsp_id (clm_aggregate_id c) ?g (dispatches s),
       reservations := modify rsv_id (dsp_reservation_id dsp) ?h (reservations s),
       events := events s @ [e]\<rparr>"
  note l = locked_phase [OF ok(1,2) m ok(3) dsp rsv]
  show ?thesis
    by (rule lifecycle_move [OF ok(1,2) l(1-5), where f = ?f and g = ?g and h = ?h])
      (use l(4-10) in \<open>simp_all add: s' keeps_defs mark_published_def\<close>)
qed

lemma lifecycle_retry:
  assumes "record_failure E w d c exc s = (Inr False, s')" "current c s"
    and ok: "lifecycle_ok s" "keys_ok s" "refs_ok s" "claim_ok s c"
  shows "lifecycle_ok s'"
  using assms(1,2)
proof (rule record_failure_retry)
  fix m :: outbox_message
  let ?f = "mark_retry (as_utc (now d 0)) (error_text exc) (retry_delay w (msg_attempts m))"
  assume m: "lookup msg_id (clm_id c) (messages s) = Some m" "msg_locked_by m = Some (clm_token c)"
    and s': "s' = s\<lparr>messages := modify msg_id (clm_id c) ?f (messages s)\<rparr>"
  obtain dsp rsv where dsp: "lookup dsp_id (msg_aggregate_id m) (dispatches s) = Some dsp"
    and rsv: "lookup rsv_id (dsp_reservation_id dsp) (reservations s) = Some rsv"
    using lookup_Some [OF m(1)] by (auto intro: message_dispatch [OF ok(1,3), of m])
  have "msg_aggregate_id m = clm_aggregate_id c"
    using ok(4) lookup_Some [OF m(1)] by (simp add: claim_ok_def)
  note l = locked_phase [OF ok(1,2) m ok(4) dsp [unfolded this] rsv]
  show ?thesis
    by (rule lifecycle_move [OF ok(1,2) l(1-5), where f = ?f and g = "\<lambda>x. x" and h = "\<lambda>x. x"])
      (use l(4-10) in \<open>simp_all add: s' keeps_defs mark_retry_def\<close>)
qed

lemma lifecycle_dead:
  assumes "record_failure E w d c exc s = (Inr True, s')"
    and ok: "lifecycle_ok s" "keys_ok s" "refs_ok s" "claim_ok s c"
  shows "lifecycle_ok s'"
  using assms(1)
proof (rule record_failure_dead)
  fix m :: outbox_message
  let ?f = "mark_dead (as_utc (now d 0)) (error_text exc)"
  let ?g = "\<lambda>x. x\<lparr>dsp_status := REJECTED\<rparr>"
  let ?h = "\<lambda>x. x\<lparr>rsv_status := RES_CANCELLED\<rparr>"
  assume m: "lookup msg_id (clm_id c) (messages s) = Some m" "msg_locked_by m = Some (clm_token c)"
    and ms: "messages s' = modify msg_id (clm_id c) ?f (messages s)"
    and eff: "\<And>dsp. lookup dsp_id (clm_aggregate_id c) (dispatches s) = Some dsp \<Longrightarrow>
      \<exists>e. s' = s\<lparr>messages := modify msg_id (clm_id c) ?f (messages s),
        dispatches := modify dsp_id (clm_aggregate_id c) ?g (dispatches s),
        reservations := modify rsv_id (dsp_reservation_id dsp) ?h (reservations s),
        events := events s @ [e]\<rparr> \<and>
        evt_type e = ''dispatch.delivery_failed'' \<and> evt_aggregate_id e = clm_aggregate_id c \<and>
        evt_correlation_id e = clm_idempotency_key c"
  obtain dsp rsv where dsp: "lookup dsp_id (msg_aggregate_id m) (dispatches s) = Some dsp"
    and rsv: "lookup rsv_id (dsp_reservation_id dsp) (reservations s) = Some rsv"
    using lookup_Some [OF m(1)] by (auto intro: message_dispatch [OF ok(1,3), of m])
  have agg: "msg_aggregate_id m = clm_aggregate_id c"
    using ok(4) lookup_Some [OF m(1)] by (simp add: claim_ok_def)
  note l = locked_phase [OF ok(1,2) m ok(4) dsp [unfolded agg] rsv]
  from eff [OF dsp [unfolded agg]] obtain e where s': "s' = s\<lparr>messages := modify msg_id (clm_id c) ?f (messages s),
        dispatches := modify dsp_id (clm_aggregate_id c) ?g (dispatches s),
        reservations := modify rsv_id (dsp_reservation_id dsp) ?h (reservations s),
        events := events s @ [e]\<rparr>" by blast
  show ?thesis
    by (intro lifecycle_move [OF ok(1,2) l(1-5), where f = ?f and g = ?g and h = ?h])
      (use l(4-10) in \<open>simp_all add: s' keeps_defs mark_dead_def\<close>)
qed

lemma lifecycle_redrive:
  assumes "authorize_redrive E d a mid did reason s = (Inr x, s')"
    and ok: "lifecycle_ok s" "keys_ok s"
  shows "lifecycle_ok s'"
  using assms(1)
proof (rule authorize_redrive_elim)
  fix m :: outbox_message and dsp :: dispatch and rsv :: reservation and e :: audit_event
  let ?f = "rearm (now d 0)"
  let ?g = "\<lambda>x. x\<lparr>dsp_status := QUEUED, dsp_adapter_reference := Some (''outbox:'' @ mid)\<rparr>"
  let ?h = "\<lambda>x. x\<lparr>rsv_status := DISPATCH_PENDING\<rparr>"
  assume l: "lookup msg_id mid (messages s) = Some m" "lookup dsp_id did (dispatches s) = Some dsp"
      "lookup rsv_id (dsp_reservation_id dsp) (reservations s) = Some rsv"
    and i: "msg_aggregate_id m = did" and st: "rsv_status rsv = RES_CANCELLED"
    and s': "s' = s\<lparr>messages := modify msg_id mid ?f (messages s),
       dispatches := modify dsp_id did ?g (dispatches s),
       reservations := modify rsv_id (dsp_reservation_id dsp) ?h (reservations s),
       events := events s @ [e]\<rparr>"
  have r: "m \<in> set (messages s)" "dsp \<in> set (dispatches s)" "rsv \<in> set (reservations s)"
      "dsp_id dsp = msg_aggregate_id m" "rsv_id rsv = dsp_reservation_id dsp"
      "msg_id m = mid" "dsp_id dsp = did"
    using lookup_Some [OF l(1)] lookup_Some [OF l(2)] lookup_Some [OF l(3)] i by simp_all
  show ?thesis
    by (rule lifecycle_move [OF ok r(1-5), where f = ?f and g = ?g and h = ?h])
      (use r(4-7) st i in \<open>simp_all add: s' keeps_defs rearm_def\<close>)
qed

lemma lifecycle_settle:
  assumes "settle_reservation E d rid a key s = (Inr x, s')"
    and "idem_lookup ''settle_reservation'' key s = None"
    and ok: "lifecycle_ok s" "keys_ok s"
  shows "lifecycle_ok s'"
  using assms(1,2)
proof (rule settle_reservation_fresh)
  fix rsv :: reservation and dsp :: dispatch and e :: audit_event and i :: idempotency_record
  let ?g = "\<lambda>x. x\<lparr>dsp_status := DSP_COMPLETED\<rparr>"
  let ?h = "\<lambda>x. x\<lparr>rsv_status := RES_COMPLETED\<rparr>"
  assume l: "lookup rsv_id rid (reservations s) = Some rsv"
      "lookup dsp_reservation_id rid (dispatches s) = Some dsp" "dsp_status dsp = ISSUED"
    and x: "stl_reservation_id x = rid"
    and s': "s' = s\<lparr>dispatches := modify dsp_id (dsp_id dsp) ?g (dispatches s),
       reservations := modify rsv_id rid ?h (reservations s),
       settlements := settlements s @ [store_settlement x],
       events := events s @ [e], idem := idem s @ [i]\<rparr>"
  have r: "dsp \<in> set (dispatches s)" "rsv \<in> set (reservations s)" "dsp_reservation_id dsp = rid"
      "rsv_id rsv = rid"
    using lookup_Some [OF l(1)] lookup_Some [OF l(2)] by simp_all
  then have "dsp_id dsp \<in> msg_aggregate_id ` set (messages s)"
    using ok(1) unfolding lifecycle_ok_def by (metis imageI)
  then obtain m where m: "m \<in> set (messages s)" "dsp_id dsp = msg_aggregate_id m" by blast
  have k: "distinct (map dsp_id (dispatches s))" "distinct (map rsv_id (reservations s))"
    using ok(2) by (simp_all add: keys_ok_def)
  have ph: "phase (msg_status m) (dsp_status dsp) (rsv_status rsv)"
    by (rule message_linked [OF ok m(1)])
      (use m(2) r lookup_in [OF k(1) r(1)] lookup_in [OF k(2) r(2)] in simp_all)
  then have st: "msg_status m = PUBLISHED"
    unfolding l(3) by (cases "msg_status m"; cases "rsv_status rsv"; simp)
  from ok(1) m(1) have "msg_locked_by m = None \<longleftrightarrow> msg_status m \<noteq> PROCESSING"
    by (rule lifecycle_message)
  with st have lk: "msg_locked_by m = None" by simp
  show ?thesis
    by (rule lifecycle_move [OF ok m(1) r(1,2) m(2), where f = "\<lambda>x. x" and g = ?g and h = ?h])
      (use r(3,4) st lk x in \<open>simp_all add: s' keeps_defs store_settlement_def\<close>)
qed

lemma lifecycle_issue:
  assumes "issue_dispatch E d rid c a key s = (Inr x, s')" "idem_lookup ''issue_dispatch'' key s = None"
    and ok: "lifecycle_ok s" "keys_ok s" "refs_ok s"
  shows "lifecycle_ok s'"
  using assms(1,2)
proof (rule issue_dispatch_fresh)
  fix rsv :: reservation and ofr :: flex_offer and ast :: asset and m :: outbox_message
    and e :: audit_event and i :: idempotency_record
  let ?h = "\<lambda>x. x\<lparr>rsv_status := DISPATCH_PENDING\<rparr>"
  assume l: "lookup rsv_id rid (reservations s) = Some rsv" "rsv_status rsv = RESERVED"
    and x: "x = \<lparr>dsp_id = uuid d 0, dsp_reservation_id = rid, dsp_target_kw = dc_target_kw c,
       dsp_starts_at = dc_starts_at c, dsp_ends_at = dc_ends_at c, dsp_status = QUEUED,
       dsp_issued_by = actor_id a, dsp_adapter_reference = Some (''outbox:'' @ msg_id m),
       dsp_created_at = now d 0\<rparr>"
    and fresh: "dsp_id x \<notin> dsp_id ` set (dispatches s)"
      "dsp_reservation_id x \<notin> dsp_reservation_id ` set (dispatches s)"
    and m: "m = new_message d 1 \<lparr>sig_dispatch_id = uuid d 0, sig_asset_external_id = ast_external_id ast,
       sig_target_kw = dc_target_kw c, sig_starts_at = dc_starts_at c, sig_ends_at = dc_ends_at c\<rparr> key"
    and s': "s' = s\<lparr>dispatches := dispatches s @ [store_dispatch x],
       messages := messages s @ [m],
       reservations := modify rsv_id rid ?h (reservations s),
       events := events s @ [e], idem := idem s @ [i]\<rparr>"
  have r: "rsv \<in> set (reservations s)" "rsv_id rsv = rid" using lookup_Some [OF l(1)] by simp_all
  have old: "message_ok s' n" if "n \<in> set (messages s)" for n
  proof -
    from ok(1) that obtain d' r' where dr: "d' \<in> set (dispatches s)" "r' \<in> set (reservations s)"
        "dsp_id d' = msg_aggregate_id n" "rsv_id r' = dsp_reservation_id d'"
        "phase (msg_status n) (dsp_status d') (rsv_status r')"
      and nn: "msg_topic n = DISPATCH_TOPIC" "msg_locked_by n = None \<longleftrightarrow> msg_status n \<noteq> PROCESSING"
      by (rule lifecycle_message)
    have "rsv_id r' \<noteq> rid" using fresh(2) x dr by auto
    then have "d' \<in> set (dispatches s')" "r' \<in> set (reservations s')"
      using dr by (simp_all add: s' modify_other)
    with dr nn show ?thesis unfolding message_ok_def by blast
  qed
  have "?h rsv \<in> set (reservations s')" unfolding s' using r by (simp add: modify_same)
  then have new: "message_ok s' m"
    unfolding message_ok_def
    by (intro conjI bexI [of _ "store_dispatch x"] bexI [of _ "?h rsv"])
      (simp_all add: m new_message_def x store_dispatch_def s' r)
  have "rid \<notin> stl_reservation_id ` set (settlements s)"
  proof -
    have "reservation_ok s rsv" using ok(1) r(1) by (simp add: lifecycle_ok_def)
    then show ?thesis using l(2) r(2) by (simp add: reservation_ok_def)
  qed
  then have res: "reservation_ok s' q" if "q \<in> set (reservations s')" for q
  proof -
    from that obtain q0 where q0: "q0 \<in> set (reservations s)" "q = (if rsv_id q0 = rid then ?h q0 else q0)"
      unfolding s' by (auto simp: in_modify)
    with ok(1) have "reservation_ok s q0" by (simp add: lifecycle_ok_def)
    with q0(2) x \<open>rid \<notin> _\<close> show ?thesis
      by (cases "rsv_id q0 = rid") (simp_all add: reservation_ok_def s' store_dispatch_def)
  qed
  have off: "\<forall>f\<in>set (offers s'). offer_ok s' f"
    using ok(1) unfolding lifecycle_ok_def offer_ok_def s' by (simp add: image_modify)
  have "msg_aggregate_id m \<notin> msg_aggregate_id ` set (messages s)"
    using ok(1) fresh(1) x m unfolding lifecycle_ok_def by (simp add: new_message_def)
  with ok(1) have ids: "distinct (map msg_aggregate_id (messages s'))"
      "dsp_id ` set (dispatches s') = msg_aggregate_id ` set (messages s')"
    by (simp_all add: lifecycle_ok_def s' m x new_message_def store_dispatch_def)
  have "\<forall>n\<in>set (messages s'). message_ok s' n" using old new by (simp add: s')
  with res off ids show ?thesis unfolding lifecycle_ok_def by blast
qed

end
