(* ===== verification/Terms.thy ===== *)
theory Terms
  imports Lifecycle
begin

text \<open>
  The commercial content of the tables: an offer stays within the capacity of its asset, a
  reservation within its offer, a dispatch within its reservation and the window of the offer;
  a settlement is computed from the agreed price by someone who neither reserved nor dispatched.
  Every operation on validated commands keeps it so.
\<close>

definition offer_backed :: "db \<Rightarrow> flex_offer \<Rightarrow> bool" where
  "offer_backed s f \<longleftrightarrow> (\<exists>a\<in>set (assets s). ast_id a = ofr_asset_id f \<and>
     ast_owner_id a = ofr_created_by f \<and>
     0 < dec_val (ofr_quantity_kw f) \<and> dec_val (ofr_quantity_kw f) \<le> dec_val (ast_capacity_kw a) \<and>
     0 \<le> dec_val (ofr_price_per_kwh f) \<and> window_ok (ofr_window_start f) (ofr_window_end f))"

definition reservation_backed :: "db \<Rightarrow> reservation \<Rightarrow> bool" where
  "reservation_backed s r \<longleftrightarrow> (\<exists>f\<in>set (offers s). ofr_id f = rsv_offer_id r \<and>
     0 < dec_val (rsv_quantity_kw r) \<and> dec_val (rsv_quantity_kw r) \<le> dec_val (ofr_quantity_kw f))"

definition dispatch_backed :: "db \<Rightarrow> dispatch \<Rightarrow> bool" where
  "dispatch_backed s d \<longleftrightarrow> (\<exists>r\<in>set (reservations s). rsv_id r = dsp_reservation_id d \<and>
     0 < dec_val (dsp_target_kw d) \<and> dec_val (dsp_target_kw d) \<le> dec_val (rsv_quantity_kw r) \<and>
     (\<exists>f\<in>set (offers s). ofr_id f = rsv_offer_id r \<and>
        instant (ofr_window_start f) \<le> instant (dsp_starts_at d) \<and>
        instant (dsp_starts_at d) < instant (dsp_ends_at d) \<and>
        instant (dsp_ends_at d) \<le> instant (ofr_window_end f)))"

definition reading_backed :: "meter_reading \<Rightarrow> bool" where
  "reading_backed g \<longleftrightarrow> 0 \<le> dec_val (mtr_energy_kwh g) \<and>
     instant (mtr_interval_start g) < instant (mtr_interval_end g)"

definition settlement_backed :: "db \<Rightarrow> settlement \<Rightarrow> bool" where
  "settlement_backed s x \<longleftrightarrow> (\<exists>r\<in>set (reservations s). rsv_id r = stl_reservation_id x \<and>
     stl_settled_by x \<noteq> rsv_requested_by r \<and>
     (\<exists>d\<in>set (dispatches s). dsp_reservation_id d = stl_reservation_id x \<and>
        stl_settled_by x \<noteq> dsp_issued_by d) \<and>
     (\<exists>f\<in>set (offers s). ofr_id f = rsv_offer_id r \<and>
        stl_price_per_kwh x = numeric6 (ofr_price_per_kwh f) \<and>
        (\<exists>delivered amount. settlement_amount delivered (ofr_price_per_kwh f) = Inr amount \<and>
           stl_delivered_kwh x = numeric6 delivered \<and> stl_amount x = numeric6 amount)))"

definition terms_ok :: "db \<Rightarrow> bool" where
  "terms_ok s \<longleftrightarrow> (\<forall>f\<in>set (offers s). offer_backed s f) \<and>
     (\<forall>r\<in>set (reservations s). reservation_backed s r) \<and>
     (\<forall>d\<in>set (dispatches s). dispatch_backed s d) \<and>
     (\<forall>g\<in>set (readings s). reading_backed g) \<and>
     (\<forall>x\<in>set (settlements s). settlement_backed s x)"

lemmas backed_defs = offer_backed_def reservation_backed_def dispatch_backed_def
  reading_backed_def settlement_backed_def

lemma terms_ok_empty [simp]: "terms_ok empty_db"
  by (simp add: terms_ok_def empty_db_def)

section \<open>The predicates depend on the agreed terms only, and only grow\<close>

lemma prefix_image: "prefix (map h xs) (map h ys) \<Longrightarrow> x \<in> set xs \<Longrightarrow> \<exists>y\<in>set ys. h y = h x"
  by (metis image_iff list.set_map set_mono_prefix subsetD)

lemma map_eq_image: "map h xs = map h ys \<Longrightarrow> x \<in> set xs \<Longrightarrow> h x \<in> h ` set ys"
  by (metis imageI list.set_map)

lemma retains_rows:
  assumes "retains s s'"
  shows "set (assets s) \<subseteq> set (assets s')"
    and "f \<in> set (offers s) \<Longrightarrow> \<exists>f'\<in>set (offers s'). offer_terms f' = offer_terms f"
    and "r \<in> set (reservations s) \<Longrightarrow> \<exists>r'\<in>set (reservations s'). reservation_terms r' = reservation_terms r"
    and "d \<in> set (dispatches s) \<Longrightarrow> \<exists>d'\<in>set (dispatches s'). dispatch_terms d' = dispatch_terms d"
proof -
  note p = assms [unfolded retains_def]
  show "set (assets s) \<subseteq> set (assets s')" using p by (simp add: set_mono_prefix)
  show "\<exists>f'\<in>set (offers s'). offer_terms f' = offer_terms f" if "f \<in> set (offers s)"
    using p that by (intro prefix_image [of offer_terms "offers s"]) simp_all
  show "\<exists>r'\<in>set (reservations s'). reservation_terms r' = reservation_terms r"
    if "r \<in> set (reservations s)"
    using p that by (intro prefix_image [of reservation_terms "reservations s"]) simp_all
  show "\<exists>d'\<in>set (dispatches s'). dispatch_terms d' = dispatch_terms d" if "d \<in> set (dispatches s)"
    using p that by (intro prefix_image [of dispatch_terms "dispatches s"]) simp_all
qed

lemma offer_backed_retained:
  "offer_backed s f \<Longrightarrow> retains s s' \<Longrightarrow> offer_terms f' = offer_terms f \<Longrightarrow> offer_backed s' f'"
  using retains_rows(1) [of s s'] by (auto simp: offer_backed_def offer_terms_def)

lemma reservation_backed_retained:
  assumes "reservation_backed s r" "retains s s'" "reservation_terms r' = reservation_terms r"
  shows "reservation_backed s' r'"
proof -
  from assms(1) obtain f where f: "f \<in> set (offers s)" "ofr_id f = rsv_offer_id r"
    "0 < dec_val (rsv_quantity_kw r)" "dec_val (rsv_quantity_kw r) \<le> dec_val (ofr_quantity_kw f)"
    by (auto simp: reservation_backed_def)
  from retains_rows(2) [OF assms(2) f(1)] obtain f' where "f' \<in> set (offers s')"
    "offer_terms f' = offer_terms f" by blast
  with f assms(3) show ?thesis by (auto simp: reservation_backed_def terms_defs)
qed

lemma dispatch_backed_retained:
  assumes "dispatch_backed s d" "retains s s'" "dispatch_terms d' = dispatch_terms d"
  shows "dispatch_backed s' d'"
proof -
  from assms(1) obtain r f where r: "r \<in> set (reservations s)" and f: "f \<in> set (offers s)"
    and b: "rsv_id r = dsp_reservation_id d" "0 < dec_val (dsp_target_kw d)"
      "dec_val (dsp_target_kw d) \<le> dec_val (rsv_quantity_kw r)" "ofr_id f = rsv_offer_id r"
      "instant (ofr_window_start f) \<le> instant (dsp_starts_at d)"
      "instant (dsp_starts_at d) < instant (dsp_ends_at d)"
      "instant (dsp_ends_at d) \<le> instant (ofr_window_end f)"
    by (auto simp: dispatch_backed_def)
  from retains_rows(2) [OF assms(2) f] obtain f' where f': "f' \<in> set (offers s')"
    "offer_terms f' = offer_terms f" by blast
  from retains_rows(3) [OF assms(2) r] obtain r' where "r' \<in> set (reservations s')"
    "reservation_terms r' = reservation_terms r" by blast
  with f' b assms(3) show ?thesis
    unfolding dispatch_backed_def
    by (intro bexI [of _ r'] conjI bexI [of _ f']) (simp_all add: terms_defs)
qed

lemma settlement_backed_retained:
  assumes "settlement_backed s x" "retains s s'" "settlement_terms x' = settlement_terms x"
  shows "settlement_backed s' x'"
proof -
  from assms(1) obtain r d f delivered amount where rows: "r \<in> set (reservations s)"
      "d \<in> set (dispatches s)" "f \<in> set (offers s)"
    and b: "rsv_id r = stl_reservation_id x" "stl_settled_by x \<noteq> rsv_requested_by r"
      "dsp_reservation_id d = stl_reservation_id x" "stl_settled_by x \<noteq> dsp_issued_by d"
      "ofr_id f = rsv_offer_id r" "stl_price_per_kwh x = numeric6 (ofr_price_per_kwh f)"
      "settlement_amount delivered (ofr_price_per_kwh f) = Inr amount"
      "stl_delivered_kwh x = numeric6 delivered" "stl_amount x = numeric6 amount"
    unfolding settlement_backed_def by blast
  from retains_rows(3) [OF assms(2) rows(1)] obtain r' where r': "r' \<in> set (reservations s')"
    "reservation_terms r' = reservation_terms r" by blast
  from retains_rows(4) [OF assms(2) rows(2)] obtain d' where d': "d' \<in> set (dispatches s')"
    "dispatch_terms d' = dispatch_terms d" by blast
  from retains_rows(2) [OF assms(2) rows(3)] obtain f' where f': "f' \<in> set (offers s')"
    "offer_terms f' = offer_terms f" by blast
  show ?thesis
    unfolding settlement_backed_def
    by (intro bexI [of _ r'] conjI bexI [of _ d'] bexI [of _ f'] exI [of _ delivered] exI [of _ amount])
      (use r' d' f' b assms(3) in \<open>simp_all add: terms_defs\<close>)
qed

text \<open>An operation keeps the terms when each row it leaves has old terms or is backed.\<close>

lemma terms_ok_grow:
  assumes "terms_ok s" "retains s s'"
    and "\<And>f. f \<in> set (offers s') \<Longrightarrow> offer_terms f \<in> offer_terms ` set (offers s) \<or> offer_backed s' f"
    and "\<And>r. r \<in> set (reservations s') \<Longrightarrow>
      reservation_terms r \<in> reservation_terms ` set (reservations s) \<or> reservation_backed s' r"
    and "\<And>d. d \<in> set (dispatches s') \<Longrightarrow>
      dispatch_terms d \<in> dispatch_terms ` set (dispatches s) \<or> dispatch_backed s' d"
    and "\<And>g. g \<in> set (readings s') \<Longrightarrow> g \<in> set (readings s) \<or> reading_backed g"
    and "\<And>x. x \<in> set (settlements s') \<Longrightarrow>
      settlement_terms x \<in> settlement_terms ` set (settlements s) \<or> settlement_backed s' x"
  shows "terms_ok s'"
  unfolding terms_ok_def
proof (intro conjI ballI)
  note old = assms(1) [unfolded terms_ok_def]
  show "offer_backed s' f" if "f \<in> set (offers s')" for f
    using assms(3) [OF that] old offer_backed_retained [OF _ assms(2)] by blast
  show "reservation_backed s' r" if "r \<in> set (reservations s')" for r
    using assms(4) [OF that] old reservation_backed_retained [OF _ assms(2)] by blast
  show "dispatch_backed s' d" if "d \<in> set (dispatches s')" for d
    using assms(5) [OF that] old dispatch_backed_retained [OF _ assms(2)] by blast
  show "reading_backed g" if "g \<in> set (readings s')" for g
    using assms(6) [OF that] old by blast
  show "settlement_backed s' x" if "x \<in> set (settlements s')" for x
    using assms(7) [OF that] old settlement_backed_retained [OF _ assms(2)] by blast
qed

text \<open>
  An operation that adds no row changes no terms: the worker and the re-drive are such.
\<close>

definition same_terms :: "db \<Rightarrow> db \<Rightarrow> bool" where
  "same_terms s s' \<longleftrightarrow> assets s' = assets s \<and> readings s' = readings s \<and>
     map offer_terms (offers s') = map offer_terms (offers s) \<and>
     map reservation_terms (reservations s') = map reservation_terms (reservations s) \<and>
     map dispatch_terms (dispatches s') = map dispatch_terms (dispatches s) \<and>
     map settlement_terms (settlements s') = map settlement_terms (settlements s)"

lemma terms_ok_same:
  assumes "terms_ok s" "retains s s'" "same_terms s s'"
  shows "terms_ok s'"
proof (rule terms_ok_grow [OF assms(1,2)])
  note e = assms(3) [unfolded same_terms_def]
  show "offer_terms f \<in> offer_terms ` set (offers s) \<or> offer_backed s' f"
    if "f \<in> set (offers s')" for f
    using e that by (intro disjI1 map_eq_image [of offer_terms "offers s'"]) simp_all
  show "reservation_terms r \<in> reservation_terms ` set (reservations s) \<or> reservation_backed s' r"
    if "r \<in> set (reservations s')" for r
    using e that by (intro disjI1 map_eq_image [of reservation_terms "reservations s'"]) simp_all
  show "dispatch_terms d \<in> dispatch_terms ` set (dispatches s) \<or> dispatch_backed s' d"
    if "d \<in> set (dispatches s')" for d
    using e that by (intro disjI1 map_eq_image [of dispatch_terms "dispatches s'"]) simp_all
  show "g \<in> set (readings s) \<or> reading_backed g" if "g \<in> set (readings s')" for g
    using e that by simp
  show "settlement_terms x \<in> settlement_terms ` set (settlements s) \<or> settlement_backed s' x"
    if "x \<in> set (settlements s')" for x
    using e that by (intro disjI1 map_eq_image [of settlement_terms "settlements s'"]) simp_all
qed

section \<open>Every operation keeps the terms\<close>

lemma keeps_terms:
  "keeps_offer fo \<Longrightarrow> map offer_terms (modify ofr_id i fo os) = map offer_terms os"
  "keeps_reservation fr \<Longrightarrow> map reservation_terms (modify rsv_id i fr rs) = map reservation_terms rs"
  "keeps_dispatch fd \<Longrightarrow> map dispatch_terms (modify dsp_id i fd ds) = map dispatch_terms ds"
  by (rule map_modify, simp add: keeps_defs terms_defs)+

lemma same_terms_refl [simp]: "same_terms s s"
  by (simp add: same_terms_def)

lemma same_terms_claim: "claim_one E w d s = (Inr (Some c), s') \<Longrightarrow> same_terms s s'"
  by (erule claim_one_elim) (simp add: same_terms_def)

lemma same_terms_success: "record_success E w d c ref s = (Inr True, s') \<Longrightarrow> same_terms s s'"
  by (erule record_success_elim) (simp add: same_terms_def keeps_terms keeps_defs)

lemma same_terms_failure: "record_failure E w d c exc s = (Inr b, s') \<Longrightarrow> same_terms s s'"
proof (cases b)
  case True
  assume "record_failure E w d c exc s = (Inr b, s')"
  with True have r: "record_failure E w d c exc s = (Inr True, s')" by simp
  show ?thesis
  proof (rule record_failure_dead [OF r], goal_cases)
    case (1 m)
    show ?thesis
    proof (cases "lookup dsp_id (clm_aggregate_id c) (dispatches s)")
      case None
      with 1(6) show ?thesis by (simp add: same_terms_def)
    next
      case (Some dsp)
      from 1(5) [OF this] show ?thesis
        by (elim exE conjE) (simp add: same_terms_def keeps_terms keeps_defs)
    qed
  qed
next
  case False
  assume "record_failure E w d c exc s = (Inr b, s')"
  with False have r: "record_failure E w d c exc s = (Inr False, s')" by simp
  show ?thesis
  proof (cases "current c s")
    case True
    from r True show ?thesis by (rule record_failure_retry) (simp add: same_terms_def)
  next
    case False
    with r show ?thesis by (simp add: record_stale)
  qed
qed

lemma same_terms_redrive: "authorize_redrive E d a mid did reason s = (Inr x, s') \<Longrightarrow> same_terms s s'"
  by (erule authorize_redrive_elim) (simp add: same_terms_def keeps_terms keeps_defs)

lemma terms_register_asset:
  assumes "register_asset E d c a s = (Inr x, s')" "terms_ok s"
  shows "terms_ok s'"
  using assms(1)
proof (rule register_asset_elim)
  fix e
  assume "s' = s\<lparr>assets := assets s @ [store_asset x], events := events s @ [e]\<rparr>"
  then show ?thesis
    by (intro terms_ok_grow [OF assms(2) kept.register_asset [OF assms(1) retains_refl]]) simp_all
qed

lemma terms_create_offer:
  assumes "create_offer E d c a s = (Inr x, s')" "terms_ok s" "validate_offer c0 = Inr c"
  shows "terms_ok s'"
  using assms(1)
proof (rule create_offer_elim)
  fix ast :: asset and e :: audit_event
  assume ast: "lookup ast_id (oc_asset_id c) (assets s) = Some ast" "ast_owner_id ast = actor_id a"
      "dec_val (oc_quantity_kw c) \<le> dec_val (ast_capacity_kw ast)"
    and x: "x = \<lparr>ofr_id = uuid d 0, ofr_asset_id = oc_asset_id c, ofr_window_start = oc_window_start c,
       ofr_window_end = oc_window_end c, ofr_direction = oc_direction c,
       ofr_quantity_kw = oc_quantity_kw c, ofr_price_per_kwh = oc_price_per_kwh c,
       ofr_status = OPEN, ofr_created_by = actor_id a, ofr_created_at = now d 0\<rparr>"
    and s': "s' = s\<lparr>offers := offers s @ [store_offer x], events := events s @ [e]\<rparr>"
  have "offer_backed s' (store_offer x)"
    using val_offer.accepted [OF assms(3)] ast lookup_Some [OF ast(1)]
    unfolding offer_backed_def s' by (intro bexI [of _ ast]) (simp_all add: x store_offer_def)
  then show ?thesis
    by (intro terms_ok_grow [OF assms(2) kept.create_offer [OF assms(1) retains_refl]])
      (auto simp: s')
qed

lemma terms_reserve:
  assumes "reserve_offer E d oid c a key s = (Inr x, s')" "idem_lookup ''reserve_offer'' key s = None"
    and "terms_ok s" "validate_reservation c0 = Inr c"
  shows "terms_ok s'"
  using assms(1,2)
proof (rule reserve_offer_fresh)
  fix ofr :: flex_offer and e :: audit_event and i :: idempotency_record
  let ?f = "\<lambda>x. x\<lparr>ofr_status := OFFER_RESERVED\<rparr>"
  assume ofr: "lookup ofr_id oid (offers s) = Some ofr"
      "dec_val (rc_quantity_kw c) \<le> dec_val (ofr_quantity_kw ofr)"
    and x: "x = \<lparr>rsv_id = uuid d 0, rsv_offer_id = oid, rsv_quantity_kw = rc_quantity_kw c,
       rsv_status = RESERVED, rsv_requested_by = actor_id a, rsv_created_at = now d 0\<rparr>"
    and s': "s' = s\<lparr>offers := modify ofr_id oid ?f (offers s),
       reservations := reservations s @ [store_reservation x], events := events s @ [e],
       idem := idem s @ [i]\<rparr>"
  have "?f ofr \<in> set (offers s')" unfolding s' using lookup_Some [OF ofr(1)] by (simp add: modify_same)
  then have "reservation_backed s' (store_reservation x)"
    using val_reservation.accepted [OF assms(4)] ofr lookup_Some [OF ofr(1)]
    unfolding reservation_backed_def
    by (intro bexI [of _ "?f ofr"]) (simp_all add: x store_reservation_def)
  moreover have "map offer_terms (offers s') = map offer_terms (offers s)"
    unfolding s' by (simp add: keeps_terms keeps_defs)
  ultimately show ?thesis
    by (intro terms_ok_grow [OF assms(3) kept.reserve_offer [OF assms(1) retains_refl]])
      (auto simp: s' dest: map_eq_image)
qed

lemma terms_issue:
  assumes "issue_dispatch E d rid c a key s = (Inr x, s')" "idem_lookup ''issue_dispatch'' key s = None"
    and "terms_ok s" "validate_dispatch c0 = Inr c"
  shows "terms_ok s'"
  using assms(1,2)
proof (rule issue_dispatch_fresh)
  fix rsv :: reservation and ofr :: flex_offer and ast :: asset and m :: outbox_message
    and e :: audit_event and i :: idempotency_record
  let ?h = "\<lambda>x. x\<lparr>rsv_status := DISPATCH_PENDING\<rparr>"
  assume rsv: "lookup rsv_id rid (reservations s) = Some rsv"
      "dec_val (dc_target_kw c) \<le> dec_val (rsv_quantity_kw rsv)"
    and ofr: "lookup ofr_id (rsv_offer_id rsv) (offers s) = Some ofr"
      "instant (ofr_window_start ofr) \<le> instant (dc_starts_at c)"
      "instant (dc_ends_at c) \<le> instant (ofr_window_end ofr)"
    and x: "x = \<lparr>dsp_id = uuid d 0, dsp_reservation_id = rid, dsp_target_kw = dc_target_kw c,
       dsp_starts_at = dc_starts_at c, dsp_ends_at = dc_ends_at c, dsp_status = QUEUED,
       dsp_issued_by = actor_id a, dsp_adapter_reference = Some (''outbox:'' @ msg_id m),
       dsp_created_at = now d 0\<rparr>"
    and s': "s' = s\<lparr>dispatches := dispatches s @ [store_dispatch x], messages := messages s @ [m],
       reservations := modify rsv_id rid ?h (reservations s),
       events := events s @ [e], idem := idem s @ [i]\<rparr>"
  have "?h rsv \<in> set (reservations s')" unfolding s' using lookup_Some [OF rsv(1)] by (simp add: modify_same)
  moreover have "ofr \<in> set (offers s')" unfolding s' using lookup_Some [OF ofr(1)] by simp
  ultimately have "dispatch_backed s' (store_dispatch x)"
    using val_dispatch.accepted [OF assms(4)] rsv ofr lookup_Some [OF rsv(1)] lookup_Some [OF ofr(1)]
    unfolding dispatch_backed_def
    by (intro bexI [of _ "?h rsv"] conjI bexI [of _ ofr])
      (simp_all add: x store_dispatch_def window_ok_def)
  moreover have "map reservation_terms (reservations s') = map reservation_terms (reservations s)"
    unfolding s' by (simp add: keeps_terms keeps_defs)
  ultimately show ?thesis
    by (intro terms_ok_grow [OF assms(3) kept.issue_dispatch [OF assms(1) retains_refl]])
      (auto simp: s' dest: map_eq_image)
qed

lemma terms_reading:
  assumes "record_meter_reading E d c a s = (Inr x, s')" "terms_ok s"
    and "validate_meter_reading c0 = Inr c"
  shows "terms_ok s'"
  using assms(1)
proof (rule reading_elim)
  assume "s' = s"
  with assms(2) show ?thesis by simp
next
  fix e :: audit_event
  assume x: "x = \<lparr>mtr_id = uuid d 0, mtr_asset_id = mc_asset_id c, mtr_interval_start = mc_interval_start c,
       mtr_interval_end = mc_interval_end c, mtr_energy_kwh = mc_energy_kwh c,
       mtr_source = mc_source c, mtr_fingerprint = request_hash E (reading_dump E c),
       mtr_recorded_by = actor_id a, mtr_received_at = now d 0\<rparr>"
    and s': "s' = s\<lparr>readings := readings s @ [store_reading x], events := events s @ [e]\<rparr>"
  have "reading_backed (store_reading x)"
    using val_reading.accepted [OF assms(3)]
    by (simp add: reading_backed_def x store_reading_def window_ok_def)
  then show ?thesis
    by (intro terms_ok_grow [OF assms(2) kept.record_meter_reading [OF assms(1) retains_refl]])
      (auto simp: s')
qed

lemma terms_settle:
  assumes "settle_reservation E d rid a key s = (Inr x, s')"
    and "idem_lookup ''settle_reservation'' key s = None" "terms_ok s"
  shows "terms_ok s'"
  using assms(1,2)
proof (rule settle_reservation_fresh)
  fix rsv :: reservation and dsp :: dispatch and ofr :: flex_offer and e :: audit_event
    and i :: idempotency_record
  let ?g = "\<lambda>x. x\<lparr>dsp_status := DSP_COMPLETED\<rparr>"
  let ?h = "\<lambda>x. x\<lparr>rsv_status := RES_COMPLETED\<rparr>"
  assume l: "lookup rsv_id rid (reservations s) = Some rsv"
      "lookup dsp_reservation_id rid (dispatches s) = Some dsp"
      "lookup ofr_id (rsv_offer_id rsv) (offers s) = Some ofr"
    and sep: "actor_id a \<noteq> dsp_issued_by dsp" "actor_id a \<noteq> rsv_requested_by rsv"
    and amount: "settlement_amount (stl_delivered_kwh x) (ofr_price_per_kwh ofr) = Inr (stl_amount x)"
    and x: "stl_reservation_id x = rid" "stl_settled_by x = actor_id a"
      "stl_price_per_kwh x = ofr_price_per_kwh ofr"
    and s': "s' = s\<lparr>dispatches := modify dsp_id (dsp_id dsp) ?g (dispatches s),
       reservations := modify rsv_id rid ?h (reservations s),
       settlements := settlements s @ [store_settlement x],
       events := events s @ [e], idem := idem s @ [i]\<rparr>"
  note r = lookup_Some [OF l(1)] lookup_Some [OF l(2)] lookup_Some [OF l(3)]
  have "?h rsv \<in> set (reservations s')" "?g dsp \<in> set (dispatches s')" "ofr \<in> set (offers s')"
    unfolding s' using r by (simp_all add: modify_same)
  then have "settlement_backed s' (store_settlement x)"
    unfolding settlement_backed_def using r sep amount x
    by (intro bexI [of _ "?h rsv"] conjI bexI [of _ "?g dsp"] bexI [of _ ofr]
        exI [of _ "stl_delivered_kwh x"] exI [of _ "stl_amount x"])
      (simp_all add: store_settlement_def)
  moreover have "map reservation_terms (reservations s') = map reservation_terms (reservations s)"
    "map dispatch_terms (dispatches s') = map dispatch_terms (dispatches s)"
    unfolding s' by (simp_all add: keeps_terms keeps_defs)
  ultimately show ?thesis
    by (intro terms_ok_grow [OF assms(3) kept.settle_reservation [OF assms(1) retains_refl]])
      (auto simp: s' dest: map_eq_image)
qed

end
