(* ===== verification/Auth.thy ===== *)
theory Auth
  imports CanonicalJson DomainTypes
begin

text \<open>
  \<open>config.py\<close>, \<open>auth.py\<close> and \<open>get_actor\<close> of \<open>api.py\<close>: the runtime settings and their
  validation, the verification of a bearer token against the configured keys, and the actor of
  a request.  PyJWT and the JSON decoder of the key set are parameters (record \<open>jwt_lib\<close>).
\<close>

section \<open>Settings\<close>

record settings =
  database_url :: string
  environment :: string
  auth_mode :: string
  oidc_issuer :: string
  oidc_audience :: string
  oidc_jwks_json :: string
  oidc_role_claim :: string
  oidc_subject_claim :: string

definition DEFAULT_DATABASE_URL :: string where
  "DEFAULT_DATABASE_URL = ''sqlite:///./energy_flex_trust.db''"

text \<open>\<open>os.getenv(name, default)\<close>\<close>

definition getenv_default :: "(string \<Rightarrow> string option) \<Rightarrow> string \<Rightarrow> string \<Rightarrow> string" where
  "getenv_default getenv name dflt = (case getenv name of Some v \<Rightarrow> v | None \<Rightarrow> dflt)"

definition from_environment :: "(string \<Rightarrow> string option) \<Rightarrow> settings" where
  "from_environment getenv =
     \<lparr>database_url = getenv_default getenv ''DATABASE_URL'' DEFAULT_DATABASE_URL,
      environment = getenv_default getenv ''APP_ENV'' ''development'',
      auth_mode = getenv_default getenv ''AUTH_MODE'' ''development_headers'',
      oidc_issuer = getenv_default getenv ''OIDC_ISSUER'' '''',
      oidc_audience = getenv_default getenv ''OIDC_AUDIENCE'' '''',
      oidc_jwks_json = getenv_default getenv ''OIDC_JWKS_JSON'' '''',
      oidc_role_claim = getenv_default getenv ''OIDC_ROLE_CLAIM'' ''energy_flex_role'',
      oidc_subject_claim = getenv_default getenv ''OIDC_SUBJECT_CLAIM'' ''sub''\<rparr>"

definition SAFE_ENVIRONMENTS :: "string list" where
  "SAFE_ENVIRONMENTS = [''development'', ''test'']"

definition validate_runtime :: "settings \<Rightarrow> unit result" where
  "validate_runtime c =
     (if auth_mode c \<notin> {''development_headers'', ''oidc''}
      then Inl (ValueError (''AUTH_MODE must be '' @ squote @ ''development_headers'' @ squote @
        '' or '' @ squote @ ''oidc'' @ squote @ ''.''))
      else if environment c \<notin> set SAFE_ENVIRONMENTS \<and> auth_mode c \<noteq> ''oidc''
      then Inl (ValueError (''Non-development environments require AUTH_MODE=oidc; '' @
        ''caller-asserted actor headers are not an authentication boundary.''))
      else if auth_mode c = ''oidc'' \<and>
        (oidc_issuer c = [] \<or> oidc_audience c = [] \<or> oidc_jwks_json c = [])
      then Inl (ValueError ''OIDC mode requires OIDC_ISSUER, OIDC_AUDIENCE and OIDC_JWKS_JSON.'')
      else Inr ())"

section \<open>Token verification\<close>

type_synonym jdict = "(string \<times> json) list"

text \<open>
  \<open>jwt.get_unverified_header\<close>; \<open>PyJWK.from_dict(...).key\<close> followed by \<open>jwt.decode\<close> with token,
  key, algorithm, audience, issuer and required claims; whether an exception is an
  \<open>InvalidTokenError\<close>; and \<open>json.loads\<close> of the key set (None: \<open>JSONDecodeError\<close>).
\<close>

record jwt_lib =
  unverified_header :: "string \<Rightarrow> jdict result"
  jwt_decode :: "string \<Rightarrow> jdict \<Rightarrow> string \<Rightarrow> string \<Rightarrow> string \<Rightarrow> string list \<Rightarrow> jdict result"
  is_invalid_token :: "pyexn \<Rightarrow> bool"
  jwks_loads :: "string \<Rightarrow> json option"

record oidc_config =
  cfg_issuer :: string
  cfg_audience :: string
  cfg_jwks_json :: string
  cfg_role_claim :: string
  cfg_subject_claim :: string

definition ALLOWED_ALGORITHMS :: "string set" where
  "ALLOWED_ALGORITHMS = {''RS256'', ''ES256''}"

definition validate_config :: "oidc_config \<Rightarrow> unit result" where
  "validate_config c =
     (if cfg_issuer c = [] \<or> cfg_audience c = [] \<or> cfg_jwks_json c = []
      then Inl (ValueError ''OIDC issuer, audience and JWKS are required.'')
      else if cfg_role_claim c = [] \<or> cfg_subject_claim c = []
      then Inl (ValueError ''OIDC subject and role claim names are required.'')
      else Inr ())"

text \<open>\<open>d.get(k)\<close>, with \<open>null\<close> for Python's \<open>None\<close>.\<close>

definition jget :: "jdict \<Rightarrow> string \<Rightarrow> json" where
  "jget d k = (case map_of d k of Some v \<Rightarrow> v | None \<Rightarrow> JNull)"

text \<open>The loop over the configured keys; \<open>indexed\<close> grows in insertion order.\<close>

fun index_keys :: "json list \<Rightarrow> (string \<times> jdict) list \<Rightarrow> (string \<times> jdict) list result" where
  "index_keys [] indexed = Inr indexed"
| "index_keys (JObj key # rest) indexed =
     (case jget key ''kid'' of
        JStr kid \<Rightarrow>
          if kid = [] then Inl (AuthenticationError ''Every configured OIDC JWK requires a kid.'')
          else if kid \<in> fst ` set indexed
          then Inl (AuthenticationError ''Configured OIDC JWKS contains duplicate kids.'')
          else index_keys rest (indexed @ [(kid, key)])
      | _ \<Rightarrow> Inl (AuthenticationError ''Every configured OIDC JWK requires a kid.''))"
| "index_keys (_ # rest) indexed =
     Inl (AuthenticationError ''Configured OIDC JWKS contains an invalid key.'')"

text \<open>A key set that is not an object has no \<open>get\<close>: an \<open>AttributeError\<close>, not a domain error.\<close>

definition load_keys :: "jwt_lib \<Rightarrow> string \<Rightarrow> (string \<times> jdict) list result" where
  "load_keys L jwks =
     (case jwks_loads L jwks of
        None \<Rightarrow> Inl (AuthenticationError ''Configured OIDC JWKS is not valid JSON.'')
      | Some document \<Rightarrow>
        (case document of
           JObj d \<Rightarrow>
             (case jget d ''keys'' of
                JArr (k # ks) \<Rightarrow> index_keys (k # ks) []
              | _ \<Rightarrow> Inl (AuthenticationError ''Configured OIDC JWKS contains no keys.''))
         | _ \<Rightarrow> Inl (OtherError ''AttributeError'' ''get'')))"

definition ALL_ROLES :: "actor_role list" where
  "ALL_ROLES = [ASSET_OWNER, MARKET_OPERATOR, SETTLEMENT_ANALYST, AUDITOR, RECOVERY_OPERATOR, SYSTEM]"

definition role_of_value :: "string \<Rightarrow> actor_role option" where
  "role_of_value v = find (\<lambda>r. role_value r = v) ALL_ROLES"

definition resolve_role :: "json \<Rightarrow> actor_role result" where
  "resolve_role v =
     (case (case v of JStr s \<Rightarrow> Some s | JArr [JStr s] \<Rightarrow> Some s | _ \<Rightarrow> None) of
        None \<Rightarrow> Inl (AuthenticationError ''OIDC role claim must contain exactly one Energy Flex role.'')
      | Some s \<Rightarrow>
        (case role_of_value s of
           None \<Rightarrow> Inl (AuthenticationError ''OIDC token contains an unsupported role.'')
         | Some r \<Rightarrow> Inr r))"

text \<open>\<open>algorithm not in ALLOWED_ALGORITHMS\<close>: a list or an object cannot be hashed.\<close>

definition check_algorithm :: "json \<Rightarrow> string result" where
  "check_algorithm v = (case v of
     JStr a \<Rightarrow> if a \<in> ALLOWED_ALGORITHMS then Inr a
               else Inl (AuthenticationError ''Bearer token algorithm is not allowed.'')
   | JArr _ \<Rightarrow> Inl (OtherError ''TypeError'' ''unhashable type'')
   | JObj _ \<Rightarrow> Inl (OtherError ''TypeError'' ''unhashable type'')
   | _ \<Rightarrow> Inl (AuthenticationError ''Bearer token algorithm is not allowed.''))"

text \<open>The second \<open>try\<close>: \<open>except (InvalidTokenError, ValueError)\<close>.\<close>

definition caught :: "jwt_lib \<Rightarrow> pyexn \<Rightarrow> bool" where
  "caught L e = (is_invalid_token L e \<or> (case e of ValueError _ \<Rightarrow> True | _ \<Rightarrow> False))"

definition verify_oidc_actor :: "jwt_lib \<Rightarrow> string \<Rightarrow> oidc_config \<Rightarrow> actor result" where
  "verify_oidc_actor L token c =
     (case validate_config c of Inl e \<Rightarrow> Inl e | Inr _ \<Rightarrow>
      case unverified_header L token of
        Inl e \<Rightarrow> Inl (if is_invalid_token L e
                      then AuthenticationError ''Bearer token header is invalid.'' else e)
      | Inr header \<Rightarrow>
      case check_algorithm (jget header ''alg'') of Inl e \<Rightarrow> Inl e | Inr algorithm \<Rightarrow>
      case jget header ''kid'' of
        JStr kid \<Rightarrow>
         (if kid = [] then Inl (AuthenticationError ''Bearer token requires a key identifier.'') else
          case load_keys L (cfg_jwks_json c) of Inl e \<Rightarrow> Inl e | Inr keys \<Rightarrow>
          case map_of keys kid of
            None \<Rightarrow> Inl (AuthenticationError ''Bearer token key is not trusted.'')
          | Some key_data \<Rightarrow>
            if jget key_data ''alg'' \<notin> {JNull, JStr algorithm}
            then Inl (AuthenticationError ''Bearer token algorithm does not match its JWK.'')
            else case jwt_decode L token key_data algorithm (cfg_audience c) (cfg_issuer c)
                [''exp'', ''iat'', cfg_subject_claim c, cfg_role_claim c] of
              Inl e \<Rightarrow> Inl (if caught L e
                            then AuthenticationError ''Bearer token verification failed.'' else e)
            | Inr claims \<Rightarrow>
              (case jget claims (cfg_subject_claim c) of
                 JStr subject \<Rightarrow>
                   if blank subject then Inl (AuthenticationError ''Bearer token subject is invalid.'')
                   else (case resolve_role (jget claims (cfg_role_claim c)) of
                           Inl e \<Rightarrow> Inl e
                         | Inr r \<Rightarrow> Inr \<lparr>actor_id = subject, actor_role = r\<rparr>)
               | _ \<Rightarrow> Inl (AuthenticationError ''Bearer token subject is invalid.'')))
      | _ \<Rightarrow> Inl (AuthenticationError ''Bearer token requires a key identifier.''))"

section \<open>The actor of a request\<close>

record headers =
  hdr_authorization :: "string option"
  hdr_actor_id :: "string option"
  hdr_actor_role :: "actor_role option"

definition BEARER :: string where
  "BEARER = ''Bearer ''"

definition get_actor :: "jwt_lib \<Rightarrow> settings \<Rightarrow> headers \<Rightarrow> actor result" where
  "get_actor L c h =
     (if auth_mode c = ''oidc'' then
        (case hdr_authorization h of
           None \<Rightarrow> Inl (AuthenticationError ''A Bearer access token is required.'')
         | Some authorization \<Rightarrow>
           if \<not> prefix BEARER authorization
           then Inl (AuthenticationError ''A Bearer access token is required.'')
           else (let token = strip (drop (length BEARER) authorization) in
             if token = [] then Inl (AuthenticationError ''A Bearer access token is required.'')
             else verify_oidc_actor L token
               \<lparr>cfg_issuer = oidc_issuer c, cfg_audience = oidc_audience c,
                cfg_jwks_json = oidc_jwks_json c, cfg_role_claim = oidc_role_claim c,
                cfg_subject_claim = oidc_subject_claim c\<rparr>))
      else case (hdr_actor_id h, hdr_actor_role h) of
        (Some i, Some r) \<Rightarrow> Inr \<lparr>actor_id = i, actor_role = r\<rparr>
      | _ \<Rightarrow> Inl (AuthenticationError
          ''Development actor headers X-Actor-ID and X-Actor-Role are required.''))"

section \<open>What an accepted token establishes\<close>

lemma role_value_inject [simp]: "role_value r = role_value q \<longleftrightarrow> r = q"
  by (cases r; cases q) simp_all

lemma role_of_value_Some [simp]: "role_of_value v = Some r \<longleftrightarrow> role_value r = v"
  by (cases r) (auto simp: role_of_value_def ALL_ROLES_def)

lemma role_of_role_value [simp]: "role_of_value (role_value r) = Some r"
  by (simp only: role_of_value_Some)

lemma resolve_role_Inr:
  "resolve_role v = Inr r \<longleftrightarrow> v = JStr (role_value r) \<or> v = JArr [JStr (role_value r)]"
  by (auto simp: resolve_role_def split: json.splits list.splits option.splits)

lemma index_keys_keeps:
  "index_keys ks acc = Inr ix \<Longrightarrow> distinct (map fst acc) \<Longrightarrow>
     distinct (map fst ix) \<and> set acc \<subseteq> set ix \<and>
     (\<forall>(kid, key)\<in>set ix - set acc. JObj key \<in> set ks \<and> jget key ''kid'' = JStr kid \<and> kid \<noteq> [])"
proof (induction ks acc rule: index_keys.induct)
  case (2 key rest acc)
  from "2.prems" obtain kid where k: "jget key ''kid'' = JStr kid" "kid \<noteq> []" "kid \<notin> fst ` set acc"
      "index_keys rest (acc @ [(kid, key)]) = Inr ix"
    by (auto split: json.splits if_splits)
  with "2.IH" [OF k(1)] "2.prems"(2)
  have "distinct (map fst ix) \<and> set (acc @ [(kid, key)]) \<subseteq> set ix \<and>
     (\<forall>(i, y)\<in>set ix - set (acc @ [(kid, key)]). JObj y \<in> set rest \<and> jget y ''kid'' = JStr i \<and> i \<noteq> [])"
    by auto
  with k show ?case by fastforce
qed simp_all

lemma verify_oidc_actor_Inr:
  assumes "verify_oidc_actor L token c = Inr a"
  obtains header algorithm kid keys key claims where
    "unverified_header L token = Inr header" "jget header ''alg'' = JStr algorithm"
    "algorithm \<in> ALLOWED_ALGORITHMS" "jget header ''kid'' = JStr kid"
    "load_keys L (cfg_jwks_json c) = Inr keys" "map_of keys kid = Some key"
    "jget key ''alg'' \<in> {JNull, JStr algorithm}"
    "jwt_decode L token key algorithm (cfg_audience c) (cfg_issuer c)
       [''exp'', ''iat'', cfg_subject_claim c, cfg_role_claim c] = Inr claims"
    "jget claims (cfg_subject_claim c) = JStr (actor_id a)" "\<not> blank (actor_id a)"
    "resolve_role (jget claims (cfg_role_claim c)) = Inr (actor_role a)"
  using assms unfolding verify_oidc_actor_def check_algorithm_def
  by (auto split: sum.split_asm json.split_asm option.split_asm if_split_asm)

lemma validate_runtime_Inr:
  "validate_runtime c = Inr u \<Longrightarrow> environment c \<notin> set SAFE_ENVIRONMENTS \<Longrightarrow> auth_mode c = ''oidc''"
  by (auto simp: validate_runtime_def split: if_splits)

end
