(* ===== verification/Api.thy ===== *)
theory Api
  imports Service Auth
begin

text \<open>
  \<open>api.py\<close>: the routes.  A request resolves its actor, then its command is validated, then the
  service runs; a \<open>DomainError\<close> becomes its status, code and message, a refused command is
  unprocessable, any other exception is a server error.  A reply carries the resource of the
  operation, whose transaction is committed by then; the last line of each route, \<open>model_validate\<close>,
  reads it into its response model and is in Responses, where \<open>exchange\<close> is the whole route.
\<close>

section \<open>Requests and responses\<close>

datatype request =
    RegisterAsset asset_create
  | CreateOffer offer_create
  | ReserveOffer string reservation_create "string option"
  | IssueDispatch string dispatch_create "string option"
  | RecordReading meter_reading_create
  | SettleReservation string "string option"
  | GetEvidence string
  | VerifyAudit
  | OutboxHealth

datatype resource =
    AssetRes asset | OfferRes flex_offer | ReservationRes reservation | DispatchRes dispatch
  | ReadingRes meter_reading | SettlementRes settlement | EvidenceRes evidence
  | AuditRes audit_verification | OutboxRes outbox_snapshot

datatype response =
    Reply nat resource
  | Problem nat string string
  | Unprocessable
  | ServerError

text \<open>\<open>domain_error_handler\<close>\<close>

definition problem :: "pyexn \<Rightarrow> response" where
  "problem e = (case (status_code e, error_code e) of
     (Some st, Some code) \<Rightarrow> Problem st code (exn_text e) | _ \<Rightarrow> ServerError)"

definition render :: "nat \<Rightarrow> ('a \<Rightarrow> resource) \<Rightarrow> 'a result \<times> db \<Rightarrow> response \<times> db" where
  "render status mk rs =
     ((case fst rs of Inl e \<Rightarrow> problem e | Inr x \<Rightarrow> Reply status (mk x)), snd rs)"

text \<open>FastAPI refuses a command its model refuses, and a request without a required header.\<close>

definition with_valid :: "'c result \<Rightarrow> ('c \<Rightarrow> response \<times> db) \<Rightarrow> db \<Rightarrow> response \<times> db" where
  "with_valid v k s = (case v of Inl _ \<Rightarrow> (Unprocessable, s) | Inr c \<Rightarrow> k c)"

definition with_key :: "string option \<Rightarrow> (string \<Rightarrow> response \<times> db) \<Rightarrow> db \<Rightarrow> response \<times> db" where
  "with_key key k s = (case key of None \<Rightarrow> (Unprocessable, s) | Some i \<Rightarrow> k i)"

definition outbox_health :: "draws \<Rightarrow> actor \<Rightarrow> db \<Rightarrow> outbox_snapshot result" where
  "outbox_health d a s =
     (case require_role a [AUDITOR, MARKET_OPERATOR] of Inl e \<Rightarrow> Inl e
      | Inr _ \<Rightarrow> Inr (snapshot (as_utc (now d 0)) s))"

section \<open>The routes\<close>

fun serve :: "env \<Rightarrow> draws \<Rightarrow> actor \<Rightarrow> request \<Rightarrow> db \<Rightarrow> response \<times> db" where
  "serve E d a (RegisterAsset c) s =
     with_valid (validate_asset c) (\<lambda>c. render 201 AssetRes (register_asset E d c a s)) s"
| "serve E d a (CreateOffer c) s =
     with_valid (validate_offer c) (\<lambda>c. render 201 OfferRes (create_offer E d c a s)) s"
| "serve E d a (ReserveOffer offer_id c key) s =
     with_key key (\<lambda>key. with_valid (validate_reservation c)
       (\<lambda>c. render 201 ReservationRes (reserve_offer E d offer_id c a key s)) s) s"
| "serve E d a (IssueDispatch reservation_id c key) s =
     with_key key (\<lambda>key. with_valid (validate_dispatch c)
       (\<lambda>c. render 201 DispatchRes (issue_dispatch E d reservation_id c a key s)) s) s"
| "serve E d a (RecordReading c) s =
     with_valid (validate_meter_reading c)
       (\<lambda>c. render 201 ReadingRes (record_meter_reading E d c a s)) s"
| "serve E d a (SettleReservation reservation_id key) s =
     with_key key (\<lambda>key. render 201 SettlementRes (settle_reservation E d reservation_id a key s)) s"
| "serve E d a (GetEvidence settlement_id) s =
     render 200 EvidenceRes (settlement_evidence E settlement_id a s, s)"
| "serve E d a VerifyAudit s = render 200 AuditRes (service_audit_verification E a s, s)"
| "serve E d a OutboxHealth s = render 200 OutboxRes (outbox_health d a s, s)"

definition handle ::
  "jwt_lib \<Rightarrow> settings \<Rightarrow> env \<Rightarrow> draws \<Rightarrow> headers \<Rightarrow> request \<Rightarrow> db \<Rightarrow> response \<times> db" where
  "handle L c E d h req s =
     (case get_actor L c h of Inl e \<Rightarrow> (problem e, s) | Inr a \<Rightarrow> serve E d a req s)"

section \<open>Failures change nothing\<close>

text \<open>An operation that raises leaves the database as it was.\<close>

locale atomic_operation =
  fixes run :: "db \<Rightarrow> 'a result \<times> db"
  assumes undone: "run s = (Inl e, s') \<Longrightarrow> s' = s"
begin

lemma rendered: "render st mk (run s) = (resp, s') \<Longrightarrow> (\<nexists>x. resp = Reply st x) \<Longrightarrow> s' = s"
  using undone [of s] by (auto simp: render_def split: sum.splits) (metis prod.collapse)

lemma unchanged_or_result: "run s = (r, s') \<Longrightarrow> s' \<noteq> s \<Longrightarrow> \<exists>x. r = Inr x"
  using undone by (cases r) auto

end

lemma guarded_undone:
  "(case require_role a rs of Inl e \<Rightarrow> (Inl e, s) | Inr _ \<Rightarrow> transaction body s) = (Inl e, s') \<Longrightarrow> s' = s"
  by (auto simp: transaction_Inl split: sum.splits)

interpretation at_asset: atomic_operation "register_asset E d c a" for E d c a
  by unfold_locales (auto simp: register_asset_def transaction_Inl split: sum.splits if_splits)

interpretation at_offer: atomic_operation "create_offer E d c a" for E d c a
  by unfold_locales (unfold create_offer_def, erule guarded_undone)

interpretation at_reserve: atomic_operation "reserve_offer E d i c a key" for E d i c a key
  by unfold_locales (unfold reserve_offer_def, erule guarded_undone)

interpretation at_dispatch: atomic_operation "issue_dispatch E d i c a key" for E d i c a key
  by unfold_locales (unfold issue_dispatch_def, erule guarded_undone)

interpretation at_reading: atomic_operation "record_meter_reading E d c a" for E d c a
  by unfold_locales (unfold record_meter_reading_def, erule guarded_undone)

interpretation at_settle: atomic_operation "settle_reservation E d i a key" for E d i a key
  by unfold_locales (unfold settle_reservation_def, erule guarded_undone)

interpretation at_claim: atomic_operation "claim_one E w d" for E w d
  by unfold_locales (rule claim_one_error)

interpretation at_success: atomic_operation "record_success E w d c ref" for E w d c ref
  by unfold_locales (rule record_success_Inl)

interpretation at_failure: atomic_operation "record_failure E w d c exc" for E w d c exc
  by unfold_locales (simp add: record_failure_def transaction_Inl Let_def)

lemma rendered_201:
  "atomic_operation run \<Longrightarrow> render 201 mk (run s) = (resp, s') \<Longrightarrow> s' \<noteq> s \<Longrightarrow>
     \<exists>x. resp = Reply 201 x"
  using atomic_operation.rendered by blast

text \<open>A response that is not a 201 comes with the database as it was.\<close>

lemma serve_error_unchanged:
  assumes "serve E d a req s = (resp, s')" "\<nexists>x. resp = Reply 201 x"
  shows "s' = s"
proof (cases req)
  case (RegisterAsset c)
  with assms show ?thesis
    by (auto simp: with_valid_def split: sum.splits dest: at_asset.rendered)
next
  case (CreateOffer c)
  with assms show ?thesis
    by (auto simp: with_valid_def split: sum.splits dest: at_offer.rendered)
next
  case (ReserveOffer i c key)
  with assms show ?thesis
    by (auto simp: with_valid_def with_key_def split: sum.splits option.splits dest: at_reserve.rendered)
next
  case (IssueDispatch i c key)
  with assms show ?thesis
    by (auto simp: with_valid_def with_key_def split: sum.splits option.splits dest: at_dispatch.rendered)
next
  case (RecordReading c)
  with assms show ?thesis
    by (auto simp: with_valid_def split: sum.splits dest: at_reading.rendered)
next
  case (SettleReservation i key)
  with assms show ?thesis
    by (auto simp: with_key_def split: option.splits dest: at_settle.rendered)
qed (use assms in \<open>simp_all add: render_def\<close>)

section \<open>Every kept property is kept by every request\<close>

lemma render_db: "snd (render st mk rs) = snd rs"
  by (simp add: render_def)

context store_invariant
begin

lemma serve: "serve E d a req s = (resp, s') \<Longrightarrow> I s \<Longrightarrow> I s'"
  by (cases req)
    (auto simp: with_valid_def with_key_def render_def prod_eq_iff split: sum.splits option.splits
      intro: register_asset [OF prod.collapse [symmetric]] create_offer [OF prod.collapse [symmetric]]
        reserve_offer [OF prod.collapse [symmetric]] issue_dispatch [OF prod.collapse [symmetric]]
        record_meter_reading [OF prod.collapse [symmetric]]
        settle_reservation [OF prod.collapse [symmetric]])

lemma handle: "handle L c E d h req s = (resp, s') \<Longrightarrow> I s \<Longrightarrow> I s'"
  by (auto simp: handle_def split: sum.splits dest: serve)

end

end
