(* ===== verification/Platform.thy ===== *)
theory Platform
  imports Terms Api
begin

text \<open>
  The running platform: one database served by API processes and outbox workers in any
  interleaving.  A step is one transaction, the unit at which processes interleave: a request,
  a claim, the record of a published or failed attempt, an authorized re-drive, or the loss of
  a claim when its worker dies.  Requests, commands, clocks, identifiers and outcomes of
  publications are arbitrary.  The invariants are proved once for systems of this form, and the
  status of reservations refines an abstract life cycle.
\<close>

section \<open>Systems and their invariants\<close>

inductive reach :: "('s \<Rightarrow> 's \<Rightarrow> bool) \<Rightarrow> 's \<Rightarrow> 's \<Rightarrow> bool" for step where
  reach_refl: "reach step s s"
| reach_step: "reach step s t \<Longrightarrow> step t u \<Longrightarrow> reach step s u"

lemma reach_trans: "reach step t u \<Longrightarrow> reach step s t \<Longrightarrow> reach step s u"
  by (induction rule: reach.induct) (auto intro: reach_step)

locale invariant =
  fixes step :: "'s \<Rightarrow> 's \<Rightarrow> bool" and inv :: "'s \<Rightarrow> bool"
  assumes preserved: "step s t \<Longrightarrow> inv s \<Longrightarrow> inv t"
begin

lemma always: "reach step s t \<Longrightarrow> inv s \<Longrightarrow> inv t"
  by (induction rule: reach.induct) (auto intro: preserved)

end

text \<open>Refinement: seen through \<open>abs\<close>, a step is a step of the abstract system or nothing.\<close>

locale refinement = invariant step inv for step :: "'s \<Rightarrow> 's \<Rightarrow> bool" and inv +
  fixes astep :: "'a \<Rightarrow> 'a \<Rightarrow> bool" and abs :: "'s \<Rightarrow> 'a"
  assumes simulated: "step s t \<Longrightarrow> inv s \<Longrightarrow> abs t = abs s \<or> astep (abs s) (abs t)"
begin

lemma refines: "reach step s t \<Longrightarrow> inv s \<Longrightarrow> reach astep (abs s) (abs t)"
proof (induction rule: reach.induct)
  case (reach_step s t u)
  then have "abs u = abs t \<or> astep (abs t) (abs u)" using always simulated by blast
  with reach_step show ?case by (auto intro: reach.reach_step)
qed (rule reach_refl)

end

section \<open>The steps\<close>

record platform =
  store :: db
  claims :: "claimed_message list"

definition start :: platform where
  "start = \<lparr>store = empty_db, claims = []\<rparr>"

inductive step :: "env \<Rightarrow> platform \<Rightarrow> platform \<Rightarrow> bool" for E where
  Serve: "serve E d a req (store p) = (resp, s') \<Longrightarrow> step E p (p\<lparr>store := s'\<rparr>)"
| Redrive: "authorize_redrive E d a mid did reason (store p) = (r, s') \<Longrightarrow> step E p (p\<lparr>store := s'\<rparr>)"
| Claim: "claim_one E w d (store p) = (Inr (Some c), s') \<Longrightarrow>
    step E p (p\<lparr>store := s', claims := c # claims p\<rparr>)"
| Published: "c \<in> set (claims p) \<Longrightarrow> record_success E w d c reference (store p) = (r, s') \<Longrightarrow>
    step E p (p\<lparr>store := s', claims := remove1 c (claims p)\<rparr>)"
| Failed: "c \<in> set (claims p) \<Longrightarrow> record_failure E w d c exc (store p) = (r, s') \<Longrightarrow>
    step E p (p\<lparr>store := s', claims := remove1 c (claims p)\<rparr>)"
| Crash: "c \<in> set (claims p) \<Longrightarrow> step E p (p\<lparr>claims := remove1 c (claims p)\<rparr>)"

inductive_cases step_cases: "step E p q"
inductive_simps step_simps: "step E p q"

section \<open>What the database alone keeps\<close>

context store_invariant
begin

lemma platform_step: "step E p q \<Longrightarrow> I (store p) \<Longrightarrow> I (store q)"
  by (erule step_cases)
    (auto dest: serve authorize_redrive claim_one record_success record_failure)

lemma platform_invariant: "invariant (step E) (\<lambda>p. I (store p))"
  by unfold_locales (rule platform_step)

end

interpretation sys_keys: invariant "step E" "\<lambda>p. keys_ok (store p)" for E
  by (rule keys.platform_invariant)

interpretation sys_refs: invariant "step E" "\<lambda>p. refs_ok (store p)" for E
  by (rule refs.platform_invariant)

interpretation sys_chain: invariant "step E" "\<lambda>p. audit_ok E (store p)" for E
  by (rule chain.platform_invariant)

interpretation sys_kept: invariant "step E" "\<lambda>p. retains old (store p)" for E old
  by (rule kept.platform_invariant)

lemma step_retains: "step E p q \<Longrightarrow> retains (store p) (store q)"
  using sys_kept.preserved [of E p q "store p"] by simp

section \<open>Claims in flight\<close>

text \<open>A claim in flight is of a message of the database and carries its terms.\<close>

definition claim_terms :: "claimed_message \<Rightarrow> string \<times> string \<times> string \<times> (string \<times> string) list" where
  "claim_terms c = (clm_id c, clm_aggregate_id c, clm_idempotency_key c, clm_payload c)"

definition claim_held :: "db \<Rightarrow> claimed_message \<Rightarrow> bool" where
  "claim_held s c \<longleftrightarrow> (\<exists>m\<in>set (messages s). claim_terms c =
     (msg_id m, msg_aggregate_id m, msg_idempotency_key m, msg_payload m))"

lemma claim_held_retained: "claim_held s c \<Longrightarrow> retains s s' \<Longrightarrow> claim_held s' c"
proof -
  assume "claim_held s c" "retains s s'"
  then obtain m where m: "m \<in> set (messages s)"
      "claim_terms c = (msg_id m, msg_aggregate_id m, msg_idempotency_key m, msg_payload m)"
    and "prefix (map message_terms (messages s)) (map message_terms (messages s'))"
    by (auto simp: claim_held_def retains_def)
  with prefix_image [of message_terms "messages s" "messages s'" m]
  obtain m' where "m' \<in> set (messages s')" "message_terms m' = message_terms m" by blast
  with m show ?thesis
    unfolding claim_held_def by (intro bexI [of _ m']) (simp_all add: terms_defs)
qed

lemma claim_held_ok:
  assumes "claim_held s c" "keys_ok s"
  shows "claim_ok s c"
proof -
  from assms(1) obtain n where n: "n \<in> set (messages s)"
      "claim_terms c = (msg_id n, msg_aggregate_id n, msg_idempotency_key n, msg_payload n)"
    by (auto simp: claim_held_def)
  have "m = n" if "m \<in> set (messages s)" "msg_id m = clm_id c" for m
  proof (rule keyed_unique [of msg_id])
    show "distinct (map msg_id (messages s))" using assms(2) by (simp add: keys_ok_def)
  qed (use that n in \<open>simp_all add: claim_terms_def\<close>)
  with n show ?thesis by (auto simp: claim_ok_def claim_terms_def)
qed

lemma claim_one_held: "claim_one E w d s = (Inr (Some c), s') \<Longrightarrow> claim_held s c"
  by (erule claim_one_elim) (auto simp: claim_held_def claim_terms_def)

interpretation sys_claims: invariant "step E" "\<lambda>p. \<forall>c\<in>set (claims p). claim_held (store p) c" for E
proof unfold_locales
  fix p q
  assume s: "step E p q" and held: "\<forall>c\<in>set (claims p). claim_held (store p) c"
  have "claim_held (store p) c" if "c \<in> set (claims q)" for c
    using s
    by (cases rule: step.cases)
      (use that held in \<open>auto dest: claim_one_held set_remove1_subset [THEN subsetD]\<close>)
  then show "\<forall>c\<in>set (claims q). claim_held (store q) c"
    using claim_held_retained step_retains [OF s] by blast
qed


section \<open>The whole invariant\<close>

definition sound_db :: "db \<Rightarrow> bool" where
  "sound_db s \<longleftrightarrow> keys_ok s \<and> refs_ok s \<and> lifecycle_ok s \<and> terms_ok s"

lemma sound_db_result:
  assumes "sound_db s" "atomic_operation run" "run s = (r, s')"
    and "\<And>x. r = Inr x \<Longrightarrow> sound_db s'"
  shows "sound_db s'"
  using assms atomic_operation.undone [OF assms(2)] by (cases r) auto

lemma sound_reserve:
  assumes "reserve_offer E d i c a key s = (r, s')" "sound_db s" "validate_reservation c0 = Inr c"
  shows "sound_db s'"
proof (rule sound_db_result [OF assms(2) at_reserve.atomic_operation_axioms assms(1)])
  fix x
  assume x: "r = Inr x"
  note run = assms(1) [unfolded x]
  show "sound_db s'"
  proof (cases "idem_lookup ''reserve_offer'' key s")
    case None
    with run assms(2,3) show ?thesis
      unfolding sound_db_def
      by (auto intro: lifecycle_reserve terms_reserve keys.reserve_offer refs.reserve_offer)
  next
    case (Some y)
    with reserve_offer_replay [OF Some run] assms(2) show ?thesis by simp
  qed
qed

lemma sound_issue:
  assumes "issue_dispatch E d i c a key s = (r, s')" "sound_db s" "validate_dispatch c0 = Inr c"
  shows "sound_db s'"
proof (rule sound_db_result [OF assms(2) at_dispatch.atomic_operation_axioms assms(1)])
  fix x
  assume x: "r = Inr x"
  note run = assms(1) [unfolded x]
  show "sound_db s'"
  proof (cases "idem_lookup ''issue_dispatch'' key s")
    case None
    with run assms(2,3) show ?thesis
      unfolding sound_db_def
      by (auto intro: lifecycle_issue terms_issue keys.issue_dispatch refs.issue_dispatch)
  next
    case (Some y)
    with issue_dispatch_replay [OF Some run] assms(2) show ?thesis by simp
  qed
qed

lemma sound_settle:
  assumes "settle_reservation E d i a key s = (r, s')" "sound_db s"
  shows "sound_db s'"
proof (rule sound_db_result [OF assms(2) at_settle.atomic_operation_axioms assms(1)])
  fix x
  assume x: "r = Inr x"
  note run = assms(1) [unfolded x]
  show "sound_db s'"
  proof (cases "idem_lookup ''settle_reservation'' key s")
    case None
    with run assms(2) show ?thesis
      unfolding sound_db_def
      by (auto intro: lifecycle_settle terms_settle keys.settle_reservation refs.settle_reservation)
  next
    case (Some y)
    with settle_reservation_replay [OF Some run] assms(2) show ?thesis by simp
  qed
qed

lemma sound_asset:
  assumes "register_asset E d c a s = (r, s')" "sound_db s"
  shows "sound_db s'"
  by (rule sound_db_result [OF assms(2) at_asset.atomic_operation_axioms assms(1)])
    (use assms in \<open>auto simp: sound_db_def intro: lifecycle_register_asset terms_register_asset
      keys.register_asset refs.register_asset\<close>)

lemma sound_offer:
  assumes "create_offer E d c a s = (r, s')" "sound_db s" "validate_offer c0 = Inr c"
  shows "sound_db s'"
  by (rule sound_db_result [OF assms(2) at_offer.atomic_operation_axioms assms(1)])
    (use assms in \<open>auto simp: sound_db_def intro: lifecycle_create_offer terms_create_offer
      keys.create_offer refs.create_offer\<close>)

lemma sound_reading:
  assumes "record_meter_reading E d c a s = (r, s')" "sound_db s" "validate_meter_reading c0 = Inr c"
  shows "sound_db s'"
  by (rule sound_db_result [OF assms(2) at_reading.atomic_operation_axioms assms(1)])
    (use assms in \<open>auto simp: sound_db_def intro: lifecycle_reading terms_reading
      keys.record_meter_reading refs.record_meter_reading\<close>)

lemma sound_serve: "serve E d a req s = (resp, s') \<Longrightarrow> sound_db s \<Longrightarrow> sound_db s'"
  by (cases req)
    (auto simp: with_valid_def with_key_def render_def prod_eq_iff split: sum.splits option.splits
      intro: sound_asset [OF prod.collapse [symmetric]] sound_offer [OF prod.collapse [symmetric]]
        sound_reserve [OF prod.collapse [symmetric]] sound_issue [OF prod.collapse [symmetric]]
        sound_reading [OF prod.collapse [symmetric]] sound_settle [OF prod.collapse [symmetric]])

text \<open>The worker and the re-drive leave the terms alone and move the statuses together.\<close>

lemma sound_same_terms:
  "sound_db s \<Longrightarrow> retains s s' \<Longrightarrow> same_terms s s' \<Longrightarrow> keys_ok s' \<Longrightarrow> refs_ok s' \<Longrightarrow> lifecycle_ok s' \<Longrightarrow>
     sound_db s'"
  by (auto simp: sound_db_def intro: terms_ok_same)

lemma sound_claim:
  assumes "claim_one E w d s = (Inr (Some c), s')" "sound_db s"
  shows "sound_db s'"
proof (rule sound_same_terms [OF assms(2)])
  show "retains s s'" using assms(1) by (rule kept.claim_one) simp
  show "same_terms s s'" using assms(1) by (rule same_terms_claim)
qed (use assms in \<open>auto simp: sound_db_def intro: keys.claim_one refs.claim_one lifecycle_claim\<close>)

lemma sound_success:
  assumes "record_success E w d c reference s = (r, s')" "sound_db s" "claim_held s c"
  shows "sound_db s'"
proof (cases r)
  case (Inl e)
  with assms at_success.undone show ?thesis by blast
next
  case (Inr b)
  show ?thesis
  proof (cases b)
    case True
    with Inr assms(1) have run: "record_success E w d c reference s = (Inr True, s')" by simp
    show ?thesis
    proof (rule sound_same_terms [OF assms(2)])
      show "retains s s'" using run by (rule kept.record_success) simp
      show "same_terms s s'" using run by (rule same_terms_success)
    qed (use run assms claim_held_ok in \<open>auto simp: sound_db_def
      intro: keys.record_success refs.record_success lifecycle_success\<close>)
  next
    case False
    with Inr assms(1) have "record_success E w d c reference s = (Inr False, s')" by simp
    with assms(2) show ?thesis by (auto dest: record_success_False)
  qed
qed

lemma lifecycle_failure:
  assumes "record_failure E w d c exc s = (Inr b, s')"
    and "lifecycle_ok s" "keys_ok s" "refs_ok s" "claim_ok s c"
  shows "lifecycle_ok s'"
proof (cases "b \<or> current c s")
  case True
  with assms show ?thesis by (cases b) (auto intro: lifecycle_dead lifecycle_retry)
next
  case False
  with assms record_stale(2) [of c s E w d exc] show ?thesis by simp
qed

lemma sound_failure:
  assumes "record_failure E w d c exc s = (r, s')" "sound_db s" "claim_held s c"
  shows "sound_db s'"
proof (cases r)
  case (Inl e)
  with assms at_failure.undone show ?thesis by blast
next
  case (Inr b)
  with assms(1) have run: "record_failure E w d c exc s = (Inr b, s')" by simp
  show ?thesis
  proof (rule sound_same_terms [OF assms(2)])
    show "retains s s'" using run by (rule kept.record_failure) simp
    show "same_terms s s'" using run by (rule same_terms_failure)
  qed (use run assms claim_held_ok in \<open>auto simp: sound_db_def
      intro: keys.record_failure refs.record_failure lifecycle_failure\<close>)
qed

lemma sound_redrive:
  assumes "authorize_redrive E d a mid did reason s = (r, s')" "sound_db s"
  shows "sound_db s'"
proof (cases r)
  case (Inl e)
  with assms authorize_redrive_Inl show ?thesis by blast
next
  case (Inr x)
  with assms(1) have run: "authorize_redrive E d a mid did reason s = (Inr x, s')" by simp
  show ?thesis
  proof (rule sound_same_terms [OF assms(2)])
    show "retains s s'" using run by (rule kept.authorize_redrive) simp
    show "same_terms s s'" using run by (rule same_terms_redrive)
  qed (use run assms in \<open>auto simp: sound_db_def
      intro: keys.authorize_redrive refs.authorize_redrive lifecycle_redrive\<close>)
qed

definition sound :: "env \<Rightarrow> platform \<Rightarrow> bool" where
  "sound E p \<longleftrightarrow> sound_db (store p) \<and> audit_ok E (store p) \<and>
     (\<forall>c\<in>set (claims p). claim_held (store p) c)"

lemma sound_start: "sound E start"
  by (simp add: sound_def sound_db_def start_def)

interpretation sys: invariant "step E" "sound E" for E
proof unfold_locales
  fix p q
  assume s: "step E p q" and ok: "sound E p"
  have "sound_db (store q)"
    using s ok
    by (cases rule: step.cases)
      (auto simp: sound_def intro: sound_serve sound_redrive sound_claim sound_success sound_failure)
  then show "sound E q"
    using sys_chain.preserved [OF s] sys_claims.preserved [OF s] ok by (simp add: sound_def)
qed

end
