(* ===== verification/Refinement.thy ===== *)
theory Refinement
  imports Platform
begin

text \<open>
  An abstract specification of the platform and its refinement: the status of each reservation,
  seen alone, moves along six edges.  Every step of every process is such a move or none.
\<close>

section \<open>The abstract life cycle\<close>

text \<open>
  What a client may rely on: each reservation is reserved, then queued, and then delivered or
  given up; a given-up one can only be queued again; a delivered one can only be completed.
\<close>

type_synonym life = "string \<Rightarrow> reservation_status option"

inductive life_step :: "life \<Rightarrow> life \<Rightarrow> bool" where
  Reserve: "m i = None \<Longrightarrow> life_step m (m(i \<mapsto> RESERVED))"
| Queue: "m i = Some RESERVED \<Longrightarrow> life_step m (m(i \<mapsto> DISPATCH_PENDING))"
| Deliver: "m i = Some DISPATCH_PENDING \<Longrightarrow> life_step m (m(i \<mapsto> DISPATCHED))"
| GiveUp: "m i = Some DISPATCH_PENDING \<Longrightarrow> life_step m (m(i \<mapsto> RES_CANCELLED))"
| Requeue: "m i = Some RES_CANCELLED \<Longrightarrow> life_step m (m(i \<mapsto> DISPATCH_PENDING))"
| Complete: "m i = Some DISPATCHED \<Longrightarrow> life_step m (m(i \<mapsto> RES_COMPLETED))"

inductive_cases life_step_cases: "life_step m n"

definition life_of :: "db \<Rightarrow> life" where
  "life_of s i = map_option rsv_status (lookup rsv_id i (reservations s))"

lemma life_of_append:
  "reservations s' = reservations s @ [r] \<Longrightarrow> rsv_id r \<notin> rsv_id ` set (reservations s) \<Longrightarrow>
     life_of s' = (life_of s)(rsv_id r \<mapsto> rsv_status r) \<and> life_of s (rsv_id r) = None"
  unfolding lookup_None [symmetric]
  by (auto simp: life_of_def lookup_append lookup_Cons lookup_Nil fun_eq_iff split: option.splits)

lemma life_of_modify:
  "reservations s' = modify rsv_id i h (reservations s) \<Longrightarrow> keeps_reservation h \<Longrightarrow>
     lookup rsv_id i (reservations s) = Some r \<Longrightarrow>
     life_of s' = (life_of s)(i \<mapsto> rsv_status (h r)) \<and> life_of s i = Some (rsv_status r)"
  by (auto simp: life_of_def keeps_defs lookup_modify fun_eq_iff)

definition life_moves :: "db \<Rightarrow> db \<Rightarrow> bool" where
  "life_moves s s' \<longleftrightarrow> life_of s' = life_of s \<or> life_step (life_of s) (life_of s')"

lemma life_moves_refl [simp]: "life_moves s s"
  by (simp add: life_moves_def)

lemma life_moves_same: "reservations s' = reservations s \<Longrightarrow> life_moves s s'"
  by (simp add: life_moves_def life_of_def fun_eq_iff)

lemma life_claim: "claim_one E w d s = (Inr (Some c), s') \<Longrightarrow> life_moves s s'"
  by (erule claim_one_elim) (simp add: life_moves_same)

lemma life_asset: "register_asset E d c a s = (Inr x, s') \<Longrightarrow> life_moves s s'"
  by (erule register_asset_elim) (simp add: life_moves_same)

lemma life_offer: "create_offer E d c a s = (Inr x, s') \<Longrightarrow> life_moves s s'"
  by (erule create_offer_elim) (simp add: life_moves_same)

lemma life_reading: "record_meter_reading E d c a s = (Inr x, s') \<Longrightarrow> life_moves s s'"
  by (erule reading_elim) (simp_all add: life_moves_same)

lemma life_reserve: "reserve_offer E d i c a key s = (Inr x, s') \<Longrightarrow> life_moves s s'"
proof (cases "idem_lookup ''reserve_offer'' key s")
  case None
  assume "reserve_offer E d i c a key s = (Inr x, s')"
  from this None show ?thesis
  proof (rule reserve_offer_fresh, goal_cases)
    case (1 ofr e k)
    from 1(6,7,9) have "life_of s' = (life_of s)(rsv_id x \<mapsto> RESERVED)" "life_of s (rsv_id x) = None"
      using life_of_append [of s' s "store_reservation x"] by (simp_all add: store_reservation_def)
    then show ?thesis by (simp add: life_moves_def life_step.Reserve)
  qed
next
  case (Some y)
  assume "reserve_offer E d i c a key s = (Inr x, s')"
  with reserve_offer_replay [OF Some this] show ?thesis by simp
qed


lemma life_issue: "issue_dispatch E d i c a key s = (Inr x, s') \<Longrightarrow> life_moves s s'"
proof (cases "idem_lookup ''issue_dispatch'' key s")
  case None
  assume "issue_dispatch E d i c a key s = (Inr x, s')"
  from this None show ?thesis
  proof (rule issue_dispatch_fresh, goal_cases)
    case (1 rsv ofr ast m e k)
    have "life_of s' = (life_of s)(i \<mapsto> DISPATCH_PENDING) \<and> life_of s i = Some RESERVED"
      using life_of_modify [of s' i "\<lambda>x. x\<lparr>rsv_status := DISPATCH_PENDING\<rparr>" s rsv] 1(3,4,15)
      by (simp add: keeps_defs)
    then show ?thesis by (simp add: life_moves_def life_step.Queue)
  qed
next
  case (Some y)
  assume "issue_dispatch E d i c a key s = (Inr x, s')"
  with issue_dispatch_replay [OF Some this] show ?thesis by simp
qed

lemma life_settle: "settle_reservation E d i a key s = (Inr x, s') \<Longrightarrow> life_moves s s'"
proof (cases "idem_lookup ''settle_reservation'' key s")
  case None
  assume "settle_reservation E d i a key s = (Inr x, s')"
  from this None show ?thesis
  proof (rule settle_reservation_fresh, goal_cases)
    case (1 rsv dsp ofr e k)
    have "life_of s' = (life_of s)(i \<mapsto> RES_COMPLETED) \<and> life_of s i = Some DISPATCHED"
      using life_of_modify [of s' i "\<lambda>x. x\<lparr>rsv_status := RES_COMPLETED\<rparr>" s rsv] 1(3,4,21)
      by (simp add: keeps_defs)
    then show ?thesis by (simp add: life_moves_def life_step.Complete)
  qed
next
  case (Some y)
  assume "settle_reservation E d i a key s = (Inr x, s')"
  with settle_reservation_replay [OF Some this] show ?thesis by simp
qed

lemma life_redrive: "authorize_redrive E d a mid did reason s = (Inr x, s') \<Longrightarrow> life_moves s s'"
proof (rule authorize_redrive_elim, assumption, goal_cases)
  case (1 m dsp rsv e)
  have "life_of s' = (life_of s)(dsp_reservation_id dsp \<mapsto> DISPATCH_PENDING) \<and>
      life_of s (dsp_reservation_id dsp) = Some RES_CANCELLED"
    using life_of_modify [of s' "dsp_reservation_id dsp" "\<lambda>x. x\<lparr>rsv_status := DISPATCH_PENDING\<rparr>" s rsv]
      1(9,10,12) by (simp add: keeps_defs)
  then show ?case by (simp add: life_moves_def life_step.Requeue)
qed

lemma life_success:
  assumes "record_success E w d c reference s = (Inr True, s')" "sound_db s" "claim_ok s c"
  shows "life_moves s s'"
  using assms(1)
proof (rule record_success_elim, goal_cases)
  case (1 m dsp rsv e)
  note l = locked_phase [OF _ _ 1(1,2) assms(3) 1(3,4)]
  have "life_of s' = (life_of s)(dsp_reservation_id dsp \<mapsto> DISPATCHED) \<and>
      life_of s (dsp_reservation_id dsp) = Some DISPATCH_PENDING"
    using life_of_modify [of s' "dsp_reservation_id dsp" "\<lambda>x. x\<lparr>rsv_status := DISPATCHED\<rparr>" s rsv]
      1(4,5) l(10) assms(2) by (simp add: keeps_defs sound_db_def)
  then show ?thesis by (simp add: life_moves_def life_step.Deliver)
qed

lemma life_dead:
  assumes "record_failure E w d c exc s = (Inr True, s')" "sound_db s" "claim_ok s c"
  shows "life_moves s s'"
  using assms(1)
proof (rule record_failure_dead, goal_cases)
  case (1 m)
  have sd: "lifecycle_ok s" "keys_ok s" "refs_ok s" using assms(2) by (simp_all add: sound_db_def)
  obtain dsp rsv where dsp: "lookup dsp_id (clm_aggregate_id c) (dispatches s) = Some dsp"
    and rsv: "lookup rsv_id (dsp_reservation_id dsp) (reservations s) = Some rsv"
    using lookup_Some [OF 1(1)] assms(3) unfolding claim_ok_def
    by (metis message_dispatch [OF sd(1,3)])
  note l = locked_phase [OF sd(1,2) 1(1,2) assms(3) dsp rsv]
  from 1(5) [OF dsp] have "reservations s' = modify rsv_id (dsp_reservation_id dsp)
      (\<lambda>x. x\<lparr>rsv_status := RES_CANCELLED\<rparr>) (reservations s)" by auto
  then have "life_of s' = (life_of s)(dsp_reservation_id dsp \<mapsto> RES_CANCELLED) \<and>
      life_of s (dsp_reservation_id dsp) = Some DISPATCH_PENDING"
    using life_of_modify [of s' "dsp_reservation_id dsp" "\<lambda>x. x\<lparr>rsv_status := RES_CANCELLED\<rparr>" s rsv]
      rsv l(10) by (simp add: keeps_defs)
  then show ?thesis by (simp add: life_moves_def life_step.GiveUp)
qed

lemma life_retry: "record_failure E w d c exc s = (Inr False, s') \<Longrightarrow> life_moves s s'"
proof (cases "current c s")
  case True
  assume "record_failure E w d c exc s = (Inr False, s')"
  from this True show ?thesis by (rule record_failure_retry) (simp add: life_moves_same)
next
  case False
  assume "record_failure E w d c exc s = (Inr False, s')"
  with False show ?thesis by (simp add: record_stale)
qed


lemma life_any:
  "register_asset E d c a s = (r1, s') \<Longrightarrow> life_moves s s'"
  "create_offer E d c2 a s = (r2, s') \<Longrightarrow> life_moves s s'"
  "reserve_offer E d i c3 a key s = (r3, s') \<Longrightarrow> life_moves s s'"
  "issue_dispatch E d i c4 a key s = (r4, s') \<Longrightarrow> life_moves s s'"
  "record_meter_reading E d c5 a s = (r5, s') \<Longrightarrow> life_moves s s'"
  "settle_reservation E d i a key s = (r6, s') \<Longrightarrow> life_moves s s'"
  using at_asset.undone life_asset at_offer.undone life_offer at_reserve.undone life_reserve
    at_dispatch.undone life_issue at_reading.undone life_reading at_settle.undone life_settle
    life_moves_refl
  by (metis sum.exhaust)+

lemma life_serve: "serve E d a req s = (resp, s') \<Longrightarrow> life_moves s s'"
  by (cases req)
    (auto simp: with_valid_def with_key_def render_def prod_eq_iff split: sum.splits option.splits
      intro: life_any [OF prod.collapse [symmetric]])

lemma life_published:
  assumes "record_success E w d c reference s = (r, s')" "sound_db s" "claim_ok s c"
  shows "life_moves s s'"
proof (cases "r = Inr True")
  case True
  with assms show ?thesis by (auto intro: life_success)
next
  case False
  then obtain e where "r = Inl e \<or> r = Inr False" by (cases r) auto
  with assms(1) show ?thesis by (auto dest: at_success.undone record_success_False)
qed

lemma life_failed:
  assumes "record_failure E w d c exc s = (r, s')" "sound_db s" "claim_ok s c"
  shows "life_moves s s'"
proof (cases "r = Inr True")
  case True
  with assms show ?thesis by (auto intro: life_dead)
next
  case False
  then obtain e where "r = Inl e \<or> r = Inr False" by (cases r) auto
  with assms(1) show ?thesis by (auto dest: at_failure.undone life_retry)
qed

interpretation life: refinement "step E" "sound E" life_step "\<lambda>p. life_of (store p)" for E
proof unfold_locales
  fix p q
  assume s: "step E p q" and ok: "sound E p"
  have "claim_ok (store p) c" if "c \<in> set (claims p)" for c
    using ok that claim_held_ok by (auto simp: sound_def sound_db_def)
  with s ok have "life_moves (store p) (store q)"
  proof (cases rule: step.cases)
    case (Serve d a req resp s')
    then show ?thesis by (simp add: life_serve)
  next
    case (Redrive d a mid did reason r s')
    then show ?thesis by (cases r) (auto dest: authorize_redrive_Inl life_redrive)
  next
    case (Claim w d c s')
    then show ?thesis by (simp add: life_claim)
  next
    case (Published c w d reference r s')
    with ok \<open>\<And>c. c \<in> set (claims p) \<Longrightarrow> claim_ok (store p) c\<close> show ?thesis
      by (auto simp: sound_def intro: life_published)
  next
    case (Failed c w d exc r s')
    with ok \<open>\<And>c. c \<in> set (claims p) \<Longrightarrow> claim_ok (store p) c\<close> show ?thesis
      by (auto simp: sound_def intro: life_failed)
  next
    case (Crash c)
    then show ?thesis by simp
  qed
  then show "life_of (store q) = life_of (store p) \<or> life_step (life_of (store p)) (life_of (store q))"
    by (simp add: life_moves_def)
qed

end
