(* ===== verification/Schema.thy ===== *)
theory Schema
  imports Models
begin

text \<open>
  The database schema, twice: as the mapped classes of \<open>models.py\<close> declare it and as the two
  Alembic revisions of \<open>migrations/versions\<close> create and drop it.  A migration is the list of
  its operations, which succeed or fail the way the database does.  The two are shown to agree,
  and the widths the insertions of the model check are those of the schema.
\<close>

section \<open>Schemas\<close>

datatype column_type = VARCHAR nat | NUMERIC nat nat | TIMESTAMPTZ | JSON_TYPE | INTEGER | TEXT

record column =
  col_name :: string
  col_type :: column_type
  col_nullable :: bool
  col_auto :: bool

record foreign_key_constraint =
  fk_column :: string
  fk_table :: string
  fk_target :: string
  fk_ondelete :: string

record unique_constraint =
  uq_name :: "string option"
  uq_columns :: "string list"

record index =
  ix_name :: string
  ix_columns :: "string list"
  ix_unique :: bool

record table_def =
  tbl_name :: string
  tbl_columns :: "column list"
  tbl_primary :: "string list"
  tbl_foreign :: "foreign_key_constraint list"
  tbl_unique :: "unique_constraint list"
  tbl_indexes :: "index list"

type_synonym schema = "table_def list"

definition col :: "string \<Rightarrow> column_type \<Rightarrow> bool \<Rightarrow> bool \<Rightarrow> column" where
  "col n t nullable auto = \<lparr>col_name = n, col_type = t, col_nullable = nullable, col_auto = auto\<rparr>"

definition foreign_key :: "string \<Rightarrow> string \<Rightarrow> string \<Rightarrow> string \<Rightarrow> foreign_key_constraint" where
  "foreign_key c t target action =
     \<lparr>fk_column = c, fk_table = t, fk_target = target, fk_ondelete = action\<rparr>"

definition unique_key :: "string option \<Rightarrow> string list \<Rightarrow> unique_constraint" where
  "unique_key n cs = \<lparr>uq_name = n, uq_columns = cs\<rparr>"

section \<open>Migration operations\<close>

datatype migration_op =
    CreateTable table_def
  | CreateIndex string string "string list" bool
  | DropIndex string string
  | DropTable string

text \<open>
  A table is created under a new name with its foreign keys to existing columns; an index is
  created under a name new in the whole schema, on existing columns; an index and a table are
  dropped only when they exist, a table only when no other table refers to it.
\<close>

definition has_column :: "schema \<Rightarrow> string \<Rightarrow> string \<Rightarrow> bool" where
  "has_column s t c = (case lookup tbl_name t s of None \<Rightarrow> False
     | Some x \<Rightarrow> c \<in> col_name ` set (tbl_columns x))"

definition migration_error :: "string \<Rightarrow> pyexn" where
  "migration_error what = OtherError ''ProgrammingError'' what"

fun run_op :: "migration_op \<Rightarrow> schema \<Rightarrow> schema result" where
  "run_op (CreateTable x) s =
     (if lookup tbl_name (tbl_name x) s \<noteq> None \<or>
         \<not> list_all (\<lambda>k. has_column s (fk_table k) (fk_target k)) (tbl_foreign x)
      then Inl (migration_error (tbl_name x)) else Inr (s @ [x]))"
| "run_op (CreateIndex n t cs u) s =
     (if \<not> list_all (has_column s t) cs \<or>
         list_ex (\<lambda>x. n \<in> ix_name ` set (tbl_indexes x)) s
      then Inl (migration_error n)
      else Inr (modify tbl_name t
        (\<lambda>x. x\<lparr>tbl_indexes := tbl_indexes x @ [\<lparr>ix_name = n, ix_columns = cs, ix_unique = u\<rparr>]\<rparr>) s))"
| "run_op (DropIndex n t) s =
     (case lookup tbl_name t s of None \<Rightarrow> Inl (migration_error n)
      | Some x \<Rightarrow>
        if n \<notin> ix_name ` set (tbl_indexes x) then Inl (migration_error n)
        else Inr (modify tbl_name t
          (\<lambda>x. x\<lparr>tbl_indexes := filter (\<lambda>i. ix_name i \<noteq> n) (tbl_indexes x)\<rparr>) s))"
| "run_op (DropTable t) s =
     (if lookup tbl_name t s = None \<or>
         list_ex (\<lambda>x. tbl_name x \<noteq> t \<and> t \<in> fk_table ` set (tbl_foreign x)) s
      then Inl (migration_error t)
      else Inr (filter (\<lambda>x. tbl_name x \<noteq> t) s))"

fun run_ops :: "migration_op list \<Rightarrow> schema \<Rightarrow> schema result" where
  "run_ops [] s = Inr s"
| "run_ops (x # xs) s = (case run_op x s of Inl e \<Rightarrow> Inl e | Inr s' \<Rightarrow> run_ops xs s')"

lemma run_ops_append:
  "run_ops (xs @ ys) s = (case run_ops xs s of Inl e \<Rightarrow> Inl e | Inr t \<Rightarrow> run_ops ys t)"
  by (induction xs arbitrary: s) (auto split: sum.splits)

section \<open>Mapped classes\<close>

text \<open>
  The arguments of \<open>mapped_column\<close>.  A column declared by its foreign key alone has the type of
  the column it refers to.
\<close>

record mapped_column =
  mc_name :: string
  mc_type :: "column_type option"
  mc_primary :: bool
  mc_auto :: bool
  mc_unique :: bool
  mc_index :: bool
  mc_null :: bool
  mc_fk :: "(string \<times> string \<times> string) option"

record mapped_class =
  mc_table :: string
  mc_args :: "unique_constraint list"
  mc_columns :: "mapped_column list"

definition mapped_ref :: "string \<Rightarrow> mapped_column" where
  "mapped_ref n = \<lparr>mc_name = n, mc_type = None, mc_primary = False, mc_auto = False,
     mc_unique = False, mc_index = False, mc_null = False, mc_fk = None\<rparr>"

definition mapped :: "string \<Rightarrow> column_type \<Rightarrow> mapped_column" where
  "mapped n t = (mapped_ref n)\<lparr>mc_type := Some t\<rparr>"

text \<open>
  The table a class declares: \<open>index=True\<close> makes an index named after table and column, unique
  with \<open>unique=True\<close>; \<open>unique=True\<close> alone makes an unnamed constraint.
\<close>

definition resolve_type :: "mapped_class list \<Rightarrow> mapped_column \<Rightarrow> column_type" where
  "resolve_type cs c = (case mc_type c of Some t \<Rightarrow> t
     | None \<Rightarrow>
       (case mc_fk c of None \<Rightarrow> TEXT
        | Some (t, target, _) \<Rightarrow>
          (case lookup mc_table t cs of None \<Rightarrow> TEXT
           | Some k \<Rightarrow>
             (case lookup mc_name target (mc_columns k) of None \<Rightarrow> TEXT
              | Some d \<Rightarrow> (case mc_type d of None \<Rightarrow> TEXT | Some t \<Rightarrow> t)))))"

definition declared_table :: "mapped_class list \<Rightarrow> mapped_class \<Rightarrow> table_def" where
  "declared_table cs k = \<lparr>tbl_name = mc_table k,
     tbl_columns = map (\<lambda>c. col (mc_name c) (resolve_type cs c) (mc_null c) (mc_auto c)) (mc_columns k),
     tbl_primary = map mc_name (filter mc_primary (mc_columns k)),
     tbl_foreign = concat (map (\<lambda>c. case mc_fk c of None \<Rightarrow> []
       | Some (t, target, action) \<Rightarrow> [foreign_key (mc_name c) t target action]) (mc_columns k)),
     tbl_unique = mc_args k @ map (\<lambda>c. unique_key None [mc_name c])
       (filter (\<lambda>c. mc_unique c \<and> \<not> mc_index c) (mc_columns k)),
     tbl_indexes = map (\<lambda>c. \<lparr>ix_name = ''ix_'' @ mc_table k @ ''_'' @ mc_name c,
         ix_columns = [mc_name c], ix_unique = mc_unique c\<rparr>)
       (filter mc_index (mc_columns k))\<rparr>"

definition declared_schema :: "mapped_class list \<Rightarrow> schema" where
  "declared_schema cs = map (declared_table cs) cs"

section \<open>The classes of models.py and the two revisions\<close>

definition assets_model :: mapped_class where
  "assets_model = \<lparr>mc_table = ''assets'', mc_args = [], mc_columns =
    [(mapped ''id'' (VARCHAR 36))\<lparr>mc_primary := True\<rparr>,
     (mapped ''external_id'' (VARCHAR 100))\<lparr>mc_unique := True, mc_index := True\<rparr>,
     (mapped ''owner_id'' (VARCHAR 100))\<lparr>mc_index := True\<rparr>,
     mapped ''asset_type'' (VARCHAR 40),
     mapped ''capacity_kw'' (NUMERIC 18 6),
     mapped ''location_code'' (VARCHAR 80),
     mapped ''status'' (VARCHAR 30),
     mapped ''created_at'' TIMESTAMPTZ]\<rparr>"

definition flex_offers_model :: mapped_class where
  "flex_offers_model = \<lparr>mc_table = ''flex_offers'', mc_args = [], mc_columns =
    [(mapped ''id'' (VARCHAR 36))\<lparr>mc_primary := True\<rparr>,
     (mapped_ref ''asset_id'')\<lparr>mc_index := True, mc_fk := Some (''assets'', ''id'', ''RESTRICT'')\<rparr>,
     mapped ''window_start'' TIMESTAMPTZ,
     mapped ''window_end'' TIMESTAMPTZ,
     mapped ''direction'' (VARCHAR 20),
     mapped ''quantity_kw'' (NUMERIC 18 6),
     mapped ''price_per_kwh'' (NUMERIC 18 6),
     mapped ''status'' (VARCHAR 30),
     mapped ''created_by'' (VARCHAR 100),
     mapped ''created_at'' TIMESTAMPTZ]\<rparr>"

definition reservations_model :: mapped_class where
  "reservations_model = \<lparr>mc_table = ''reservations'', mc_args = [], mc_columns =
    [(mapped ''id'' (VARCHAR 36))\<lparr>mc_primary := True\<rparr>,
     (mapped_ref ''offer_id'')\<lparr>mc_unique := True, mc_index := True, mc_fk := Some (''flex_offers'', ''id'', ''RESTRICT'')\<rparr>,
     mapped ''quantity_kw'' (NUMERIC 18 6),
     mapped ''status'' (VARCHAR 30),
     mapped ''requested_by'' (VARCHAR 100),
     mapped ''created_at'' TIMESTAMPTZ]\<rparr>"

definition dispatches_model :: mapped_class where
  "dispatches_model = \<lparr>mc_table = ''dispatches'', mc_args = [], mc_columns =
    [(mapped ''id'' (VARCHAR 36))\<lparr>mc_primary := True\<rparr>,
     (mapped_ref ''reservation_id'')\<lparr>mc_unique := True, mc_index := True, mc_fk := Some (''reservations'', ''id'', ''RESTRICT'')\<rparr>,
     mapped ''target_kw'' (NUMERIC 18 6),
     mapped ''starts_at'' TIMESTAMPTZ,
     mapped ''ends_at'' TIMESTAMPTZ,
     mapped ''status'' (VARCHAR 30),
     mapped ''issued_by'' (VARCHAR 100),
     (mapped ''adapter_reference'' (VARCHAR 200))\<lparr>mc_null := True\<rparr>,
     mapped ''created_at'' TIMESTAMPTZ]\<rparr>"

definition meter_readings_model :: mapped_class where
  "meter_readings_model = \<lparr>mc_table = ''meter_readings'', mc_args = [unique_key (Some ''uq_meter_reading_fingerprint'') [''fingerprint'']], mc_columns =
    [(mapped ''id'' (VARCHAR 36))\<lparr>mc_primary := True\<rparr>,
     (mapped_ref ''asset_id'')\<lparr>mc_index := True, mc_fk := Some (''assets'', ''id'', ''RESTRICT'')\<rparr>,
     mapped ''interval_start'' TIMESTAMPTZ,
     mapped ''interval_end'' TIMESTAMPTZ,
     mapped ''energy_kwh'' (NUMERIC 18 6),
     mapped ''source'' (VARCHAR 100),
     (mapped ''fingerprint'' (VARCHAR 64))\<lparr>mc_index := True\<rparr>,
     mapped ''recorded_by'' (VARCHAR 100),
     mapped ''received_at'' TIMESTAMPTZ]\<rparr>"

definition settlements_model :: mapped_class where
  "settlements_model = \<lparr>mc_table = ''settlements'', mc_args = [], mc_columns =
    [(mapped ''id'' (VARCHAR 36))\<lparr>mc_primary := True\<rparr>,
     (mapped_ref ''reservation_id'')\<lparr>mc_unique := True, mc_index := True, mc_fk := Some (''reservations'', ''id'', ''RESTRICT'')\<rparr>,
     mapped ''delivered_kwh'' (NUMERIC 18 6),
     mapped ''price_per_kwh'' (NUMERIC 18 6),
     mapped ''amount'' (NUMERIC 18 6),
     mapped ''evidence_manifest'' JSON_TYPE,
     (mapped ''evidence_hash'' (VARCHAR 64))\<lparr>mc_index := True\<rparr>,
     mapped ''settled_by'' (VARCHAR 100),
     mapped ''created_at'' TIMESTAMPTZ]\<rparr>"

definition audit_events_model :: mapped_class where
  "audit_events_model = \<lparr>mc_table = ''audit_events'', mc_args = [], mc_columns =
    [(mapped ''sequence'' INTEGER)\<lparr>mc_primary := True, mc_auto := True\<rparr>,
     (mapped ''event_id'' (VARCHAR 36))\<lparr>mc_unique := True, mc_index := True\<rparr>,
     (mapped ''aggregate_type'' (VARCHAR 60))\<lparr>mc_index := True\<rparr>,
     (mapped ''aggregate_id'' (VARCHAR 36))\<lparr>mc_index := True\<rparr>,
     (mapped ''event_type'' (VARCHAR 100))\<lparr>mc_index := True\<rparr>,
     (mapped ''actor_id'' (VARCHAR 100))\<lparr>mc_index := True\<rparr>,
     (mapped ''correlation_id'' (VARCHAR 100))\<lparr>mc_index := True\<rparr>,
     mapped ''payload'' JSON_TYPE,
     mapped ''previous_hash'' (VARCHAR 64),
     (mapped ''event_hash'' (VARCHAR 64))\<lparr>mc_unique := True\<rparr>,
     mapped ''occurred_at'' TIMESTAMPTZ]\<rparr>"

definition idempotency_records_model :: mapped_class where
  "idempotency_records_model = \<lparr>mc_table = ''idempotency_records'', mc_args = [unique_key (Some ''uq_idempotency_operation_key'') [''operation'', ''key'']], mc_columns =
    [(mapped ''id'' (VARCHAR 36))\<lparr>mc_primary := True\<rparr>,
     (mapped ''operation'' (VARCHAR 80))\<lparr>mc_index := True\<rparr>,
     (mapped ''key'' (VARCHAR 200))\<lparr>mc_index := True\<rparr>,
     mapped ''request_hash'' (VARCHAR 64),
     mapped ''resource_type'' (VARCHAR 60),
     mapped ''resource_id'' (VARCHAR 36),
     mapped ''response_snapshot'' TEXT,
     mapped ''created_at'' TIMESTAMPTZ]\<rparr>"

definition outbox_messages_model :: mapped_class where
  "outbox_messages_model = \<lparr>mc_table = ''outbox_messages'', mc_args = [unique_key (Some ''uq_outbox_topic_idempotency_key'') [''topic'', ''idempotency_key'']], mc_columns =
    [(mapped ''id'' (VARCHAR 36))\<lparr>mc_primary := True\<rparr>,
     (mapped ''topic'' (VARCHAR 100))\<lparr>mc_index := True\<rparr>,
     (mapped ''aggregate_id'' (VARCHAR 36))\<lparr>mc_index := True\<rparr>,
     (mapped ''idempotency_key'' (VARCHAR 200))\<lparr>mc_index := True\<rparr>,
     mapped ''payload'' JSON_TYPE,
     (mapped ''status'' (VARCHAR 30))\<lparr>mc_index := True\<rparr>,
     mapped ''attempts'' INTEGER,
     (mapped ''available_at'' TIMESTAMPTZ)\<lparr>mc_index := True\<rparr>,
     (mapped ''lease_expires_at'' TIMESTAMPTZ)\<lparr>mc_index := True, mc_null := True\<rparr>,
     (mapped ''locked_by'' (VARCHAR 100))\<lparr>mc_null := True\<rparr>,
     (mapped ''adapter_reference'' (VARCHAR 200))\<lparr>mc_null := True\<rparr>,
     (mapped ''last_error'' TEXT)\<lparr>mc_null := True\<rparr>,
     (mapped ''published_at'' TIMESTAMPTZ)\<lparr>mc_null := True\<rparr>,
     mapped ''created_at'' TIMESTAMPTZ,
     mapped ''updated_at'' TIMESTAMPTZ]\<rparr>"

definition declared_models :: "mapped_class list" where
  "declared_models = [assets_model, flex_offers_model, reservations_model, dispatches_model, meter_readings_model, settlements_model, audit_events_model, idempotency_records_model, outbox_messages_model]"

definition create_coordination_tables :: "migration_op list" where
  "create_coordination_tables = [
   CreateTable \<lparr>tbl_name = ''assets'', tbl_columns =
    [col ''id'' (VARCHAR 36) False False,
     col ''external_id'' (VARCHAR 100) False False,
     col ''owner_id'' (VARCHAR 100) False False,
     col ''asset_type'' (VARCHAR 40) False False,
     col ''capacity_kw'' (NUMERIC 18 6) False False,
     col ''location_code'' (VARCHAR 80) False False,
     col ''status'' (VARCHAR 30) False False,
     col ''created_at'' TIMESTAMPTZ False False],
     tbl_primary = [''id''], tbl_foreign = [], tbl_unique = [], tbl_indexes = []\<rparr>,
   CreateIndex ''ix_assets_external_id'' ''assets'' [''external_id''] True,
   CreateIndex ''ix_assets_owner_id'' ''assets'' [''owner_id''] False,
   CreateTable \<lparr>tbl_name = ''flex_offers'', tbl_columns =
    [col ''id'' (VARCHAR 36) False False,
     col ''asset_id'' (VARCHAR 36) False False,
     col ''window_start'' TIMESTAMPTZ False False,
     col ''window_end'' TIMESTAMPTZ False False,
     col ''direction'' (VARCHAR 20) False False,
     col ''quantity_kw'' (NUMERIC 18 6) False False,
     col ''price_per_kwh'' (NUMERIC 18 6) False False,
     col ''status'' (VARCHAR 30) False False,
     col ''created_by'' (VARCHAR 100) False False,
     col ''created_at'' TIMESTAMPTZ False False],
     tbl_primary = [''id''], tbl_foreign = [foreign_key ''asset_id'' ''assets'' ''id'' ''RESTRICT''], tbl_unique = [], tbl_indexes = []\<rparr>,
   CreateIndex ''ix_flex_offers_asset_id'' ''flex_offers'' [''asset_id''] False,
   CreateTable \<lparr>tbl_name = ''reservations'', tbl_columns =
    [col ''id'' (VARCHAR 36) False False,
     col ''offer_id'' (VARCHAR 36) False False,
     col ''quantity_kw'' (NUMERIC 18 6) False False,
     col ''status'' (VARCHAR 30) False False,
     col ''requested_by'' (VARCHAR 100) False False,
     col ''created_at'' TIMESTAMPTZ False False],
     tbl_primary = [''id''], tbl_foreign = [foreign_key ''offer_id'' ''flex_offers'' ''id'' ''RESTRICT''], tbl_unique = [], tbl_indexes = []\<rparr>,
   CreateIndex ''ix_reservations_offer_id'' ''reservations'' [''offer_id''] True,
   CreateTable \<lparr>tbl_name = ''dispatches'', tbl_columns =
    [col ''id'' (VARCHAR 36) False False,
     col ''reservation_id'' (VARCHAR 36) False False,
     col ''target_kw'' (NUMERIC 18 6) False False,
     col ''starts_at'' TIMESTAMPTZ False False,
     col ''ends_at'' TIMESTAMPTZ False False,
     col ''status'' (VARCHAR 30) False False,
     col ''issued_by'' (VARCHAR 100) False False,
     col ''adapter_reference'' (VARCHAR 200) True False,
     col ''created_at'' TIMESTAMPTZ False False],
     tbl_primary = [''id''], tbl_foreign = [foreign_key ''reservation_id'' ''reservations'' ''id'' ''RESTRICT''], tbl_unique = [], tbl_indexes = []\<rparr>,
   CreateIndex ''ix_dispatches_reservation_id'' ''dispatches'' [''reservation_id''] True]"

definition create_evidence_tables :: "migration_op list" where
  "create_evidence_tables = [
   CreateTable \<lparr>tbl_name = ''meter_readings'', tbl_columns =
    [col ''id'' (VARCHAR 36) False False,
     col ''asset_id'' (VARCHAR 36) False False,
     col ''interval_start'' TIMESTAMPTZ False False,
     col ''interval_end'' TIMESTAMPTZ False False,
     col ''energy_kwh'' (NUMERIC 18 6) False False,
     col ''source'' (VARCHAR 100) False False,
     col ''fingerprint'' (VARCHAR 64) False False,
     col ''recorded_by'' (VARCHAR 100) False False,
     col ''received_at'' TIMESTAMPTZ False False],
     tbl_primary = [''id''], tbl_foreign = [foreign_key ''asset_id'' ''assets'' ''id'' ''RESTRICT''], tbl_unique = [unique_key (Some ''uq_meter_reading_fingerprint'') [''fingerprint'']], tbl_indexes = []\<rparr>,
   CreateIndex ''ix_meter_readings_asset_id'' ''meter_readings'' [''asset_id''] False,
   CreateIndex ''ix_meter_readings_fingerprint'' ''meter_readings'' [''fingerprint''] False,
   CreateTable \<lparr>tbl_name = ''settlements'', tbl_columns =
    [col ''id'' (VARCHAR 36) False False,
     col ''reservation_id'' (VARCHAR 36) False False,
     col ''delivered_kwh'' (NUMERIC 18 6) False False,
     col ''price_per_kwh'' (NUMERIC 18 6) False False,
     col ''amount'' (NUMERIC 18 6) False False,
     col ''evidence_manifest'' JSON_TYPE False False,
     col ''evidence_hash'' (VARCHAR 64) False False,
     col ''settled_by'' (VARCHAR 100) False False,
     col ''created_at'' TIMESTAMPTZ False False],
     tbl_primary = [''id''], tbl_foreign = [foreign_key ''reservation_id'' ''reservations'' ''id'' ''RESTRICT''], tbl_unique = [], tbl_indexes = []\<rparr>,
   CreateIndex ''ix_settlements_reservation_id'' ''settlements'' [''reservation_id''] True,
   CreateIndex ''ix_settlements_evidence_hash'' ''settlements'' [''evidence_hash''] False]"

definition create_log_tables :: "migration_op list" where
  "create_log_tables = [
   CreateTable \<lparr>tbl_name = ''audit_events'', tbl_columns =
    [col ''sequence'' INTEGER False True,
     col ''event_id'' (VARCHAR 36) False False,
     col ''aggregate_type'' (VARCHAR 60) False False,
     col ''aggregate_id'' (VARCHAR 36) False False,
     col ''event_type'' (VARCHAR 100) False False,
     col ''actor_id'' (VARCHAR 100) False False,
     col ''correlation_id'' (VARCHAR 100) False False,
     col ''payload'' JSON_TYPE False False,
     col ''previous_hash'' (VARCHAR 64) False False,
     col ''event_hash'' (VARCHAR 64) False False,
     col ''occurred_at'' TIMESTAMPTZ False False],
     tbl_primary = [''sequence''], tbl_foreign = [], tbl_unique = [unique_key None [''event_hash'']], tbl_indexes = []\<rparr>,
   CreateIndex ''ix_audit_events_event_id'' ''audit_events'' [''event_id''] True,
   CreateIndex ''ix_audit_events_aggregate_type'' ''audit_events'' [''aggregate_type''] False,
   CreateIndex ''ix_audit_events_aggregate_id'' ''audit_events'' [''aggregate_id''] False,
   CreateIndex ''ix_audit_events_event_type'' ''audit_events'' [''event_type''] False,
   CreateIndex ''ix_audit_events_actor_id'' ''audit_events'' [''actor_id''] False,
   CreateIndex ''ix_audit_events_correlation_id'' ''audit_events'' [''correlation_id''] False,
   CreateTable \<lparr>tbl_name = ''idempotency_records'', tbl_columns =
    [col ''id'' (VARCHAR 36) False False,
     col ''operation'' (VARCHAR 80) False False,
     col ''key'' (VARCHAR 200) False False,
     col ''request_hash'' (VARCHAR 64) False False,
     col ''resource_type'' (VARCHAR 60) False False,
     col ''resource_id'' (VARCHAR 36) False False,
     col ''response_snapshot'' TEXT False False,
     col ''created_at'' TIMESTAMPTZ False False],
     tbl_primary = [''id''], tbl_foreign = [], tbl_unique = [unique_key (Some ''uq_idempotency_operation_key'') [''operation'', ''key'']], tbl_indexes = []\<rparr>,
   CreateIndex ''ix_idempotency_records_operation'' ''idempotency_records'' [''operation''] False,
   CreateIndex ''ix_idempotency_records_key'' ''idempotency_records'' [''key''] False]"

definition upgrade_0001 :: "migration_op list" where
  "upgrade_0001 = create_coordination_tables @ create_evidence_tables @ create_log_tables"

definition downgrade_0001 :: "migration_op list" where
  "downgrade_0001 = [
   DropIndex ''ix_idempotency_records_key'' ''idempotency_records'',
   DropIndex ''ix_idempotency_records_operation'' ''idempotency_records'',
   DropTable ''idempotency_records'',
   DropIndex ''ix_audit_events_correlation_id'' ''audit_events'',
   DropIndex ''ix_audit_events_actor_id'' ''audit_events'',
   DropIndex ''ix_audit_events_event_type'' ''audit_events'',
   DropIndex ''ix_audit_events_aggregate_id'' ''audit_events'',
   DropIndex ''ix_audit_events_aggregate_type'' ''audit_events'',
   DropIndex ''ix_audit_events_event_id'' ''audit_events'',
   DropTable ''audit_events'',
   DropIndex ''ix_settlements_evidence_hash'' ''settlements'',
   DropIndex ''ix_settlements_reservation_id'' ''settlements'',
   DropTable ''settlements'',
   DropIndex ''ix_meter_readings_fingerprint'' ''meter_readings'',
   DropIndex ''ix_meter_readings_asset_id'' ''meter_readings'',
   DropTable ''meter_readings'',
   DropIndex ''ix_dispatches_reservation_id'' ''dispatches'',
   DropTable ''dispatches'',
   DropIndex ''ix_reservations_offer_id'' ''reservations'',
   DropTable ''reservations'',
   DropIndex ''ix_flex_offers_asset_id'' ''flex_offers'',
   DropTable ''flex_offers'',
   DropIndex ''ix_assets_owner_id'' ''assets'',
   DropIndex ''ix_assets_external_id'' ''assets'',
   DropTable ''assets'']"

definition upgrade_0002 :: "migration_op list" where
  "upgrade_0002 = [
   CreateTable \<lparr>tbl_name = ''outbox_messages'', tbl_columns =
    [col ''id'' (VARCHAR 36) False False,
     col ''topic'' (VARCHAR 100) False False,
     col ''aggregate_id'' (VARCHAR 36) False False,
     col ''idempotency_key'' (VARCHAR 200) False False,
     col ''payload'' JSON_TYPE False False,
     col ''status'' (VARCHAR 30) False False,
     col ''attempts'' INTEGER False False,
     col ''available_at'' TIMESTAMPTZ False False,
     col ''lease_expires_at'' TIMESTAMPTZ True False,
     col ''locked_by'' (VARCHAR 100) True False,
     col ''adapter_reference'' (VARCHAR 200) True False,
     col ''last_error'' TEXT True False,
     col ''published_at'' TIMESTAMPTZ True False,
     col ''created_at'' TIMESTAMPTZ False False,
     col ''updated_at'' TIMESTAMPTZ False False],
     tbl_primary = [''id''], tbl_foreign = [], tbl_unique = [unique_key (Some ''uq_outbox_topic_idempotency_key'') [''topic'', ''idempotency_key'']], tbl_indexes = []\<rparr>,
   CreateIndex ''ix_outbox_messages_topic'' ''outbox_messages'' [''topic''] False,
   CreateIndex ''ix_outbox_messages_aggregate_id'' ''outbox_messages'' [''aggregate_id''] False,
   CreateIndex ''ix_outbox_messages_idempotency_key'' ''outbox_messages'' [''idempotency_key''] False,
   CreateIndex ''ix_outbox_messages_status'' ''outbox_messages'' [''status''] False,
   CreateIndex ''ix_outbox_messages_available_at'' ''outbox_messages'' [''available_at''] False,
   CreateIndex ''ix_outbox_messages_lease_expires_at'' ''outbox_messages'' [''lease_expires_at''] False]"

definition downgrade_0002 :: "migration_op list" where
  "downgrade_0002 = [
   DropIndex ''ix_outbox_messages_lease_expires_at'' ''outbox_messages'',
   DropIndex ''ix_outbox_messages_available_at'' ''outbox_messages'',
   DropIndex ''ix_outbox_messages_status'' ''outbox_messages'',
   DropIndex ''ix_outbox_messages_idempotency_key'' ''outbox_messages'',
   DropIndex ''ix_outbox_messages_aggregate_id'' ''outbox_messages'',
   DropIndex ''ix_outbox_messages_topic'' ''outbox_messages'',
   DropTable ''outbox_messages'']"
section \<open>Widths\<close>

text \<open>The declared width of a string column, and the widths the insertions of the model check.\<close>

definition column_width :: "string \<Rightarrow> string \<Rightarrow> nat option" where
  "column_width t c = (case lookup tbl_name t (declared_schema declared_models) of None \<Rightarrow> None
     | Some x \<Rightarrow>
       (case lookup col_name c (tbl_columns x) of None \<Rightarrow> None
        | Some d \<Rightarrow> (case col_type d of VARCHAR n \<Rightarrow> Some n | _ \<Rightarrow> None)))"

definition admits :: "string \<Rightarrow> string \<Rightarrow> string \<Rightarrow> bool" where
  "admits t c v = (case column_width t c of None \<Rightarrow> False | Some n \<Rightarrow> length v \<le> n)"

lemma event_widths:
  "map (column_width ''audit_events'') [''event_id'', ''aggregate_type'', ''aggregate_id'', ''event_type'',
     ''actor_id'', ''correlation_id'', ''previous_hash'', ''event_hash''] =
   [Some 36, Some 60, Some 36, Some 100, Some 100, Some 100, Some 64, Some 64]"
  by code_simp

lemma idem_widths:
  "map (column_width ''idempotency_records'') [''id'', ''operation'', ''key'', ''request_hash'',
     ''resource_type'', ''resource_id''] = [Some 36, Some 80, Some 200, Some 64, Some 60, Some 36]"
  by code_simp

lemma message_widths:
  "map (column_width ''outbox_messages'') [''id'', ''topic'', ''aggregate_id'', ''idempotency_key'',
     ''locked_by'', ''adapter_reference''] = [Some 36, Some 100, Some 36, Some 200, Some 100, Some 200]"
  by code_simp

lemma event_fits_schema:
  "event_fits e \<longleftrightarrow> admits ''audit_events'' ''event_id'' (evt_id e) \<and>
     admits ''audit_events'' ''aggregate_type'' (evt_aggregate_type e) \<and>
     admits ''audit_events'' ''aggregate_id'' (evt_aggregate_id e) \<and>
     admits ''audit_events'' ''event_type'' (evt_type e) \<and>
     admits ''audit_events'' ''actor_id'' (evt_actor_id e) \<and>
     admits ''audit_events'' ''correlation_id'' (evt_correlation_id e) \<and>
     admits ''audit_events'' ''previous_hash'' (evt_previous_hash e) \<and>
     admits ''audit_events'' ''event_hash'' (evt_hash e)"
  using event_widths by (simp add: event_fits_def admits_def)

lemma idem_fits_schema:
  "idem_fits r \<longleftrightarrow> admits ''idempotency_records'' ''id'' (idm_id r) \<and>
     admits ''idempotency_records'' ''operation'' (idm_operation r) \<and>
     admits ''idempotency_records'' ''key'' (idm_key r) \<and>
     admits ''idempotency_records'' ''request_hash'' (idm_request_hash r) \<and>
     admits ''idempotency_records'' ''resource_type'' (idm_resource_type r) \<and>
     admits ''idempotency_records'' ''resource_id'' (idm_resource_id r)"
  using idem_widths by (simp add: idem_fits_def admits_def)

lemma message_fits_schema:
  "message_fits m \<longleftrightarrow> admits ''outbox_messages'' ''id'' (msg_id m) \<and>
     admits ''outbox_messages'' ''topic'' (msg_topic m) \<and>
     admits ''outbox_messages'' ''aggregate_id'' (msg_aggregate_id m) \<and>
     admits ''outbox_messages'' ''idempotency_key'' (msg_idempotency_key m) \<and>
     pred_option (admits ''outbox_messages'' ''locked_by'') (msg_locked_by m) \<and>
     pred_option (admits ''outbox_messages'' ''adapter_reference'') (msg_adapter_reference m)"
  using message_widths
  by (cases "msg_locked_by m"; cases "msg_adapter_reference m")
    (simp_all add: message_fits_def admits_def opt_fits_def)

end
