(* ===== verification/Database.thy ===== *)
theory Database
  imports Schema Auth Outbox Redrive
begin

text \<open>
  \<open>database.py\<close>, \<open>worker.py\<close> and \<open>recovery_cli.py\<close>: the processes around the operations.  A worker
  and a recovery command check the settings and the schema of the database before they touch it,
  and outside development a worker runs only with an adapter it was given.
\<close>

section \<open>Engine arguments\<close>

record engine_kwargs =
  ek_pool_pre_ping :: bool
  ek_check_same_thread :: "bool option"
  ek_static_pool :: bool
  ek_foreign_keys_pragma :: bool

definition build_engine :: "string \<Rightarrow> engine_kwargs" where
  "build_engine url =
     (let sqlite = prefix ''sqlite'' url in
      \<lparr>ek_pool_pre_ping = True,
       ek_check_same_thread = (if sqlite then Some False else None),
       ek_static_pool = (sqlite \<and> suffix '':memory:'' url),
       ek_foreign_keys_pragma = sqlite\<rparr>)"

section \<open>The schema check\<close>

text \<open>
  What the inspector sees: the tables, and the rows of Alembic's version table when there is one.
\<close>

record catalogue =
  cat_schema :: schema
  cat_version :: "string list option"

definition EXPECTED_SCHEMA_REVISION :: string where
  "EXPECTED_SCHEMA_REVISION = ''0002_reliable_outbox''"

definition table_names :: "catalogue \<Rightarrow> string list" where
  "table_names c = map tbl_name (cat_schema c) @ (if cat_version c = None then [] else [''alembic_version''])"

definition expected_tables :: "string list" where
  "expected_tables = map mc_table declared_models"

definition found_text :: "string option \<Rightarrow> string" where
  "found_text r = (case r of None \<Rightarrow> ''None'' | Some v \<Rightarrow> squote @ v @ squote)"

definition verify_managed_schema :: "catalogue \<Rightarrow> unit result" where
  "verify_managed_schema c =
     (let missing = filter (\<lambda>t. t \<notin> set (table_names c)) expected_tables;
          revision = (case cat_version c of Some (v # _) \<Rightarrow> Some v | _ \<Rightarrow> None) in
      if ''alembic_version'' \<notin> set (table_names c)
      then Inl (RuntimeError (''Managed database has no Alembic revision. Run '' @ squote @
        ''alembic upgrade head'' @ squote @ ''.''))
      else if missing \<noteq> []
      then Inl (RuntimeError (''Managed database is missing required tables: '' @
        join '', '' (sort missing) @ ''.''))
      else if revision \<noteq> Some EXPECTED_SCHEMA_REVISION
      then Inl (RuntimeError (''Managed database revision is incompatible: expected '' @
        EXPECTED_SCHEMA_REVISION @ '', found '' @ found_text revision @ ''.''))
      else Inr ())"

text \<open>\<open>create_all\<close> creates the declared tables that are missing.\<close>

definition create_all :: "catalogue \<Rightarrow> catalogue" where
  "create_all c = c\<lparr>cat_schema := cat_schema c @
     filter (\<lambda>t. tbl_name t \<notin> set (table_names c)) (declared_schema declared_models)\<rparr>"

definition initialize_database :: "bool \<Rightarrow> catalogue \<Rightarrow> catalogue result" where
  "initialize_database managed c =
     (if managed then (case verify_managed_schema c of Inl e \<Rightarrow> Inl e | Inr _ \<Rightarrow> Inr c)
      else Inr (create_all c))"

text \<open>The revisions in the order of their \<open>down_revision\<close>, applied to an empty database.\<close>

definition migrated :: "catalogue result" where
  "migrated = (case run_ops (upgrade_0001 @ upgrade_0002) [] of Inl e \<Rightarrow> Inl e
     | Inr s \<Rightarrow> Inr \<lparr>cat_schema = s, cat_version = Some [''0002_reliable_outbox'']\<rparr>)"

definition half_migrated :: "catalogue result" where
  "half_migrated = (case run_ops upgrade_0001 [] of Inl e \<Rightarrow> Inl e
     | Inr s \<Rightarrow> Inr \<lparr>cat_schema = s, cat_version = Some [''0001_initial_schema'']\<rparr>)"

section \<open>The worker process\<close>

definition resolve_publisher :: "settings \<Rightarrow> 'p publish option \<Rightarrow> 'p publish result" where
  "resolve_publisher c given =
     (case given of Some p \<Rightarrow> Inr p
      | None \<Rightarrow>
        if environment c \<notin> set SAFE_ENVIRONMENTS
        then Inl (RuntimeError (''The credential-free NoopDispatchPublisher is disabled outside '' @
          ''development/test. A production worker must inject an '' @
          ''institution-owned, authenticated DispatchPublisher.''))
        else Inr noop_publish)"

definition default_worker :: worker where
  "default_worker = \<lparr>worker_id = ''outbox-worker'', max_attempts = 5, base_retry_seconds = 1,
     max_retry_seconds = 60, lease_seconds = 30\<rparr>"

definition worker_run_once ::
  "env \<Rightarrow> settings \<Rightarrow> int \<Rightarrow> 'p publish option \<Rightarrow> (nat \<Rightarrow> draws) \<Rightarrow> catalogue \<Rightarrow> db \<Rightarrow> 'p \<Rightarrow>
    run_result result \<times> db \<times> 'p" where
  "worker_run_once E c limit given ds cat s p =
     (case validate_runtime c of Inl e \<Rightarrow> (Inl e, s, p) | Inr _ \<Rightarrow>
      case resolve_publisher c given of Inl e \<Rightarrow> (Inl e, s, p) | Inr selected \<Rightarrow>
      case initialize_database (environment c \<notin> set SAFE_ENVIRONMENTS) cat of
        Inl e \<Rightarrow> (Inl e, s, p)
      | Inr _ \<Rightarrow> run_once E default_worker selected ds limit s p)"

section \<open>The recovery command\<close>

record recovery_args =
  arg_message_id :: string
  arg_dispatch_id :: string
  arg_actor_id :: string
  arg_reason :: string
  arg_acknowledged :: bool

definition recovery_database_url :: "(string \<Rightarrow> string option) \<Rightarrow> string result" where
  "recovery_database_url getenv =
     (let value = strip (case getenv ''DATABASE_URL'' of Some v \<Rightarrow> v | None \<Rightarrow> '''') in
      if \<not> prefix ''postgresql+'' value
      then Inl (RuntimeError (''Recovery CLI requires an explicit PostgreSQL DATABASE_URL using the '' @
        ''dedicated recovery database identity.''))
      else Inr value)"

definition recovery_main ::
  "env \<Rightarrow> draws \<Rightarrow> (string \<Rightarrow> string option) \<Rightarrow> recovery_args \<Rightarrow> catalogue \<Rightarrow> db \<Rightarrow>
    redrive_authorization result \<times> db" where
  "recovery_main E d getenv args cat s =
     (if \<not> arg_acknowledged args
      then (Inl (OtherError ''SystemExit'' ''--acknowledge-replay-risk is required''), s)
      else case recovery_database_url getenv of Inl e \<Rightarrow> (Inl e, s) | Inr _ \<Rightarrow>
      case initialize_database True cat of Inl e \<Rightarrow> (Inl e, s) | Inr _ \<Rightarrow>
      authorize_redrive E d \<lparr>actor_id = arg_actor_id args, actor_role = RECOVERY_OPERATOR\<rparr>
        (arg_message_id args) (arg_dispatch_id args) (arg_reason args) s)"

section \<open>What the checks establish\<close>

lemma verify_managed_schema_Inr:
  "verify_managed_schema c = Inr u \<longleftrightarrow>
     set expected_tables \<subseteq> set (map tbl_name (cat_schema c)) \<union> {''alembic_version''} \<and>
     (\<exists>vs. cat_version c = Some (EXPECTED_SCHEMA_REVISION # vs))"
  by (auto simp: verify_managed_schema_def table_names_def Let_def filter_empty_conv
      split: option.splits list.splits if_splits)

lemma expected_names: "''alembic_version'' \<notin> set expected_tables"
  by code_simp

lemma verify_migrated: "(case migrated of Inl e \<Rightarrow> Inl e | Inr c \<Rightarrow> verify_managed_schema c) = Inr ()"
  by code_simp

lemma verify_half_migrated:
  "(case half_migrated of Inl e \<Rightarrow> Inl e | Inr c \<Rightarrow> verify_managed_schema c) =
     Inl (RuntimeError ''Managed database is missing required tables: outbox_messages.'')"
  by code_simp

lemma worker_run_once_Inr:
  assumes "worker_run_once E c limit given ds cat s p = (Inr r, s', p')"
  obtains selected where "validate_runtime c = Inr ()" "resolve_publisher c given = Inr selected"
    "environment c \<notin> set SAFE_ENVIRONMENTS \<Longrightarrow> verify_managed_schema cat = Inr ()"
    "run_once E default_worker selected ds limit s p = (Inr r, s', p')"
  using assms by (auto simp: worker_run_once_def initialize_database_def split: sum.splits if_splits)

end
