(* ===== verification/PyValues.thy ===== *)
theory PyValues
  imports CanonicalJson
begin

text \<open>
  How Python prints and compares decoded JSON values, and the text functions the scripts use:
  \<open>repr\<close>, \<open>str\<close>, \<open>==\<close>, \<open>lower\<close>, \<open>strip\<close> of given characters, \<open>re.sub\<close> of runs of a character
  class, and \<open>date.fromisoformat\<close>.
\<close>

section \<open>Printing and comparing\<close>

text \<open>\<open>repr\<close> of a string of code points below 256, and of a decoded JSON value.\<close>

definition repr_char :: "char \<Rightarrow> char \<Rightarrow> string" where
  "repr_char q c = (let n = (of_char c :: nat); bs = CHR 0x5C in
     if c = q \<or> c = bs then [bs, c]
     else if n = 9 then [bs, CHR ''t'']
     else if n = 10 then [bs, CHR ''n'']
     else if n = 13 then [bs, CHR ''r'']
     else if n < 32 \<or> (127 \<le> n \<and> n \<le> 160) \<or> n = 173
     then [bs, CHR ''x'', hex_digit (n div 16), hex_digit (n mod 16)]
     else [c])"

definition repr_string :: "string \<Rightarrow> string" where
  "repr_string s =
     (let q = (if CHR 0x27 \<in> set s \<and> CHR 0x22 \<notin> set s then CHR 0x22 else CHR 0x27) in
      [q] @ concat (map (repr_char q) s) @ [q])"

fun py_repr :: "json \<Rightarrow> string" where
  "py_repr JNull = ''None''"
| "py_repr (JBool b) = (if b then ''True'' else ''False'')"
| "py_repr (JInt i) = show_int i"
| "py_repr (JStr s) = repr_string s"
| "py_repr (JArr xs) = ''['' @ join '', '' (map py_repr xs) @ '']''"
| "py_repr (JObj kvs) =
     ''{'' @ join '', '' (map (\<lambda>(k, v). repr_string k @ '': '' @ py_repr v) kvs) @ ''}''"

definition py_str :: "json \<Rightarrow> string" where
  "py_str v = (case v of JStr s \<Rightarrow> s | _ \<Rightarrow> py_repr v)"

text \<open>\<open>==\<close> between a text or a number of the program and a decoded value; \<open>True\<close> equals 1.\<close>

definition py_eq :: "json \<Rightarrow> json option \<Rightarrow> bool" where
  "py_eq a b = (case (a, b) of
     (JInt i, Some (JBool x)) \<Rightarrow> i = (if x then 1 else 0)
   | (_, Some y) \<Rightarrow> a = y
   | (_, None) \<Rightarrow> False)"

section \<open>Texts\<close>

text \<open>\<open>s.lower()\<close> of a Latin-1 text.\<close>

definition lower_char :: "char \<Rightarrow> char" where
  "lower_char c = (let n = (of_char c :: nat) in
     if (65 \<le> n \<and> n \<le> 90) \<or> (192 \<le> n \<and> n \<le> 222 \<and> n \<noteq> 215) then char_of (n + 32) else c)"

definition str_lower :: "string \<Rightarrow> string" where
  "str_lower s = map lower_char s"

text \<open>\<open>s.strip("-")\<close>\<close>

definition strip_char :: "char \<Rightarrow> string \<Rightarrow> string" where
  "strip_char x s = rev (dropWhile (\<lambda>c. c = x) (rev (dropWhile (\<lambda>c. c = x) s)))"

text \<open>\<open>re.sub("[...]+", "-", s)\<close>: every maximal run of the class becomes one dash.\<close>

fun dash_runs :: "(char \<Rightarrow> bool) \<Rightarrow> bool \<Rightarrow> string \<Rightarrow> string" where
  "dash_runs P inside [] = []"
| "dash_runs P inside (c # cs) =
     (if P c then (if inside then dash_runs P True cs else CHR ''-'' # dash_runs P True cs)
      else c # dash_runs P False cs)"

section \<open>\<open>date.fromisoformat\<close>\<close>

text \<open>
  Days from 0001-01-01, as CPython reads them since 3.11: \<open>YYYY-MM-DD\<close>, \<open>YYYYMMDD\<close>, or a year, an ISO
  week and perhaps a day of the week; the separators all or none.  The branch of weeks does not
  look at what follows the day.  All errors are the one about the text.
\<close>

definition read_digits :: "nat \<Rightarrow> string \<Rightarrow> (int \<times> string) option" where
  "read_digits n s = (if n \<le> length s \<and> list_all is_digit (take n s)
     then Some (int (read_nat (take n s)), drop n s) else None)"

definition sep_dash :: "bool \<Rightarrow> string \<Rightarrow> string option" where
  "sep_dash sep s = (if \<not> sep then Some s
     else case s of c # r \<Rightarrow> if c = CHR ''-'' then Some r else None | [] \<Rightarrow> None)"

definition week_days :: "int \<Rightarrow> int \<Rightarrow> int \<Rightarrow> int option" where
  "week_days y w d =
     (let first = days_before_year y; weekday = first mod 7;
          monday = first - weekday + (if 3 < weekday then 7 else 0);
          n = monday + (w - 1) * 7 + d - 1 in
      if y < 1 \<or> w < 1 \<or> 53 < w \<or> d < 1 \<or> 7 < d then None
      else if w = 53 \<and> \<not> (weekday = 3 \<or> (weekday = 2 \<and> leap y)) then None
      else if n < 0 \<or> 3652059 \<le> n then None
      else Some n)"

definition month_days :: "int \<Rightarrow> int \<Rightarrow> int \<Rightarrow> int option" where
  "month_days y m d =
     (if 1 \<le> y \<and> 1 \<le> m \<and> m \<le> 12 \<and> 1 \<le> d \<and> d \<le> month_lengths (leap y) ! nat (m - 1)
      then Some (ymd_to_days y m d) else None)"

definition parse_iso_date :: "string \<Rightarrow> int option" where
  "parse_iso_date s =
     (if length s \<notin> {7, 8, 10} then None
      else case read_digits 4 s of None \<Rightarrow> None | Some (y, s1) \<Rightarrow>
        let sep = (hd s1 = CHR ''-''); s2 = (if sep then tl s1 else s1) in
        case s2 of
          [] \<Rightarrow> None
        | c # s3 \<Rightarrow>
          if c = CHR ''W'' then
            (case read_digits 2 s3 of None \<Rightarrow> None | Some (w, s4) \<Rightarrow>
             if s4 = [] then week_days y w 1
             else case sep_dash sep s4 of None \<Rightarrow> None | Some s5 \<Rightarrow>
             case read_digits 1 s5 of None \<Rightarrow> None | Some (d, _) \<Rightarrow> week_days y w d)
          else
            (case read_digits 2 s2 of None \<Rightarrow> None | Some (m, s4) \<Rightarrow>
             case sep_dash sep s4 of None \<Rightarrow> None | Some s5 \<Rightarrow>
             case read_digits 2 s5 of None \<Rightarrow> None | Some (d, s6) \<Rightarrow>
             if s6 = [] then month_days y m d else None))"

definition date_fromisoformat :: "string \<Rightarrow> int result" where
  "date_fromisoformat s = (case parse_iso_date s of
     None \<Rightarrow> Inl (ValueError (''Invalid isoformat string: '' @ repr_string s)) | Some n \<Rightarrow> Inr n)"

definition date_isoformat :: "int \<Rightarrow> string" where
  "date_isoformat n = (let (y, m, d) = days_to_ymd n in
     pad 4 (show_nat (nat y)) @ ''-'' @ two m @ ''-'' @ two d)"

lemma parse_iso_date_examples:
  "parse_iso_date ''2026-08-10'' = Some (ymd_to_days 2026 8 10)"
  "parse_iso_date ''20260810'' = Some (ymd_to_days 2026 8 10)"
  "parse_iso_date ''2026-W33-1'' = Some (ymd_to_days 2026 8 10)"
  "parse_iso_date ''2026W33'' = Some (ymd_to_days 2026 8 10)"
  "parse_iso_date ''2026-8-10'' = None"
  by code_simp+

section \<open>Numbers in texts\<close>

text \<open>Underscores may stand between digits only.\<close>

fun drop_underscores :: "char \<Rightarrow> string \<Rightarrow> string option" where
  "drop_underscores prev [] = (if prev = CHR ''_'' then None else Some [])"
| "drop_underscores prev (c # cs) =
     (if c = CHR ''_'' then (if is_digit prev then drop_underscores c cs else None)
      else if prev = CHR ''_'' \<and> \<not> is_digit c then None
      else map_option ((#) c) (drop_underscores c cs))"

text \<open>\<open>int(text)\<close>\<close>

definition py_int :: "string \<Rightarrow> int result" where
  "py_int text =
     (let bad = Inl (ValueError (''invalid literal for int() with base 10: '' @ repr_string text)) in
      case drop_underscores (CHR '' '') (strip text) of None \<Rightarrow> bad
      | Some s \<Rightarrow>
        (let ds = (if s \<noteq> [] \<and> hd s \<in> {CHR ''-'', CHR ''+''} then tl s else s) in
         if ds \<noteq> [] \<and> list_all is_digit ds
         then Inr (if hd s = CHR ''-'' then - int (read_nat ds) else int (read_nat ds))
         else bad))"

end
