(* ===== verification/RecoveryDrill.thy ===== *)
theory RecoveryDrill
  imports Database PyValues Schemas Service
begin

text \<open>
  \<open>scripts/recovery_drill.py\<close>: the drill around a dump and restore.  \<open>seed_fixture\<close> runs one
  dispatch from registration to settlement and returns what it left behind; \<open>verify_fixture\<close>
  compares a restored database with it.  The expectation is the JSON object read back from the
  file the first command wrote; the files and the command line are not modelled.
\<close>

section \<open>The fixture\<close>

definition FIXTURE_VERSION :: string where
  "FIXTURE_VERSION = ''energy-flex-recovery-fixture.v1''"

definition drill_database_url :: "(string \<Rightarrow> string option) \<Rightarrow> string result" where
  "drill_database_url getenv =
     (let value = strip (case getenv ''DATABASE_URL'' of Some v \<Rightarrow> v | None \<Rightarrow> '''') in
      if value = [] then Inl (RuntimeError ''DATABASE_URL is required for the recovery drill.'')
      else if \<not> prefix ''postgresql+'' value
      then Inl (RuntimeError ''The recovery drill requires an explicit PostgreSQL URL.'')
      else Inr value)"

definition recovery_owner :: actor where
  "recovery_owner = \<lparr>actor_id = ''recovery-owner'', actor_role = ASSET_OWNER\<rparr>"

definition recovery_operator :: actor where
  "recovery_operator = \<lparr>actor_id = ''recovery-operator'', actor_role = MARKET_OPERATOR\<rparr>"

definition recovery_analyst :: actor where
  "recovery_analyst = \<lparr>actor_id = ''recovery-analyst'', actor_role = SETTLEMENT_ANALYST\<rparr>"

definition recovery_auditor :: actor where
  "recovery_auditor = \<lparr>actor_id = ''recovery-auditor'', actor_role = AUDITOR\<rparr>"

definition fixture_start :: datetime where
  "fixture_start = \<lparr>wall = ymd_to_days 2026 8 17 * DAY + 12 * 3600 * SECOND, tzoff = Some 0\<rparr>"

definition fixture_end :: datetime where
  "fixture_end = plus_seconds fixture_start 3600"

lemma fixture_window:
  "fixture_start = \<lparr>wall = 63922564800 * SECOND, tzoff = Some 0\<rparr>"
  "fixture_end = \<lparr>wall = 63922568400 * SECOND, tzoff = Some 0\<rparr>"
  by (simp_all add: fixture_end_def fixture_start_def plus_seconds_def ymd_to_days_def
      days_before_year_def days_before_month_def month_lengths_def leap_def DAY_def eval_simps)

definition fixture_asset :: asset_create where
  "fixture_asset = \<lparr>ac_external_id = ''RECOVERY-BATTERY-001'', ac_owner_id = actor_id recovery_owner,
     ac_asset_type = BATTERY, ac_capacity_kw = Dec False 100 0, ac_location_code = ''GB-LON''\<rparr>"

definition fixture_offer :: "string \<Rightarrow> offer_create" where
  "fixture_offer asset_id = \<lparr>oc_asset_id = asset_id, oc_window_start = fixture_start,
     oc_window_end = fixture_end, oc_direction = DECREASE, oc_quantity_kw = Dec False 80 0,
     oc_price_per_kwh = Dec False 50 (- 2)\<rparr>"

definition fixture_reservation :: reservation_create where
  "fixture_reservation = \<lparr>rc_quantity_kw = Dec False 50 0\<rparr>"

definition fixture_dispatch :: dispatch_create where
  "fixture_dispatch = \<lparr>dc_target_kw = Dec False 40 0, dc_starts_at = fixture_start,
     dc_ends_at = fixture_end\<rparr>"

definition fixture_reading :: "string \<Rightarrow> meter_reading_create" where
  "fixture_reading asset_id = \<lparr>mc_asset_id = asset_id, mc_interval_start = fixture_start,
     mc_interval_end = fixture_end, mc_energy_kwh = Dec False 245 (- 1),
     mc_source = ''recovery-synthetic-meter''\<rparr>"

definition drill_worker :: worker where
  "drill_worker = default_worker\<lparr>worker_id := ''recovery-drill-worker''\<rparr>"

definition published_count :: "db \<Rightarrow> nat" where
  "published_count s = length (filter (\<lambda>m. msg_status m = PUBLISHED) (messages s))"

text \<open>A command model that does not validate raises before the operation is called.\<close>

definition with_command :: "'c result \<Rightarrow> ('c \<Rightarrow> 'a result \<times> db) \<Rightarrow> db \<Rightarrow> 'a result \<times> db" where
  "with_command v k s = (case v of Inl e \<Rightarrow> (Inl e, s) | Inr c \<Rightarrow> k c)"

text \<open>\<open>x = operation(...)\<close> followed by the rest of the block.\<close>

definition after :: "'a result \<times> db \<Rightarrow> ('a \<Rightarrow> db \<Rightarrow> 'b result \<times> db) \<Rightarrow> 'b result \<times> db" where
  "after run k = (case run of (Inl e, s) \<Rightarrow> (Inl e, s) | (Inr x, s) \<Rightarrow> k x s)"

text \<open>The first session: from the registration to the queued dispatch.\<close>

definition seed_dispatch ::
  "env \<Rightarrow> (nat \<Rightarrow> draws) \<Rightarrow> db \<Rightarrow> (asset \<times> reservation \<times> dispatch) result \<times> db" where
  "seed_dispatch E ds s =
     after (with_command (validate_asset fixture_asset)
         (\<lambda>c. register_asset E (ds 0) c recovery_owner s) s) (\<lambda>asset s.
     after (with_command (validate_offer (fixture_offer (ast_id asset)))
         (\<lambda>c. create_offer E (ds 1) c recovery_owner s) s) (\<lambda>offer s.
     after (with_command (validate_reservation fixture_reservation)
         (\<lambda>c. reserve_offer E (ds 2) (ofr_id offer) c recovery_operator
           ''recovery-reservation-001'' s) s) (\<lambda>reservation s.
     after (with_command (validate_dispatch fixture_dispatch)
         (\<lambda>c. issue_dispatch E (ds 3) (rsv_id reservation) c recovery_operator
           ''recovery-dispatch-001'' s) s) (\<lambda>dispatch s.
     (Inr (asset, reservation, dispatch), s)))))"

definition seed_publish :: "env \<Rightarrow> (nat \<Rightarrow> draws) \<Rightarrow> db \<Rightarrow> unit result \<times> db" where
  "seed_publish E ds s =
     (case run_once E drill_worker noop_publish (\<lambda>k. ds (4 + k)) 10 s () of
        (Inl e, s', _) \<Rightarrow> (Inl e, s')
      | (Inr result, s', _) \<Rightarrow>
          if rr_published result \<noteq> 1 \<or> rr_dead result \<noteq> 0
          then (Inl (RuntimeError ''Recovery fixture dispatch did not publish exactly once.''), s')
          else (Inr (), s'))"

text \<open>The second session ends with the report, which only reads.\<close>

definition seed_report ::
  "env \<Rightarrow> string \<Rightarrow> string \<Rightarrow> string \<Rightarrow> settlement \<Rightarrow> db \<Rightarrow> (string \<times> pyval) list result" where
  "seed_report E asset_id reservation_id dispatch_id x s =
     (case settlement_evidence E (stl_id x) recovery_auditor s of Inl e \<Rightarrow> Inl e | Inr evidence \<Rightarrow>
      case service_audit_verification E recovery_auditor s of Inl e \<Rightarrow> Inl e | Inr verification \<Rightarrow>
      if \<not> ev_hash_valid evidence \<or> \<not> av_valid verification
      then Inl (RuntimeError ''Seeded recovery evidence is not internally valid.'')
      else if published_count s \<noteq> 1
      then Inl (RuntimeError ''Seeded recovery outbox state is unexpected.'')
      else Inr
        [(''fixture_version'', PStr FIXTURE_VERSION),
         (''asset_id'', PStr asset_id),
         (''reservation_id'', PStr reservation_id),
         (''dispatch_id'', PStr dispatch_id),
         (''settlement_id'', PStr (stl_id x)),
         (''settlement_amount'', PStr (dec_format (stl_amount x))),
         (''evidence_hash'', PStr (ev_evidence_hash evidence)),
         (''audit_event_count'', PInt (int (av_event_count verification))),
         (''audit_head_hash'', PStr (av_head_hash verification)),
         (''published_outbox_count'', PInt (int (published_count s)))])"

definition seed_fixture ::
  "env \<Rightarrow> (nat \<Rightarrow> draws) \<Rightarrow> (string \<Rightarrow> string option) \<Rightarrow> catalogue \<Rightarrow> db \<Rightarrow>
    (string \<times> pyval) list result \<times> db" where
  "seed_fixture E ds getenv cat s =
     (case drill_database_url getenv of Inl e \<Rightarrow> (Inl e, s) | Inr _ \<Rightarrow>
      case initialize_database True cat of Inl e \<Rightarrow> (Inl e, s) | Inr _ \<Rightarrow>
      after (seed_dispatch E ds s) (\<lambda>(asset, reservation, dispatch) s.
      after (seed_publish E ds s) (\<lambda>_ s.
      after (with_command (validate_meter_reading (fixture_reading (ast_id asset)))
          (\<lambda>c. record_meter_reading E (ds 25) c recovery_owner s) s) (\<lambda>_ s.
      after (settle_reservation E (ds 26) (rsv_id reservation) recovery_analyst
          ''recovery-settlement-001'' s) (\<lambda>x s.
      (seed_report E (ast_id asset) (rsv_id reservation) (dsp_id dispatch) x s, s))))))"

section \<open>Verification after the restore\<close>

definition drill_observed ::
  "settlement \<Rightarrow> evidence \<Rightarrow> audit_verification \<Rightarrow> db \<Rightarrow> (string \<times> json) list" where
  "drill_observed x evidence verification s =
     [(''settlement_amount'', JStr (dec_format (stl_amount x))),
      (''evidence_hash'', JStr (ev_evidence_hash evidence)),
      (''audit_event_count'', JInt (int (av_event_count verification))),
      (''audit_head_hash'', JStr (av_head_hash verification)),
      (''published_outbox_count'', JInt (int (published_count s)))]"

fun compare_observed :: "(string \<Rightarrow> json option) \<Rightarrow> (string \<times> json) list \<Rightarrow> unit result" where
  "compare_observed expected [] = Inr ()"
| "compare_observed expected ((key, value) # rest) =
     (if \<not> py_eq value (expected key)
      then Inl (RuntimeError (''Recovery verification mismatch for '' @ key @ '': expected '' @
        py_repr (case expected key of Some v \<Rightarrow> v | None \<Rightarrow> JNull) @ '', observed '' @
        py_repr value @ ''.''))
      else compare_observed expected rest)"

definition verify_fixture ::
  "env \<Rightarrow> (string \<Rightarrow> string option) \<Rightarrow> catalogue \<Rightarrow> (string \<Rightarrow> json option) \<Rightarrow> db \<Rightarrow> unit result" where
  "verify_fixture E getenv cat expected s =
     (if \<not> py_eq (JStr FIXTURE_VERSION) (expected ''fixture_version'')
      then Inl (RuntimeError ''Unsupported recovery fixture version.'')
      else case drill_database_url getenv of Inl e \<Rightarrow> Inl e | Inr _ \<Rightarrow>
      case initialize_database True cat of Inl e \<Rightarrow> Inl e | Inr _ \<Rightarrow>
      case expected ''settlement_id'' of
        None \<Rightarrow> Inl (OtherError ''KeyError'' (repr_string ''settlement_id''))
      | Some v \<Rightarrow>
      case lookup stl_id (py_str v) (settlements s) of
        None \<Rightarrow> Inl (RuntimeError ''Restored settlement is missing.'')
      | Some x \<Rightarrow>
      case settlement_evidence E (py_str v) recovery_auditor s of Inl e \<Rightarrow> Inl e | Inr evidence \<Rightarrow>
      case service_audit_verification E recovery_auditor s of Inl e \<Rightarrow> Inl e | Inr verification \<Rightarrow>
      case compare_observed expected (drill_observed x evidence verification s) of Inl e \<Rightarrow> Inl e
      | Inr _ \<Rightarrow>
        if \<not> ev_hash_valid evidence \<or> \<not> av_valid verification
        then Inl (RuntimeError ''Restored evidence or audit chain is invalid.'')
        else Inr ())"

end
