(* ===== verification/Scenario.thy ===== *)
theory Scenario
  imports Refinement RecoveryDrill
begin

text \<open>
  One concrete run of the platform, the one the recovery drill seeds: from an empty database to a
  settled reservation, evaluated step by step.  The hash of this run is the identity, so no two texts collide; the events keep
  their hashes unevaluated.
\<close>

definition E0 :: env where
  "E0 = \<lparr>sha256 = (\<lambda>t. t), pyd_decimal = dec_format, pyd_time = isoformat, strict_widths = False,
     serial_appends = True\<rparr>"

definition clock_at :: "int \<Rightarrow> datetime" where
  "clock_at n = \<lparr>wall = n * SECOND, tzoff = Some 0\<rparr>"

text \<open>The draws of the call \<open>n\<close>: its clock is at second \<open>60 n\<close>.\<close>

definition D :: "nat \<Rightarrow> draws" where
  "D n = \<lparr>uuid = (\<lambda>i. [digit n, digit i]), now = (\<lambda>i. clock_at (60 * int n)), seq_gap = 0,
     unseen = 0\<rparr>"

abbreviation owner :: actor where "owner \<equiv> recovery_owner"
abbreviation operator :: actor where "operator \<equiv> recovery_operator"
abbreviation analyst :: actor where "analyst \<equiv> recovery_analyst"

definition log_ok :: "audit_event list \<Rightarrow> bool" where
  "log_ok es \<longleftrightarrow> (\<forall>e\<in>set es. evt_hash e = calculate_event_hash E0 e)"

lemma log_ok_simps [simp]:
  "log_ok []" "log_ok [e] \<longleftrightarrow> evt_hash e = calculate_event_hash E0 e" "log_ok (es @ [e]) \<longleftrightarrow> log_ok es \<and> evt_hash e = calculate_event_hash E0 e"
  by (auto simp: log_ok_def)

lemma E0_hash: "evt_id e \<noteq> evt_id f \<Longrightarrow> calculate_event_hash E0 e \<noteq> calculate_event_hash E0 f"
  using event_text_binds [of e f]
  by (auto simp: calculate_event_hash_def sha256_json_def E0_def same_content_def)

text \<open>In this run an append succeeds when its identifier is new; the event it adds.\<close>

definition event_of where
  "event_of d i ty aid et actor corr payload s =
     fst (projr (append_event E0 d i ty aid et actor corr payload s))"

lemma append_E0:
  assumes "log_ok (events s)" "uuid d i \<notin> evt_id ` set (events s)"
  shows "append_event E0 d i ty aid et actor corr payload s =
      Inr (event_of d i ty aid et actor corr payload s,
        s\<lparr>events := events s @ [event_of d i ty aid et actor corr payload s]\<rparr>)"
    and "evt_id (event_of d i ty aid et actor corr payload s) = uuid d i"
    and "evt_hash (event_of d i ty aid et actor corr payload s) =
      calculate_event_hash E0 (event_of d i ty aid et actor corr payload s)"
proof -
  obtain e s' where a: "append_event E0 d i ty aid et actor corr payload s = Inr (e, s')"
  proof -
    have "calculate_event_hash E0 f \<notin> evt_hash ` set (events s)"
      if "evt_id f = uuid d i" for f
      using assms that E0_hash [of f] by (auto simp: log_ok_def image_iff)
    moreover have "next_sequence s q \<notin> evt_sequence ` set (events s)" for q
      using next_sequence_greater [of _ s q] by force
    ultimately show thesis
      using assms(2) that
      by (simp add: append_event_def append_after_def Let_def insert_event_def constrained_def
          E0_def [THEN arg_cong [of _ _ strict_widths]])
  qed
  then have e: "event_of d i ty aid et actor corr payload s = e" by (simp add: event_of_def)
  show "append_event E0 d i ty aid et actor corr payload s =
      Inr (event_of d i ty aid et actor corr payload s,
        s\<lparr>events := events s @ [event_of d i ty aid et actor corr payload s]\<rparr>)"
    "evt_id (event_of d i ty aid et actor corr payload s) = uuid d i"
    "evt_hash (event_of d i ty aid et actor corr payload s) =
      calculate_event_hash E0 (event_of d i ty aid et actor corr payload s)"
    unfolding e using a by (auto elim: append_event_elim)
qed

lemmas run_simps = require_role_def transaction_def lookup_Nil lookup_Cons lookup_append
  insert_defs store_defs constrained_def Let_def append_E0 set_defs modify_def

section \<open>The states of the run\<close>

abbreviation asset_cmd :: asset_create where "asset_cmd \<equiv> fixture_asset"
abbreviation offer_cmd :: offer_create where "offer_cmd \<equiv> fixture_offer (uuid (D 1) 0)"
abbreviation reserve_cmd :: reservation_create where "reserve_cmd \<equiv> fixture_reservation"
abbreviation dispatch_cmd :: dispatch_create where "dispatch_cmd \<equiv> fixture_dispatch"
abbreviation reading_cmd :: meter_reading_create where "reading_cmd \<equiv> fixture_reading (uuid (D 1) 0)"

definition a1 :: asset where
  "a1 = \<lparr>ast_id = uuid (D 1) 0, ast_external_id = ''RECOVERY-BATTERY-001'', ast_owner_id = ''recovery-owner'',
     ast_type = BATTERY, ast_capacity_kw = Dec False 100000000 (- 6), ast_location_code = ''GB-LON'',
     ast_status = ACTIVE, ast_created_at = clock_at 60\<rparr>"

definition f1 :: "offer_status \<Rightarrow> flex_offer" where
  "f1 st = \<lparr>ofr_id = uuid (D 2) 0, ofr_asset_id = uuid (D 1) 0, ofr_window_start = fixture_start,
     ofr_window_end = fixture_end, ofr_direction = DECREASE,
     ofr_quantity_kw = Dec False 80000000 (- 6), ofr_price_per_kwh = Dec False 500000 (- 6),
     ofr_status = st, ofr_created_by = ''recovery-owner'', ofr_created_at = clock_at 120\<rparr>"

definition r1 :: "reservation_status \<Rightarrow> reservation" where
  "r1 st = \<lparr>rsv_id = uuid (D 3) 0, rsv_offer_id = uuid (D 2) 0,
     rsv_quantity_kw = Dec False 50000000 (- 6), rsv_status = st, rsv_requested_by = ''recovery-operator'',
     rsv_created_at = clock_at 180\<rparr>"

definition i1 :: idempotency_record where
  "i1 = \<lparr>idm_id = uuid (D 3) 2, idm_operation = ''reserve_offer'', idm_key = ''recovery-reservation-001'',
     idm_request_hash = reserve_hash E0 (uuid (D 2) 0) reserve_cmd operator,
     idm_resource_type = ''reservation'', idm_resource_id = uuid (D 3) 0,
     idm_response_snapshot = canonical_json (PDict [(''resource_id'', PStr (uuid (D 3) 0))]),
     idm_created_at = clock_at 180\<rparr>"

lemmas data_simps = D_def recovery_owner_def recovery_operator_def recovery_analyst_def a1_def f1_def r1_def i1_def
  fixture_asset_def fixture_offer_def fixture_reservation_def fixture_dispatch_def fixture_reading_def
  fixture_window

lemma E0_widths [simp]: "strict_widths E0 = False" "serial_appends E0"
  by (simp_all add: E0_def)

definition S1 :: "audit_event list \<Rightarrow> db" where
  "S1 es = empty_db\<lparr>assets := [a1], events := es\<rparr>"

lemma run1: "\<exists>x es. register_asset E0 (D 1) asset_cmd owner empty_db = (Inr x, S1 es) \<and> log_ok es \<and>
    evt_id ` set es = {uuid (D 1) 2}"
  by (simp add: register_asset_def register_asset_tx_def run_simps data_simps S1_def
      empty_db_def eval_simps numeric6_def)

definition S2 :: "audit_event list \<Rightarrow> db" where
  "S2 es = empty_db\<lparr>assets := [a1], offers := [f1 OPEN], events := es\<rparr>"

lemma run2: "log_ok es \<Longrightarrow> evt_id ` set es = {uuid (D 1) 2} \<Longrightarrow>
    \<exists>x es'. create_offer E0 (D 2) offer_cmd owner (S1 es) = (Inr x, S2 es') \<and> log_ok es' \<and>
      evt_id ` set es' = {uuid (D 2) 2, uuid (D 1) 2}"
  by (simp add: create_offer_def create_offer_tx_def run_simps data_simps S1_def S2_def find_asset_def
      empty_db_def eval_simps numeric6_def dec_less_def dec_le_def dsig_at_def dsig_def)

definition S3 :: "audit_event list \<Rightarrow> db" where
  "S3 es = empty_db\<lparr>assets := [a1], offers := [f1 OFFER_RESERVED], reservations := [r1 RESERVED],
     idem := [i1], events := es\<rparr>"

lemma run3: "log_ok es \<Longrightarrow> evt_id ` set es = {uuid (D 2) 2, uuid (D 1) 2} \<Longrightarrow>
    \<exists>x es'. reserve_offer E0 (D 3) (uuid (D 2) 0) reserve_cmd operator ''recovery-reservation-001'' (S2 es) = (Inr x, S3 es') \<and>
      log_ok es' \<and> evt_id ` set es' = {uuid (D 3) 1, uuid (D 2) 2, uuid (D 1) 2}"
  by (simp add: reserve_offer_def reserve_offer_tx_def run_simps data_simps S2_def S3_def find_offer_def
      idempotent_resource_def store_idempotency_def blank_iff is_space_def
      empty_db_def eval_simps numeric6_def dec_less_def dec_le_def dsig_at_def dsig_def)

definition d1 :: "dispatch_status \<Rightarrow> string \<Rightarrow> dispatch" where
  "d1 st ref = \<lparr>dsp_id = uuid (D 4) 0, dsp_reservation_id = uuid (D 3) 0,
     dsp_target_kw = Dec False 40000000 (- 6), dsp_starts_at = fixture_start,
     dsp_ends_at = fixture_end, dsp_status = st, dsp_issued_by = ''recovery-operator'',
     dsp_adapter_reference = Some ref, dsp_created_at = clock_at 240\<rparr>"

definition sg1 :: dispatch_signal where
  "sg1 = \<lparr>sig_dispatch_id = uuid (D 4) 0, sig_asset_external_id = ''RECOVERY-BATTERY-001'',
     sig_target_kw = Dec False 40 0, sig_starts_at = fixture_start, sig_ends_at = fixture_end\<rparr>"

definition m1 :: outbox_message where
  "m1 = new_message (D 4) 1 sg1 ''recovery-dispatch-001''"

definition i2 :: idempotency_record where
  "i2 = \<lparr>idm_id = uuid (D 4) 3, idm_operation = ''issue_dispatch'', idm_key = ''recovery-dispatch-001'',
     idm_request_hash = dispatch_hash E0 (uuid (D 3) 0) dispatch_cmd operator,
     idm_resource_type = ''dispatch'', idm_resource_id = uuid (D 4) 0,
     idm_response_snapshot = canonical_json (PDict [(''resource_id'', PStr (uuid (D 4) 0))]),
     idm_created_at = clock_at 240\<rparr>"

definition S4 :: "audit_event list \<Rightarrow> db" where
  "S4 es = empty_db\<lparr>assets := [a1], offers := [f1 OFFER_RESERVED], reservations := [r1 DISPATCH_PENDING],
     dispatches := [d1 QUEUED (''outbox:'' @ uuid (D 4) 1)], messages := [m1], idem := [i1, i2],
     events := es\<rparr>"

definition ids4 :: "string set" where
  "ids4 = {uuid (D 4) 2, uuid (D 3) 1, uuid (D 2) 2, uuid (D 1) 2}"

lemma run4: "log_ok es \<Longrightarrow> evt_id ` set es = {uuid (D 3) 1, uuid (D 2) 2, uuid (D 1) 2} \<Longrightarrow>
    \<exists>x es'. issue_dispatch E0 (D 4) (uuid (D 3) 0) dispatch_cmd operator ''recovery-dispatch-001'' (S3 es) = (Inr x, S4 es') \<and>
      log_ok es' \<and> evt_id ` set es' = ids4"
  by (simp add: issue_dispatch_def issue_dispatch_tx_def run_simps data_simps S3_def S4_def find_offer_def
      find_reservation_def find_asset_def ids4_def d1_def m1_def i2_def sg1_def
      idempotent_resource_def store_idempotency_def blank_iff is_space_def
      enqueue_dispatch_def new_message_def dt_less_def instant_def clock_at_def as_utc_def SECOND_def
      empty_db_def eval_simps numeric6_def dec_less_def dec_le_def dsig_at_def dsig_def)

text \<open>The worker claims the message at second 300 and publishes it.\<close>

abbreviation w1 :: worker where "w1 \<equiv> drill_worker"

definition m2 :: outbox_message where
  "m2 = mark_claimed (clock_at 300) w1 (''recovery-drill-worker:'' @ uuid (D 5) 0) m1"

definition S5 :: "audit_event list \<Rightarrow> db" where
  "S5 es = (S4 es)\<lparr>messages := [m2]\<rparr>"

definition c1 :: claimed_message where
  "c1 = \<lparr>clm_id = uuid (D 4) 1, clm_aggregate_id = uuid (D 4) 0, clm_idempotency_key = ''recovery-dispatch-001'',
     clm_payload = dispatch_payload sg1, clm_attempts = 1, clm_token = ''recovery-drill-worker:'' @ uuid (D 5) 0\<rparr>"

lemma run5: "claim_one E0 w1 (D 5) (S4 es) = (Inr (Some c1), S5 es)"
  by (simp add: claim_one_def run_simps data_simps S4_def S5_def c1_def drill_worker_def default_worker_def m1_def m2_def
      new_message_def claimable_def update_message_def mark_claimed_def dt_le_def instant_def
      clock_at_def as_utc_def SECOND_def plus_seconds_def sg1_def eval_simps empty_db_def)

definition m3 :: outbox_message where
  "m3 = mark_published (clock_at 360) ''noop:40'' m2"

definition S6 :: "audit_event list \<Rightarrow> db" where
  "S6 es = (S4 es)\<lparr>messages := [m3], dispatches := [d1 ISSUED ''noop:40''],
     reservations := [r1 DISPATCHED], events := es\<rparr>"

definition ids6 :: "string set" where
  "ids6 = insert (uuid (D 6) 1) ids4"

lemma run6: "log_ok es \<Longrightarrow> evt_id ` set es = ids4 \<Longrightarrow>
    \<exists>es'. record_success E0 w1 (D 6) c1 ''noop:40'' (S5 es) = (Inr True, S6 es') \<and>
      log_ok es' \<and> evt_id ` set es' = ids6"
  by (simp add: record_success_def run_simps data_simps S4_def S5_def S6_def c1_def drill_worker_def default_worker_def m1_def m2_def
      m3_def d1_def new_message_def update_message_def mark_claimed_def mark_published_def ids4_def ids6_def
      clock_at_def as_utc_def SECOND_def eval_simps empty_db_def)

definition g1 :: meter_reading where
  "g1 = \<lparr>mtr_id = uuid (D 7) 0, mtr_asset_id = uuid (D 1) 0, mtr_interval_start = fixture_start,
     mtr_interval_end = fixture_end, mtr_energy_kwh = Dec False 24500000 (- 6),
     mtr_source = ''recovery-synthetic-meter'',
     mtr_fingerprint = request_hash E0 (reading_dump E0 reading_cmd), mtr_recorded_by = ''recovery-owner'',
     mtr_received_at = clock_at 420\<rparr>"

definition S7 :: "audit_event list \<Rightarrow> db" where
  "S7 es = (S6 es)\<lparr>readings := [g1]\<rparr>"

definition ids7 :: "string set" where
  "ids7 = insert (uuid (D 7) 1) ids6"

lemma run7: "log_ok es \<Longrightarrow> evt_id ` set es = ids6 \<Longrightarrow>
    \<exists>x es'. record_meter_reading E0 (D 7) reading_cmd owner (S6 es) = (Inr x, S7 es') \<and>
      log_ok es' \<and> evt_id ` set es' = ids7"
  by (simp add: record_meter_reading_def record_meter_reading_tx_def run_simps data_simps S4_def S6_def
      S7_def g1_def find_asset_def ids4_def ids6_def ids7_def numeric6_def eval_simps empty_db_def)

definition t1 :: "audit_event \<Rightarrow> settlement" where
  "t1 e = (let m = evidence_manifest (uuid (D 8) 0) (r1 DISPATCHED) (f1 OFFER_RESERVED)
       (d1 ISSUED ''noop:40'') [g1] (Dec False 24500000 (- 6)) (Dec False 12250000 (- 6)) e in
     \<lparr>stl_id = uuid (D 8) 0, stl_reservation_id = uuid (D 3) 0,
       stl_delivered_kwh = Dec False 24500000 (- 6), stl_price_per_kwh = Dec False 500000 (- 6),
       stl_amount = Dec False 12250000 (- 6), stl_evidence_manifest = m,
       stl_evidence_hash = sha256_json E0 m, stl_settled_by = ''recovery-analyst'',
       stl_created_at = clock_at 480\<rparr>)"

definition i3 :: idempotency_record where
  "i3 = \<lparr>idm_id = uuid (D 8) 2, idm_operation = ''settle_reservation'', idm_key = ''recovery-settlement-001'',
     idm_request_hash = settle_hash E0 (uuid (D 3) 0) analyst,
     idm_resource_type = ''settlement'', idm_resource_id = uuid (D 8) 0,
     idm_response_snapshot = canonical_json (PDict [(''resource_id'', PStr (uuid (D 8) 0))]),
     idm_created_at = clock_at 480\<rparr>"

definition S8 :: "audit_event list \<Rightarrow> db" where
  "S8 es = (S7 es)\<lparr>reservations := [r1 RES_COMPLETED], dispatches := [d1 DSP_COMPLETED ''noop:40''],
     settlements := [t1 (last es)], events := es, idem := [i1, i2, i3]\<rparr>"

lemma money: "delivered_energy [Dec False 24500000 (- 6)] = Inr (Dec False 24500000 (- 6))"
  "settlement_amount (Dec False 24500000 (- 6)) (Dec False 500000 (- 6)) = Inr (Dec False 12250000 (- 6))"
  by (simp_all add: delivered_energy_def settlement_amount_def dec_sum_def dec_add_def dec_mul_def
      dec_fix_def dec_quantize_def round_div_def PREC_def MONEY_QUANTUM_def dsig_at_def dsig_def
      eval_simps Let_def)

lemma run8: "log_ok es \<Longrightarrow> evt_id ` set es = ids7 \<Longrightarrow>
    \<exists>x es'. settle_reservation E0 (D 8) (uuid (D 3) 0) analyst ''recovery-settlement-001'' (S7 es) = (Inr x, S8 es') \<and>
      log_ok es'"
  by (simp add: settle_reservation_def settle_reservation_tx_def run_simps data_simps S4_def S6_def
      S7_def S8_def t1_def i3_def g1_def d1_def find_offer_def find_reservation_def
      idempotent_resource_def store_idempotency_def blank_iff is_space_def
      ids4_def ids6_def ids7_def i2_def window_readings_def dt_le_def instant_def clock_at_def
      SECOND_def money numeric6_def eval_simps empty_db_def)

section \<open>The other outcome: delivery fails\<close>

definition impatient :: worker where
  "impatient = w1\<lparr>max_attempts := 1\<rparr>"

definition outage :: pyexn where
  "outage = RuntimeError ''down''"

definition m4 :: outbox_message where
  "m4 = mark_dead (clock_at 360) (error_text outage) m2"

definition F6 :: "audit_event list \<Rightarrow> db" where
  "F6 es = (S4 es)\<lparr>messages := [m4], dispatches := [d1 REJECTED (''outbox:'' @ uuid (D 4) 1)],
     reservations := [r1 RES_CANCELLED], events := es\<rparr>"

lemma fail6: "log_ok es \<Longrightarrow> evt_id ` set es = ids4 \<Longrightarrow>
    \<exists>es'. record_failure E0 impatient (D 6) c1 outage (S5 es) = (Inr True, F6 es') \<and>
      log_ok es' \<and> evt_id ` set es' = ids6"
  by (simp add: record_failure_def run_simps data_simps S4_def S5_def F6_def c1_def drill_worker_def default_worker_def m1_def m2_def
      m4_def d1_def new_message_def update_message_def mark_claimed_def mark_dead_def ids4_def ids6_def
      impatient_def clock_at_def as_utc_def SECOND_def eval_simps empty_db_def)

definition m5 :: outbox_message where
  "m5 = mark_retry (clock_at 360) (error_text outage) 1 m2"

lemma retry6: "record_failure E0 w1 (D 6) c1 outage (S5 es) = (Inr False, (S5 es)\<lparr>messages := [m5]\<rparr>)"
  by (simp add: record_failure_def run_simps data_simps S4_def S5_def c1_def drill_worker_def default_worker_def m1_def m2_def
      m5_def d1_def new_message_def update_message_def mark_claimed_def mark_retry_def retry_delay_def
      clock_at_def as_utc_def SECOND_def eval_simps empty_db_def)

definition recoverer :: actor where "recoverer = \<lparr>actor_id = ''ops'', actor_role = RECOVERY_OPERATOR\<rparr>"

definition why :: string where "why = ''the adapter is back''"

lemma squash_why: "squash why = why"
  by (simp add: squash_def why_def is_space_def)

definition m6 :: outbox_message where
  "m6 = rearm (clock_at 420) m4"

definition F7 :: "audit_event list \<Rightarrow> db" where
  "F7 es = (S4 es)\<lparr>messages := [m6], dispatches := [d1 QUEUED (''outbox:'' @ uuid (D 4) 1)],
     reservations := [r1 DISPATCH_PENDING], events := es\<rparr>"

lemma redrive7: "log_ok es \<Longrightarrow> evt_id ` set es = ids6 \<Longrightarrow>
    \<exists>x es'. authorize_redrive E0 (D 7) recoverer (uuid (D 4) 1) (uuid (D 4) 0) why (F6 es) = (Inr x, F7 es') \<and>
      log_ok es'"
  by (simp add: authorize_redrive_def redrive_tx_def run_simps data_simps S4_def F6_def F7_def c1_def
      drill_worker_def default_worker_def m1_def m2_def m4_def m6_def d1_def new_message_def update_message_def mark_claimed_def
      mark_dead_def rearm_def ids4_def ids6_def recoverer_def squash_why [unfolded why_def] why_def sg1_def MIN_REASON_def
      clock_at_def as_utc_def SECOND_def eval_simps empty_db_def)

section \<open>The run as steps of the platform\<close>

lemma valid_commands [simp]:
  "validate_asset asset_cmd = Inr asset_cmd" "validate_offer offer_cmd = Inr offer_cmd"
  "validate_reservation reserve_cmd = Inr reserve_cmd" "validate_dispatch dispatch_cmd = Inr dispatch_cmd"
  "validate_meter_reading reading_cmd = Inr reading_cmd"
  by (simp_all add: validate_defs data_simps text_field_def positive_field_def nonneg_field_def
      digits_18_6_def six_places_def zero_dec_def dec_less_def dec_le_def dsig_at_def dsig_def
      Let_def dt_le_def instant_def clock_at_def SECOND_def)

text \<open>The database \<open>s\<close> with the claims \<open>cs\<close> in flight.\<close>

definition pf :: "db \<Rightarrow> claimed_message list \<Rightarrow> platform" where
  "pf s cs = \<lparr>store = s, claims = cs\<rparr>"

lemma pf_sel [simp]: "store (pf s cs) = s" "claims (pf s cs) = cs"
  by (simp_all add: pf_def)

lemma start_pf: "start = pf empty_db []"
  by (simp add: start_def pf_def)

lemma serve_step: "serve E d a req s = (resp, s') \<Longrightarrow> step E (pf s cs) (pf s' cs)"
  using step.Serve [of E d a req "pf s cs" resp s'] by (simp add: pf_def)

lemma claim_step: "claim_one E w d s = (Inr (Some c), s') \<Longrightarrow> step E (pf s cs) (pf s' (c # cs))"
  using step.Claim [of E w d "pf s cs" c s'] by (simp add: pf_def)

lemma success_step: "record_success E w d c ref s = (r, s') \<Longrightarrow> step E (pf s [c]) (pf s' [])"
  using step.Published [of c "pf s [c]" E w d ref r s'] by (simp add: pf_def)

lemma failure_step: "record_failure E w d c exc s = (r, s') \<Longrightarrow> step E (pf s [c]) (pf s' [])"
  using step.Failed [of c "pf s [c]" E w d exc r s'] by (simp add: pf_def)

lemma redrive_step:
  "authorize_redrive E d a mid did reason s = (r, s') \<Longrightarrow> step E (pf s cs) (pf s' cs)"
  using step.Redrive [of E d a mid did reason "pf s cs" r s'] by (simp add: pf_def)

lemma reach_one: "step E p q \<Longrightarrow> reach (step E) p q"
  by (rule reach_step [OF reach_refl])

lemma to_offered:
  obtains es es3 x where "reach (step E0) start (pf (S2 es) [])"
    "reserve_offer E0 (D 3) (uuid (D 2) 0) reserve_cmd operator ''recovery-reservation-001'' (S2 es) = (Inr x, S3 es3)"
    "log_ok es3" "evt_id ` set es3 = {uuid (D 3) 1, uuid (D 2) 2, uuid (D 1) 2}"
proof -
  obtain x es1 where 1: "register_asset E0 (D 1) asset_cmd owner empty_db = (Inr x, S1 es1)" "log_ok es1"
      "evt_id ` set es1 = {uuid (D 1) 2}"
    using run1 by blast
  obtain y es2 where 2: "create_offer E0 (D 2) offer_cmd owner (S1 es1) = (Inr y, S2 es2)" "log_ok es2"
      "evt_id ` set es2 = {uuid (D 2) 2, uuid (D 1) 2}"
    using run2 [OF 1(2,3)] by blast
  obtain z es3 where 3: "reserve_offer E0 (D 3) (uuid (D 2) 0) reserve_cmd operator ''recovery-reservation-001'' (S2 es2) = (Inr z, S3 es3)"
      "log_ok es3" "evt_id ` set es3 = {uuid (D 3) 1, uuid (D 2) 2, uuid (D 1) 2}"
    using run3 [OF 2(2,3)] by blast
  have "step E0 start (pf (S1 es1) [])"
    unfolding start_pf by (rule serve_step [of _ "D 1" owner "RegisterAsset asset_cmd"])
      (simp add: with_valid_def render_def 1 del: One_nat_def)
  moreover have "step E0 (pf (S1 es1) []) (pf (S2 es2) [])"
    by (rule serve_step [of _ "D 2" owner "CreateOffer offer_cmd"]) (simp add: with_valid_def render_def 2 del: One_nat_def)
  ultimately have "reach (step E0) start (pf (S2 es2) [])" by (blast intro: reach_step reach_refl)
  from this 3 show ?thesis by (rule that)
qed

lemma to_reserved:
  obtains es where "reach (step E0) start (pf (S3 es) [])" "log_ok es"
    "evt_id ` set es = {uuid (D 3) 1, uuid (D 2) 2, uuid (D 1) 2}"
proof -
  obtain es es3 x where r: "reach (step E0) start (pf (S2 es) [])"
    "reserve_offer E0 (D 3) (uuid (D 2) 0) reserve_cmd operator ''recovery-reservation-001'' (S2 es) = (Inr x, S3 es3)"
    "log_ok es3" "evt_id ` set es3 = {uuid (D 3) 1, uuid (D 2) 2, uuid (D 1) 2}" by (rule to_offered)
  have "step E0 (pf (S2 es) []) (pf (S3 es3) [])"
    by (rule serve_step [of _ "D 3" operator "ReserveOffer (uuid (D 2) 0) reserve_cmd (Some ''recovery-reservation-001'')"])
      (simp add: with_valid_def with_key_def render_def r(2))
  with r that show ?thesis by (blast intro: reach_step)
qed

lemma to_claimed:
  obtains es where "reach (step E0) start (pf (S4 es) [])" "step E0 (pf (S4 es) []) (pf (S5 es) [c1])"
    "log_ok es" "evt_id ` set es = ids4"
proof -
  obtain es where r: "reach (step E0) start (pf (S3 es) [])" "log_ok es"
      "evt_id ` set es = {uuid (D 3) 1, uuid (D 2) 2, uuid (D 1) 2}"
    by (rule to_reserved)
  obtain x es4 where 4: "issue_dispatch E0 (D 4) (uuid (D 3) 0) dispatch_cmd operator ''recovery-dispatch-001'' (S3 es) = (Inr x, S4 es4)"
      "log_ok es4" "evt_id ` set es4 = ids4"
    using run4 [OF r(2,3)] by blast
  have "step E0 (pf (S3 es) []) (pf (S4 es4) [])"
    by (rule serve_step [of _ "D 4" operator "IssueDispatch (uuid (D 3) 0) dispatch_cmd (Some ''recovery-dispatch-001'')"])
      (simp add: with_valid_def with_key_def render_def 4)
  from reach_step [OF r(1) this] show ?thesis
    by (rule that) (use claim_step [OF run5] 4 in simp_all)
qed

lemma to_settled:
  obtains es5 es6 es7 es8 where "reach (step E0) start (pf (S5 es5) [c1])" "log_ok es5"
    "evt_id ` set es5 = ids4"
    "reach (step E0) (pf (S5 es5) [c1]) (pf (S6 es6) [])" "log_ok es6" "evt_id ` set es6 = ids6"
    "reach (step E0) (pf (S6 es6) []) (pf (S7 es7) [])" "log_ok es7" "evt_id ` set es7 = ids7"
    "reach (step E0) (pf (S7 es7) []) (pf (S8 es8) [])" "log_ok es8"
proof -
  obtain es where r: "reach (step E0) start (pf (S4 es) [])" "step E0 (pf (S4 es) []) (pf (S5 es) [c1])"
    "log_ok es" "evt_id ` set es = ids4" by (rule to_claimed)
  obtain es6 where 6: "record_success E0 w1 (D 6) c1 ''noop:40'' (S5 es) = (Inr True, S6 es6)"
      "log_ok es6" "evt_id ` set es6 = ids6"
    using run6 [OF r(3,4)] by blast
  obtain x es7 where 7: "record_meter_reading E0 (D 7) reading_cmd owner (S6 es6) = (Inr x, S7 es7)"
      "log_ok es7" "evt_id ` set es7 = ids7"
    using run7 [OF 6(2,3)] by blast
  obtain y es8 where 8: "settle_reservation E0 (D 8) (uuid (D 3) 0) analyst ''recovery-settlement-001'' (S7 es7) = (Inr y, S8 es8)"
      "log_ok es8"
    using run8 [OF 7(2,3)] by blast
  have "step E0 (pf (S6 es6) []) (pf (S7 es7) [])"
    by (rule serve_step [of _ "D 7" owner "RecordReading reading_cmd"])
      (simp add: with_valid_def render_def 7 del: One_nat_def)
  moreover have "step E0 (pf (S7 es7) []) (pf (S8 es8) [])"
    by (rule serve_step [of _ "D 8" analyst "SettleReservation (uuid (D 3) 0) (Some ''recovery-settlement-001'')"])
      (simp add: with_key_def render_def 8)
  ultimately show ?thesis
    using that [of es es6 es7 es8] reach_step [OF r(1,2)] r(3,4) success_step [OF 6(1)] 6 7 8
    by (simp add: reach_one)
qed

lemma to_given_up:
  obtains es6 es7 where "reach (step E0) start (pf (F6 es6) [])" "log_ok es6" "evt_id ` set es6 = ids6"
    "step E0 (pf (F6 es6) []) (pf (F7 es7) [])"
proof -
  obtain es where r: "reach (step E0) start (pf (S4 es) [])" "step E0 (pf (S4 es) []) (pf (S5 es) [c1])"
    "log_ok es" "evt_id ` set es = ids4" by (rule to_claimed)
  obtain es6 where 6: "record_failure E0 impatient (D 6) c1 outage (S5 es) = (Inr True, F6 es6)"
      "log_ok es6" "evt_id ` set es6 = ids6"
    using fail6 [OF r(3,4)] by blast
  obtain x es7 where 7: "authorize_redrive E0 (D 7) recoverer (uuid (D 4) 1) (uuid (D 4) 0) why (F6 es6) = (Inr x, F7 es7)"
    using redrive7 [OF 6(2,3)] by blast
  have "reach (step E0) start (pf (F6 es6) [])"
    using reach_step [OF reach_step [OF r(1,2)] failure_step [OF 6(1)]] .
  from this 6(2,3) redrive_step [OF 7] show ?thesis by (rule that)
qed

end
