(* ===== verification/PropertiesData.thy ===== *)
theory PropertiesData
  imports Scenario
begin

text \<open>
  The properties of the data formats and the audit log: the payload format, the canonical text that
  is hashed, the verification of the chain, and what an append that reads a stale head does to it.
\<close>

section \<open>Payload format\<close>

definition sample_signal :: dispatch_signal where
  "sample_signal = \<lparr>sig_dispatch_id = ''d1'', sig_asset_external_id = ''ext'',
     sig_target_kw = Dec False 305 (- 1), sig_starts_at = \<lparr>wall = 5 * SECOND, tzoff = Some 0\<rparr>,
     sig_ends_at = \<lparr>wall = 9 * SECOND, tzoff = Some (2 * SECOND)\<rparr>\<rparr>"

lemma sample_signal_ok: "signal_ok sample_signal"
  by (simp add: signal_ok_def sample_signal_def dt_ok_def as_utc_def SECOND_def DAY_def)

definition same_signal :: "dispatch_signal \<Rightarrow> dispatch_signal \<Rightarrow> bool" where
  "same_signal q sg \<longleftrightarrow> sig_dispatch_id q = sig_dispatch_id sg \<and>
     sig_asset_external_id q = sig_asset_external_id sg \<and>
     dec_val (sig_target_kw q) = dec_val (sig_target_kw sg) \<and>
     instant (sig_starts_at q) = instant (sig_starts_at sg) \<and>
     instant (sig_ends_at q) = instant (sig_ends_at sg)"

lemma plain_signal_same: "same_signal (plain_signal sg) sg"
  by (simp add: same_signal_def plain_signal_def dec_val_plain)

lemma unknown_payload_refused:
  assumes "fst ` set p \<noteq> LEGACY_DISPATCH_FIELDS"
    and "fst ` set p = VERSIONED_DISPATCH_FIELDS \<longrightarrow>
      map_of p ''schema_version'' \<noteq> Some DISPATCH_PAYLOAD_VERSION"
  shows "\<exists>m. dispatch_signal p = Inl (ValueError m)"
  using assms by (auto simp: dispatch_signal_def Let_def)

text \<open>C20: A dispatch signal written into the outbox is read back by the worker with the same
  identifiers, the same power and the same two instants, whatever the offsets of its timestamps
  and the exponent of its decimal; and so is a payload written before the format was versioned,
  which has the same fields but no schema version.  A payload with other fields than these two
  formats have, or under another version, is refused with a \<open>ValueError\<close> and never reaches an adapter.\<close>

theorem payload_round_trip:
  assumes "signal_ok sg"
  shows "(\<exists>q. dispatch_signal (dispatch_payload sg) = Inr q \<and> same_signal q sg) \<and>
     (\<exists>q. dispatch_signal (filter (\<lambda>kv. fst kv \<noteq> ''schema_version'') (dispatch_payload sg)) = Inr q \<and>
        same_signal q sg) \<and>
     (fst ` set p \<noteq> LEGACY_DISPATCH_FIELDS \<and>
        (fst ` set p = VERSIONED_DISPATCH_FIELDS \<longrightarrow>
          map_of p ''schema_version'' \<noteq> Some DISPATCH_PAYLOAD_VERSION) \<longrightarrow>
      (\<exists>m. dispatch_signal p = Inl (ValueError m)))"
proof -
  have "filter (\<lambda>kv. fst kv \<noteq> ''schema_version'') (dispatch_payload sg) = legacy_payload sg"
    by (simp add: dispatch_payload_def legacy_payload_def)
  with dispatch_signal_payload [OF assms] dispatch_signal_legacy [OF assms] plain_signal_same
    unknown_payload_refused [of p]
  show ?thesis by auto
qed

theorem payload_round_trip_witness:
  "(\<exists>q. dispatch_signal (dispatch_payload sample_signal) = Inr q \<and> same_signal q sample_signal) \<and>
   (\<exists>m. dispatch_signal [(''schema_version'', ''v2'')] = Inl (ValueError m))"
proof -
  have "fst ` set [(''schema_version'', ''v2'')] \<noteq> LEGACY_DISPATCH_FIELDS"
    "fst ` set [(''schema_version'', ''v2'')] \<noteq> VERSIONED_DISPATCH_FIELDS"
    by (simp_all add: LEGACY_DISPATCH_FIELDS_def VERSIONED_DISPATCH_FIELDS_def insert_eq_iff)
  with payload_round_trip [OF sample_signal_ok, of "[(''schema_version'', ''v2'')]"] show ?thesis by blast
qed

section \<open>Canonical text and the audit chain\<close>

text \<open>C21: The canonical JSON text is a faithful encoding: parsing it gives the value back, and two
  values have the same text exactly when they are the same JSON value, so a hash of the text is a
  hash of the value.\<close>

theorem canonical_json_faithful:
  "json_loads (canonical_json v) = Inr (to_json v) \<and>
   (canonical_json v = canonical_json w \<longleftrightarrow> to_json v = to_json w)"
  by (simp add: json_loads_canonical canonical_json_inject)

text \<open>C13: The verification decides the chain.  It reports an event exactly as the first one, in the
  order of the sequence, that does not link to its predecessor or whose hash does not match its
  content; without one it reports the hash of the last event as the head.\<close>

theorem verification_reports_first_break:
  "case av_broken_sequence (verify_chain E s) of
     None \<Rightarrow> av_valid (verify_chain E s) \<and>
       event_chain E GENESIS_HASH (sort_key evt_sequence (events s)) \<and>
       av_head_hash (verify_chain E s) = chain_head evt_hash GENESIS_HASH (sort_key evt_sequence (events s))
   | Some q \<Rightarrow> \<not> av_valid (verify_chain E s) \<and>
       (\<exists>as e bs. sort_key evt_sequence (events s) = as @ e # bs \<and> evt_sequence e = q \<and>
          event_chain E GENESIS_HASH as \<and>
          \<not> (evt_previous_hash e = chain_head evt_hash GENESIS_HASH as \<and> calculate_event_hash E e = evt_hash e))"
proof (cases "check_events E GENESIS_HASH (sort_key evt_sequence (events s))")
  case (Inl q)
  then show ?thesis using check_events_broken [OF Inl] by (simp add: verify_chain_def Let_def)
next
  case (Inr h)
  then show ?thesis by (simp add: verify_chain_def Let_def) (simp add: check_events_chain)
qed

text \<open>C12: Tampering is detected.  Take a database whose chain verifies and another one with as many
  events.  If the content of any event differs, then the other one either fails the verification
  or shows another head hash, unless two of the texts involved collide under the hash.\<close>

theorem tampering_detected:
  assumes "av_valid (verify_chain E s)"
    and "length (events t) = length (events s)"
    and "\<And>e f. e \<in> set (events s) \<Longrightarrow> f \<in> set (events t) \<Longrightarrow>
      sha256 E (event_text e) = sha256 E (event_text f) \<Longrightarrow> event_text e = event_text f"
    and "\<not> list_all2 same_content (history s) (history t)"
  shows "\<not> av_valid (verify_chain E t) \<or>
    av_head_hash (verify_chain E t) \<noteq> av_head_hash (verify_chain E s)"
proof (rule ccontr)
  assume "\<not> ?thesis"
  then have "list_all2 same_content (history s) (history t)"
    by (intro verify_chain_binds [where E = E]) (use assms(1-3) in simp_all)
  with assms(4) show False by simp
qed

definition unsealed :: "string \<Rightarrow> audit_event" where
  "unsealed who = \<lparr>evt_sequence = 1, evt_id = ''e1'', evt_aggregate_type = ''asset'',
     evt_aggregate_id = ''a1'', evt_type = ''asset.registered'', evt_actor_id = who,
     evt_correlation_id = ''c1'', evt_payload = JObj [], evt_previous_hash = GENESIS_HASH,
     evt_hash = '''', evt_occurred_at = clock_at 1\<rparr>"

definition sample_event :: "string \<Rightarrow> audit_event" where
  "sample_event who = (unsealed who)\<lparr>evt_hash := calculate_event_hash E0 (unsealed who)\<rparr>"

lemma sample_event_seal:
  "evt_hash (sample_event who) = calculate_event_hash E0 (sample_event who)"
  "evt_previous_hash (sample_event who) = GENESIS_HASH" "evt_actor_id (sample_event who) = who"
  "evt_id (sample_event who) = ''e1''" "evt_sequence (sample_event who) = 1"
  by (simp add: sample_event_def) (simp_all add: sample_event_def unsealed_def)

definition sample_log :: "string \<Rightarrow> db" where
  "sample_log who = empty_db\<lparr>events := [sample_event who]\<rparr>"

theorem tampering_detected_witness:
  "av_head_hash (verify_chain E0 (sample_log ''mallory'')) \<noteq> av_head_hash (verify_chain E0 (sample_log ''alice''))"
proof -
  have valid: "av_valid (verify_chain E0 (sample_log who))" for who
    by (simp add: verify_chain_def sample_log_def sample_event_seal)
  have "length (events (sample_log ''mallory'')) = length (events (sample_log ''alice''))"
    by (simp add: sample_log_def)
  moreover have "event_text e = event_text f" if "sha256 E0 (event_text e) = sha256 E0 (event_text f)" for e f
    using that by (simp add: E0_def)
  moreover have "\<not> list_all2 same_content (history (sample_log ''alice'')) (history (sample_log ''mallory''))"
    by (simp add: sample_log_def same_content_def sample_event_seal)
  ultimately show ?thesis
    using tampering_detected [OF valid, of "sample_log ''mallory''" "''alice''"] valid by blast
qed

text \<open>An append that does not see the newest event names another predecessor than it.\<close>

lemma unseen_predecessor:
  assumes "append_event E d i ty aid et actor corr payload s = Inr (e, s')"
    and "\<not> serial_appends E" "0 < unseen d" "events s \<noteq> []"
    and "sorted_wrt (<) (map evt_sequence (events s))" "distinct (map evt_hash (events s))"
    and "GENESIS_HASH \<notin> evt_hash ` set (events s)"
  shows "evt_previous_hash e \<noteq> chain_head evt_hash GENESIS_HASH (events s)"
proof -
  define n where "n = length (events s) - unseen d"
  have n: "n < length (events s)" using assms(3,4) by (cases "events s") (auto simp: n_def)
  have seen: "events (seen_events E d s) = take n (events s)" using assms(2) by (simp add: seen_events_def n_def)
  have "sorted_wrt (<) (map evt_sequence (take n (events s)))"
    using assms(5) by (simp add: take_map [symmetric] sorted_wrt_take)
  then have l: "latest_event (seen_events E d s) = (if n = 0 then None else Some (events s ! (n - 1)))"
    using latest_event_sorted [of "seen_events E d s"] n assms(4) by (auto simp: seen last_conv_nth)
  have h: "chain_head evt_hash GENESIS_HASH (events s) = map evt_hash (events s) ! (length (events s) - 1)"
    using assms(4) by (simp add: chain_head_def last_conv_nth nth_map)
  have p: "evt_previous_hash e = (if n = 0 then GENESIS_HASH else map evt_hash (events s) ! (n - 1))"
    using assms(1) by (rule append_event_elim) (use l n in auto)
  show ?thesis
  proof (cases "n = 0")
    case True
    with p h assms(4,7) show ?thesis by (auto simp: image_iff)
  next
    case False
    with n have "n - 1 < length (events s)" "length (events s) - 1 < length (events s)" "n - 1 \<noteq> length (events s) - 1"
      by auto
    with p h False assms(6) show ?thesis by (simp add: nth_eq_iff_index_eq del: nth_map)
  qed
qed

lemma check_events_break:
  "event_chain E g es \<Longrightarrow> evt_previous_hash e \<noteq> chain_head evt_hash g es \<Longrightarrow>
     check_events E g (es @ e # fs) = Inl (evt_sequence e)"
  by (induction es arbitrary: g) auto

text \<open>C14: An append that reads a stale head breaks the chain for good.  Where appends are not serialised,
  as under PostgreSQL's READ COMMITTED, take a transaction that appends an event in a reachable state
  whose chain still verifies, but whose read of the latest event was done before the newest one was
  committed.  Then the chain is broken from that moment on: in every later state of the platform,
  whatever is appended after it, the verification fails and reports that event as the first broken
  one.\<close>

theorem stale_append_breaks_chain:
  assumes "reach (step E) start p" "av_valid (verify_chain E (store p))" "events (store p) \<noteq> []"
    and "GENESIS_HASH \<notin> evt_hash ` set (events (store p))"
    and "\<not> serial_appends E" "0 < unseen d"
    and "append_event E d i ty aid et actor corr payload s = Inr (e, s1)" "events s = events (store p)"
    and "step E p q" "events (store q) = events s1" "reach (step E) q t"
  shows "\<not> av_valid (verify_chain E (store t)) \<and>
    av_broken_sequence (verify_chain E (store t)) = Some (evt_sequence e)"
proof -
  have t: "reach (step E) start t" using assms(1,9,11) by (blast intro: reach_step reach_trans)
  have srt: "sorted_wrt (<) (map evt_sequence (events (store r)))" if "reach (step E) start r" for r
    using sys_chain.always [OF that] by (simp add: audit_ok_def start_def empty_db_def)
  have "keys_ok (store p)" using sys_keys.always [OF assms(1)] by (simp add: start_def)
  then have "evt_previous_hash e \<noteq> chain_head evt_hash GENESIS_HASH (events (store p))"
    using unseen_predecessor [OF assms(7,5,6)] srt [OF assms(1)] assms(3,4,8) by (simp add: keys_ok_def)
  moreover have "event_chain E GENESIS_HASH (events (store p))"
    using assms(2) srt [OF assms(1)] by (simp add: verify_chain_valid sort_key_sorted)
  moreover have "events (store q) = events (store p) @ [e]"
    using append_event_frame(9) [OF assms(7)] assms(8,10) by simp
  then obtain fs where fs: "events (store t) = events (store p) @ e # fs"
    using sys_kept.always [OF assms(11) retains_refl] by (auto simp: retains_def prefix_def)
  ultimately have "check_events E GENESIS_HASH (history (store t)) = Inl (evt_sequence e)"
    unfolding sort_key_sorted [OF srt [OF t]] unfolding fs by (intro check_events_break)
  then show ?thesis by (simp add: verify_chain_def Let_def)
qed

text \<open>A backend without serialised appends, and two registrations, the second of which reads before the
  first is committed.\<close>

definition E1 :: env where
  "E1 = E0\<lparr>serial_appends := False\<rparr>"

lemma E1_simps [simp]: "serial_appends E1 = False" "strict_widths E1 = False"
  "calculate_event_hash E1 e = calculate_event_hash E0 e"
  by (simp_all add: E1_def calculate_event_hash_def sha256_json_def)

definition late :: draws where
  "late = (D 2)\<lparr>unseen := 1\<rparr>"

definition second_asset :: asset_create where
  "second_asset = asset_cmd\<lparr>ac_external_id := ''RECOVERY-BATTERY-002''\<rparr>"

lemma append_E1:
  assumes "log_ok (events s)" "uuid d i \<notin> evt_id ` set (events s)"
  shows "\<exists>e. append_event E1 d i ty aid et actor corr payload s = Inr (e, s\<lparr>events := events s @ [e]\<rparr>) \<and>
    evt_hash e = calculate_event_hash E0 e \<and> evt_id e = uuid d i"
proof -
  have "calculate_event_hash E0 f \<notin> evt_hash ` set (events s)" if "evt_id f = uuid d i" for f
    using assms that E0_hash [of f] by (auto simp: log_ok_def image_iff)
  moreover have "next_sequence s q \<notin> evt_sequence ` set (events s)" for q
    using next_sequence_greater [of _ s q] by force
  ultimately obtain e s' where a: "append_event E1 d i ty aid et actor corr payload s = Inr (e, s')"
    using assms(2) by (simp add: append_event_def append_after_def Let_def insert_event_def constrained_def)
  then show ?thesis by (rule append_event_elim) (use a in auto)
qed

lemma registered_E1:
  assumes "log_ok (events s)" "uuid d 2 \<notin> evt_id ` set (events s)" "uuid d 0 \<notin> ast_id ` set (assets s)"
    and "ac_external_id c \<notin> ast_external_id ` set (assets s)" "ac_owner_id c = actor_id owner" "validate_asset c = Inr c"
  obtains x e s0 s' payload where "serve E1 d owner (RegisterAsset c) s = (Reply 201 (AssetRes x), s')"
    "append_event E1 d 2 ''asset'' (uuid d 0) ''asset.registered'' (actor_id owner) (uuid d 1) payload s0 = Inr (e, s')"
    "events s0 = events s" "events s' = events s @ [e]" "evt_id e = uuid d 2" "evt_hash e = calculate_event_hash E0 e"
    "assets s' = assets s @ [store_asset x]" "ast_id x = uuid d 0" "ast_external_id x = ac_external_id c"
proof -
  define x where "x = \<lparr>ast_id = uuid d 0, ast_external_id = ac_external_id c, ast_owner_id = ac_owner_id c,
    ast_type = ac_asset_type c, ast_capacity_kw = ac_capacity_kw c, ast_location_code = ac_location_code c,
    ast_status = ACTIVE, ast_created_at = now d 0\<rparr>"
  define s0 where "s0 = s\<lparr>assets := assets s @ [store_asset x]\<rparr>"
  define payload where "payload = PDict [(''external_id'', PStr (ast_external_id x)),
    (''asset_type'', PStr (asset_type_value (ast_type x))), (''capacity_kw'', PDec (ast_capacity_kw x)),
    (''location_code'', PStr (ast_location_code x))]"
  have i: "insert_asset E1 x s = Inr s0"
    using assms(3,4) by (simp add: insert_asset_def constrained_def s0_def x_def)
  obtain e where e: "append_event E1 d 2 ''asset'' (uuid d 0) ''asset.registered'' (actor_id owner) (uuid d 1) payload s0 =
      Inr (e, s0\<lparr>events := events s0 @ [e]\<rparr>)" "evt_hash e = calculate_event_hash E0 e" "evt_id e = uuid d 2"
    using append_E1 [of s0 d 2 "''asset''" "uuid d 0" "''asset.registered''" "actor_id owner" "uuid d 1" payload] assms(1,2)
    by (auto simp: s0_def)
  have "lookup ast_external_id (ac_external_id c) (assets s) = None" using assms(4) by (simp add: lookup_None)
  then have "register_asset_tx E1 d c owner s = Inr (x, s0\<lparr>events := events s0 @ [e]\<rparr>)"
    using i e(1) by (simp add: register_asset_tx_def Let_def x_def [symmetric] payload_def)
      (simp add: x_def)
  then have "serve E1 d owner (RegisterAsset c) s = (Reply 201 (AssetRes x), s0\<lparr>events := events s0 @ [e]\<rparr>)"
    using assms(5,6)
    by (simp add: with_valid_def render_def register_asset_def require_role_def transaction_def recovery_owner_def)
  then show thesis
    by (rule that [OF _ e(1)]) (use e in \<open>simp_all add: s0_def, simp_all add: x_def\<close>)
qed

theorem stale_append_breaks_chain_witness:
  "\<exists>q. reach (step E1) start q \<and> length (events (store q)) = 2 \<and>
     av_broken_sequence (verify_chain E1 (store q)) = Some (evt_sequence (last (events (store q))))"
proof -
  obtain x1 e1 s0 s1 payload where 1: "serve E1 (D 1) owner (RegisterAsset asset_cmd) empty_db = (Reply 201 (AssetRes x1), s1)"
      "append_event E1 (D 1) 2 ''asset'' (uuid (D 1) 0) ''asset.registered'' (actor_id owner) (uuid (D 1) 1) payload s0 = Inr (e1, s1)"
      "events s0 = []" "events s1 = [e1]" "evt_id e1 = uuid (D 1) 2" "evt_hash e1 = calculate_event_hash E0 e1"
      "assets s1 = [store_asset x1]" "ast_id x1 = uuid (D 1) 0" "ast_external_id x1 = ac_external_id asset_cmd"
    by (rule registered_E1 [OF _ _ _ _ _ valid_commands(1), of empty_db "D 1"])
      (simp_all add: empty_db_def, simp add: fixture_asset_def recovery_owner_def)
  have prev: "evt_previous_hash e1 = GENESIS_HASH"
    using 1(2) by (rule append_event_elim) (use 1(3) in \<open>simp add: latest_event_def seen_events_def\<close>)
  have valid: "av_valid (verify_chain E1 s1)" by (simp add: verify_chain_def 1 prev)
  have gen: "GENESIS_HASH \<notin> evt_hash ` set (events s1)"
    by (simp add: 1(4,6) calculate_event_hash_def sha256_json_def E0_def GENESIS_HASH_def canonical_json_def
        audit_hash_material_def join.simps)
  obtain x2 e2 t0 s2 payload where 2: "serve E1 late owner (RegisterAsset second_asset) s1 = (Reply 201 (AssetRes x2), s2)"
      "append_event E1 late 2 ''asset'' (uuid late 0) ''asset.registered'' (actor_id owner) (uuid late 1) payload t0 = Inr (e2, s2)"
      "events t0 = events s1" "events s2 = events s1 @ [e2]"
    by (rule registered_E1 [of s1 late second_asset])
      (use 1 in \<open>simp_all add: late_def D_def digit_def second_asset_def store_asset_def fixture_asset_def
        recovery_owner_def validate_asset_def text_field_def positive_field_def digits_18_6_def six_places_def
        dec_less_def dec_le_def dsig_at_def dsig_def zero_dec_def\<close>)
  have p: "reach (step E1) start (pf s1 [])" and q: "step E1 (pf s1 []) (pf s2 [])"
    unfolding start_pf using serve_step [OF 1(1)] serve_step [OF 2(1)] by (blast intro: reach_one)+
  have "av_broken_sequence (verify_chain E1 (store (pf s2 []))) = Some (evt_sequence e2)"
    by (rule stale_append_breaks_chain [OF p _ _ _ _ _ 2(2) _ q _ reach_refl, THEN conjunct2])
      (use 1 2 valid gen in \<open>simp_all add: late_def\<close>)
  moreover have "reach (step E1) start (pf s2 [])" using p q by (rule reach_step)
  moreover have "length (events (store (pf s2 []))) = 2" using 1(4) 2(4) by simp
  moreover have "last (events (store (pf s2 []))) = e2" using 2(4) by simp
  ultimately show ?thesis by metis
qed

end
