(* ===== verification/Leases.thy ===== *)
theory Leases
  imports Platform
begin

text \<open>
  Who holds a message.  A lock is written by the claim under its token and only cleared by every
  other operation, so along a run in which the token is not drawn again a message that is still
  locked under it is the very row the claim left.  From this follows when a claim returns a
  message that is in work, and that the lock fences off the worker that lost it.
\<close>

section \<open>What an operation does to a lock\<close>

definition locked_kept :: "string \<Rightarrow> db \<Rightarrow> db \<Rightarrow> bool" where
  "locked_kept tok s s' \<longleftrightarrow>
     (\<forall>m\<in>set (messages s'). msg_locked_by m = Some tok \<longrightarrow> m \<in> set (messages s))"

lemma locked_kept_refl [simp]: "locked_kept tok s s"
  by (simp add: locked_kept_def)

lemma locked_kept_trans: "locked_kept tok a b \<Longrightarrow> locked_kept tok b c \<Longrightarrow> locked_kept tok a c"
  by (auto simp: locked_kept_def)

lemma locked_kept_same: "messages s' = messages s \<Longrightarrow> locked_kept tok s s'"
  by (simp add: locked_kept_def)

lemma locked_kept_modify:
  "messages s' = modify msg_id k f (messages s) \<Longrightarrow> (\<And>m. msg_locked_by (f m) \<noteq> Some tok) \<Longrightarrow> locked_kept tok s s'"
  by (auto simp: locked_kept_def in_modify split: if_splits)

lemma locked_simple:
  "register_asset E d c a s = (Inr x1, s') \<Longrightarrow> locked_kept tok s s'"
  "create_offer E d c2 a s = (Inr x2, s') \<Longrightarrow> locked_kept tok s s'"
  "record_meter_reading E d c5 a s = (Inr x5, s') \<Longrightarrow> locked_kept tok s s'"
  by (erule register_asset_elim create_offer_elim reading_elim; simp add: locked_kept_same)+

lemma locked_reserve:
  assumes "reserve_offer E d i c a key s = (Inr x, s')"
  shows "locked_kept tok s s'"
proof (cases "idem_lookup ''reserve_offer'' key s")
  case None
  from assms None show ?thesis by (rule reserve_offer_fresh) (simp add: locked_kept_same)
next
  case (Some y)
  with reserve_offer_replay [OF Some assms] show ?thesis by simp
qed

lemma locked_issue:
  assumes "issue_dispatch E d i c a key s = (Inr x, s')"
  shows "locked_kept tok s s'"
proof (cases "idem_lookup ''issue_dispatch'' key s")
  case None
  from assms None show ?thesis by (rule issue_dispatch_fresh) (simp add: locked_kept_def new_message_def)
next
  case (Some y)
  with issue_dispatch_replay [OF Some assms] show ?thesis by simp
qed

lemma locked_settle:
  assumes "settle_reservation E d i a key s = (Inr x, s')"
  shows "locked_kept tok s s'"
proof (cases "idem_lookup ''settle_reservation'' key s")
  case None
  from assms None show ?thesis by (rule settle_reservation_fresh) (simp add: locked_kept_same)
next
  case (Some y)
  with settle_reservation_replay [OF Some assms] show ?thesis by simp
qed

lemma locked_result:
  assumes "atomic_operation run" "\<And>x s'. run s = (Inr x, s') \<Longrightarrow> locked_kept tok s s'"
  shows "locked_kept tok s (snd (run s))"
proof (cases "run s")
  case (Pair r s')
  then show ?thesis using assms(2) [of _ s'] atomic_operation.undone [OF assms(1), of s _ s'] by (cases r) auto
qed

lemma locked_serve: "locked_kept tok s (snd (serve E d a req s))"
  by (cases req)
    (auto simp: with_valid_def with_key_def render_def split: sum.split option.split
      intro!: locked_result [OF at_asset.atomic_operation_axioms] locked_result [OF at_offer.atomic_operation_axioms]
        locked_result [OF at_reserve.atomic_operation_axioms] locked_result [OF at_dispatch.atomic_operation_axioms]
        locked_result [OF at_reading.atomic_operation_axioms] locked_result [OF at_settle.atomic_operation_axioms]
      intro: locked_simple locked_reserve locked_issue locked_settle)

lemma locked_claim:
  "claim_one E w d s = (Inr (Some c), s') \<Longrightarrow> clm_token c \<noteq> tok \<Longrightarrow> locked_kept tok s s'"
  by (erule claim_one_elim, rule locked_kept_modify) (auto simp: mark_claimed_def)

lemma locked_success:
  assumes "record_success E w d c ref s = (Inr b, s')"
  shows "locked_kept tok s s'"
proof (cases b)
  case True
  with assms have "record_success E w d c ref s = (Inr True, s')" by simp
  then show ?thesis
    by (rule record_success_elim) (rule locked_kept_modify, simp, simp add: mark_published_def)
qed (use assms record_success_False in force)

lemma locked_failure:
  assumes "record_failure E w d c exc s = (Inr b, s')"
  shows "locked_kept tok s s'"
proof (cases "b \<or> current c s")
  case True
  show ?thesis
  proof (cases b)
    case True
    with assms have "record_failure E w d c exc s = (Inr True, s')" by simp
    then show ?thesis by (rule record_failure_dead) (erule locked_kept_modify, simp add: mark_dead_def)
  next
    case False
    with assms \<open>b \<or> current c s\<close> have "record_failure E w d c exc s = (Inr False, s')" "current c s" by auto
    then show ?thesis
      by (rule record_failure_retry) (rule locked_kept_modify, simp, simp add: mark_retry_def)
  qed
next
  case False
  with assms record_stale(2) [of c s E w d exc] show ?thesis by simp
qed

lemma locked_redrive: "authorize_redrive E d a mid did reason s = (Inr x, s') \<Longrightarrow> locked_kept tok s s'"
  by (erule authorize_redrive_elim, rule locked_kept_modify) (auto simp: rearm_def)

section \<open>Runs in which a token is not drawn again\<close>

definition takes :: "string \<Rightarrow> platform \<Rightarrow> platform \<Rightarrow> bool" where
  "takes tok p q \<longleftrightarrow> (\<exists>c. claims q = c # claims p \<and> clm_token c = tok)"

definition step_without :: "env \<Rightarrow> string \<Rightarrow> platform \<Rightarrow> platform \<Rightarrow> bool" where
  "step_without E tok p q \<longleftrightarrow> step E p q \<and> \<not> takes tok p q"

lemma locked_step:
  assumes "step_without E tok p q"
  shows "locked_kept tok (store p) (store q)"
proof -
  from assms have s: "step E p q" and t: "\<not> takes tok p q" by (simp_all add: step_without_def)
  from s show ?thesis
  proof (cases rule: step.cases)
    case (Serve d a req resp s')
    then show ?thesis using locked_serve [of tok "store p" E d a req] by simp
  next
    case (Redrive d a mid did reason r s')
    then show ?thesis by (cases r) (auto dest: authorize_redrive_Inl intro: locked_redrive)
  next
    case (Claim w d c s')
    then show ?thesis using t by (auto simp: takes_def intro: locked_claim)
  next
    case (Published c w d reference r s')
    then show ?thesis by (cases r) (auto dest: at_success.undone intro: locked_success)
  next
    case (Failed c w d exc r s')
    then show ?thesis by (cases r) (auto dest: at_failure.undone intro: locked_failure)
  next
    case (Crash c)
    then show ?thesis by simp
  qed
qed

interpretation locked: invariant "step_without E tok" "\<lambda>p. locked_kept tok old (store p)" for E tok old
  by unfold_locales (blast intro: locked_kept_trans locked_step)

lemma run_without: "reach (step_without E tok) p q \<Longrightarrow> reach (step E) p q"
  by (induction rule: reach.induct) (auto simp: step_without_def intro: reach.intros)

lemma still_locked:
  assumes "reach (step_without E tok) p q" "m \<in> set (messages (store q))" "msg_locked_by m = Some tok"
  shows "m \<in> set (messages (store p))"
  using locked.always [OF assms(1), of "store p"] assms(2,3) by (simp add: locked_kept_def)

section \<open>A claim and what follows it\<close>

interpretation sys_fits: invariant "step E" "\<lambda>p. fits_ok E (store p)" for E
  by (rule fits.platform_invariant)

lemma reach_fits: "reach (step E) start p \<Longrightarrow> fits_ok E (store p)"
  by (erule sys_fits.always) (simp add: fits_ok_def start_def empty_db_def)

lemma reach_keys: "reach (step E) start p \<Longrightarrow> keys_ok (store p)"
  by (erule sys_keys.always) (simp add: start_def)

lemma keys_unique_message:
  "keys_ok s \<Longrightarrow> m \<in> set (messages s) \<Longrightarrow> n \<in> set (messages s) \<Longrightarrow> msg_id m = msg_id n \<Longrightarrow> m = n"
  using keyed_unique [of msg_id "messages s" m n] by (simp add: keys_ok_def)

lemma current_lookup:
  "keys_ok s \<Longrightarrow> m \<in> set (messages s) \<Longrightarrow> msg_id m = clm_id c \<Longrightarrow> msg_locked_by m = Some (clm_token c) \<Longrightarrow> current c s"
  using lookup_in [of msg_id "messages s" m] by (simp add: current_def keys_ok_def)

lemma message_kept:
  assumes "retains s t" "lookup msg_id k (messages s) = Some m"
  shows "\<exists>x. lookup msg_id k (messages t) = Some x"
proof -
  have "prefix (map message_terms (messages s)) (map message_terms (messages t))"
    using assms(1) by (simp add: retains_def)
  then obtain x where "x \<in> set (messages t)" "message_terms x = message_terms m"
    using prefix_image lookup_Some [OF assms(2)] by metis
  then have "k \<in> msg_id ` set (messages t)" using lookup_Some [OF assms(2)] by (auto simp: message_terms_def)
  then show ?thesis using lookup_None [of msg_id k "messages t"] by (cases "lookup msg_id k (messages t)") auto
qed

lemma currentE:
  assumes "current c s"
  obtains m where "m \<in> set (messages s)" "msg_id m = clm_id c" "msg_locked_by m = Some (clm_token c)"
    "lookup msg_id (clm_id c) (messages s) = Some m"
  using assms by (auto simp: current_def split: option.splits dest: lookup_Some)

text \<open>The row of a claim that is still held, in any later state.\<close>

lemma held_row:
  assumes "reach (step E) start p" "claim_one E w d (store p) = (Inr (Some c), s')"
    and "reach (step_without E (clm_token c)) (p\<lparr>store := s', claims := c # claims p\<rparr>) q" "current c (store q)"
  obtains m0 where "m0 \<in> set (messages (store p))" "claimable (as_utc (now d 0)) m0" "msg_id m0 = clm_id c"
    "clm_attempts c = msg_attempts m0 + 1"
    "mark_claimed (as_utc (now d 0)) w (clm_token c) m0 \<in> set (messages (store q))"
proof -
  have k: "keys_ok s'" using reach_keys [OF assms(1)] keys.claim_one [OF assms(2)] by simp
  obtain m where m: "m \<in> set (messages (store q))" "msg_id m = clm_id c" "msg_locked_by m = Some (clm_token c)"
    using assms(4) by (rule currentE)
  then have m': "m \<in> set (messages s')" using still_locked [OF assms(3)] by simp
  obtain m0 where m0: "m0 \<in> set (messages (store p))" "claimable (as_utc (now d 0)) m0" "msg_id m0 = clm_id c"
      "clm_attempts c = msg_attempts m0 + 1"
      "s' = (store p)\<lparr>messages := modify msg_id (msg_id m0) (mark_claimed (as_utc (now d 0)) w (clm_token c)) (messages (store p))\<rparr>"
    using assms(2) by (rule claim_one_elim) simp
  have "mark_claimed (as_utc (now d 0)) w (clm_token c) m0 \<in> set (messages s')"
    unfolding m0(5) using modify_same [OF m0(1) refl] by simp
  then have "m = mark_claimed (as_utc (now d 0)) w (clm_token c) m0"
    by (rule keys_unique_message [OF k m']) (simp add: m m0 mark_claimed_def)
  with m(1) m0 show thesis by (intro that) auto
qed

text \<open>Where there is something due, a worker with a token that fits its column gets a message.\<close>

lemma claim_finds:
  assumes "fits_ok E s" "m \<in> set (messages s)" "claimable (as_utc (now d 0)) m"
    and "strict_widths E \<Longrightarrow> length (worker_id w @ '':'' @ uuid d 0) \<le> 100"
  shows "\<exists>c s'. claim_one E w d s = (Inr (Some c), s')"
proof -
  let ?t = "as_utc (now d 0)" and ?tok = "worker_id w @ '':'' @ uuid d 0"
  have "m \<in> set (sort_key claim_order (filter (claimable ?t) (messages s)))" using assms(2,3) by simp
  then obtain x rest where srt: "sort_key claim_order (filter (claimable ?t) (messages s)) = x # rest"
    by (cases "sort_key claim_order (filter (claimable ?t) (messages s))") auto
  have "message_fits y" if st: "strict_widths E" and y: "y \<in> set (modify msg_id (msg_id x) (mark_claimed ?t w ?tok) (messages s))" for y
  proof -
    obtain y0 where "y0 \<in> set (messages s)" "y = mark_claimed ?t w ?tok y0 \<or> y = y0"
      using y by (auto simp: in_modify split: if_splits)
    then show ?thesis
      using assms(1,4) st by (auto simp: fits_ok_def message_fits_def mark_claimed_def opt_fits_def)
  qed
  then have "\<exists>s'. update_message E (msg_id x) (mark_claimed ?t w ?tok) s = Inr s'"
    by (simp add: update_message_def Let_def list_all_iff)
  then show ?thesis by (auto simp: claim_one_def Let_def transaction_def srt)
qed

text \<open>A claim is current in the state it leaves, and lost once another one holds the message.\<close>

lemma claim_current:
  assumes "claim_one E w d s = (Inr (Some c), s')"
  shows "current c s'"
proof -
  obtain m where m: "m \<in> set (messages s)" "clm_id c = msg_id m"
      "clm_token c = worker_id w @ '':'' @ uuid d 0"
      "s' = s\<lparr>messages := modify msg_id (msg_id m)
        (mark_claimed (as_utc (now d 0)) w (worker_id w @ '':'' @ uuid d 0)) (messages s)\<rparr>"
    using assms by (rule claim_one_elim) simp
  then have "lookup msg_id (msg_id m) (messages s) \<noteq> None" by (auto simp: lookup_None)
  with m show ?thesis by (auto simp: current_def lookup_modify mark_claimed_def)
qed

lemma current_unique: "current c s \<Longrightarrow> current c' s \<Longrightarrow> clm_id c = clm_id c' \<Longrightarrow> clm_token c = clm_token c'"
  by (auto simp: current_def split: option.splits)

lemma lost_stays_lost:
  assumes "keys_ok (store p)" "\<not> current c (store p)" "reach (step_without E (clm_token c)) p q"
  shows "\<not> current c (store q)"
proof
  assume "current c (store q)"
  then obtain m where "m \<in> set (messages (store q))" "msg_id m = clm_id c" "msg_locked_by m = Some (clm_token c)"
    by (rule currentE)
  with still_locked [OF assms(3)] current_lookup [OF assms(1), of m c] assms(2) show False by simp
qed

text \<open>A failure that was read before the claim was lost is written all the same, and takes the message
  away from whoever holds it now.\<close>

lemma stale_failure_unlocks:
  assumes "fits_ok E s" "lookup msg_id (clm_id c) (messages seen) = Some m"
    and "msg_locked_by m = Some (clm_token c)" "msg_status m = PROCESSING" "msg_attempts m < max_attempts w"
    and "lookup msg_id (clm_id c) (messages s) = Some x"
  shows "\<exists>s'. record_failure_from E w d c exc seen s = (Inr False, s') \<and>
    (\<exists>n. lookup msg_id (clm_id c) (messages s') = Some n \<and> msg_status n = PENDING \<and> msg_locked_by n = None)"
proof -
  let ?f = "flush_message m (mark_retry (as_utc (now d 0)) (error_text exc) (retry_delay w (msg_attempts m)) m)"
  have f: "msg_id (?f y) = msg_id y" "msg_status (?f y) = PENDING" "msg_locked_by (?f y) = None"
      "message_fits y \<Longrightarrow> message_fits (?f y)" for y
    using assms(3,4) by (simp_all add: flush_message_def flushed_def mark_retry_def message_fits_def opt_fits_def)
  have "message_fits y" if st: "strict_widths E" and y: "y \<in> set (modify msg_id (msg_id m) ?f (messages s))" for y
  proof -
    obtain y0 where "y0 \<in> set (messages s)" "y = ?f y0 \<or> y = y0"
      using y by (auto simp: in_modify split: if_splits)
    then show ?thesis using assms(1) st f(4) by (auto simp: fits_ok_def)
  qed
  then have "update_message E (msg_id m) ?f s = Inr (s\<lparr>messages := modify msg_id (msg_id m) ?f (messages s)\<rparr>)"
    by (auto simp: update_message_def Let_def list_all_iff)
  then have "record_failure_from E w d c exc seen s = (Inr False, s\<lparr>messages := modify msg_id (msg_id m) ?f (messages s)\<rparr>)"
    using assms(2,3,5) by (simp add: record_failure_from_def transaction_def Let_def)
  moreover have "lookup msg_id (clm_id c) (modify msg_id (msg_id m) ?f (messages s)) = Some (?f x)"
    using assms(6) lookup_Some [OF assms(2)] by (simp add: lookup_modify f(1))
  ultimately show ?thesis
    using f(2,3) by (intro exI [of _ "s\<lparr>messages := modify msg_id (msg_id m) ?f (messages s)\<rparr>"] conjI exI [of _ "?f x"]) simp_all
qed

end
