(* ===== verification/Batches.thy ===== *)
theory Batches
  imports Scenario Leases
begin

text \<open>
  A batch of the worker as a run of the platform: \<open>run_once\<close> is claims and records, whatever the
  publisher does, its counters are exact when no other process intervenes; and the batch of the
  concrete run.
\<close>

section \<open>A batch is steps of the platform\<close>

lemma run_loop_reach:
  "run_loop E w publish ds k n acc s st = (r, s', st') \<Longrightarrow> reach (step E) (pf s cs) (pf s' cs)"
proof (induction n arbitrary: k acc s st)
  case (Suc n)
  obtain rc s1 where c: "claim_one E w (ds (2 * k)) s = (rc, s1)" by (cases "claim_one E w (ds (2 * k)) s")
  consider e where "rc = Inl e" | "rc = Inr None" | c where "rc = Inr (Some c)"
    by (cases rc) (auto simp: not_None_eq)
  then show ?case
  proof cases
    case (3 cl)
    have st1: "step E (pf s cs) (pf s1 (cl # cs))" using c 3 by (simp add: claim_step)
    obtain out p1 where o: "(case dispatch_signal (clm_payload cl) of Inl e \<Rightarrow> (Inl e, st)
        | Inr sg \<Rightarrow> publish sg (clm_idempotency_key cl) st) = (out, p1)" by fastforce
    show ?thesis
    proof (cases out)
      case (Inl exc)
      obtain rf s2 where f: "record_failure E w (ds (2 * k + 1)) cl exc s1 = (rf, s2)" by fastforce
      have st2: "step E (pf s1 (cl # cs)) (pf s2 cs)"
        using step.Failed [of cl "pf s1 (cl # cs)" E w _ exc rf s2] f by (auto simp: pf_def)
      have "s' = s2 \<or> (\<exists>acc'. run_loop E w publish ds (Suc k) n acc' s2 p1 = (r, s', st'))"
        using Suc.prems o f by (cases rf) (auto simp: c 3 Inl Let_def)
      then have "reach (step E) (pf s2 cs) (pf s' cs)" by (elim disjE exE) (simp add: reach_refl, erule Suc.IH)
      then show ?thesis by (rule reach_trans) (rule reach_step [OF reach_one [OF st1] st2])
    next
      case (Inr ref)
      obtain rf s2 where f: "record_success E w (ds (2 * k + 1)) cl ref s1 = (rf, s2)" by fastforce
      have st2: "step E (pf s1 (cl # cs)) (pf s2 cs)"
        using step.Published [of cl "pf s1 (cl # cs)" E w _ ref rf s2] f by (auto simp: pf_def)
      have "s' = s2 \<or> (\<exists>acc'. run_loop E w publish ds (Suc k) n acc' s2 p1 = (r, s', st'))"
        using Suc.prems o f by (cases rf) (auto simp: c 3 Inr Let_def)
      then have "reach (step E) (pf s2 cs) (pf s' cs)" by (elim disjE exE) (simp add: reach_refl, erule Suc.IH)
      then show ?thesis by (rule reach_trans) (rule reach_step [OF reach_one [OF st1] st2])
    qed
  qed (use Suc.prems c in \<open>auto simp: Let_def claim_one_None dest!: claim_one_error intro: reach_refl\<close>)
qed (simp add: reach_refl)

text \<open>What the record of a claim that is still held counts, and the event it leaves.\<close>

abbreviation count_events :: "string \<Rightarrow> audit_event list \<Rightarrow> nat" where
  "count_events ty es \<equiv> length (filter (\<lambda>e. evt_type e = ty) es)"

lemma success_counts:
  assumes "record_success E w d c reference s = (Inr b, s')" "current c s"
  shows "b \<and> (\<exists>e. events s' = events s @ [e] \<and> evt_type e = ''dispatch.published'')"
proof -
  have b: "b" using assms record_success_False by (cases b) auto
  with assms(1) have "record_success E w d c reference s = (Inr True, s')" by simp
  then have "\<exists>e. events s' = events s @ [e] \<and> evt_type e = ''dispatch.published''"
    by (rule record_success_elim) simp
  with b show ?thesis by simp
qed

lemma failure_counts:
  assumes "record_failure E w d c exc s = (Inr b, s')" "current c s"
    and "lookup dsp_id (clm_aggregate_id c) (dispatches s) = Some dsp"
  shows "\<exists>es. events s' = events s @ es \<and> count_events ''dispatch.published'' es = 0 \<and>
    count_events ''dispatch.delivery_failed'' es = (if b then 1 else 0)"
proof (cases b)
  case True
  with assms(1) have "record_failure E w d c exc s = (Inr True, s')" by simp
  then show ?thesis
  proof (rule record_failure_dead, goal_cases)
    case (1 m)
    from 1(5) [OF assms(3)] obtain e where "events s' = events s @ [e]" "evt_type e = ''dispatch.delivery_failed''"
      by auto
    with True show ?case by (intro exI [of _ "[e]"]) simp
  qed
next
  case False
  with assms(1) have "record_failure E w d c exc s = (Inr False, s')" by simp
  then show ?thesis using assms(2) by (rule record_failure_retry) (simp add: False)
qed

lemma claimed_dispatch:
  assumes "sound E (pf s (c # cs))" "current c s"
  shows "\<exists>dsp. lookup dsp_id (clm_aggregate_id c) (dispatches s) = Some dsp"
proof -
  have ok: "lifecycle_ok s" "keys_ok s" "refs_ok s" "claim_ok s c"
    using assms(1) claim_held_ok by (auto simp: sound_def sound_db_def pf_def)
  obtain m where m: "m \<in> set (messages s)" "msg_id m = clm_id c" using assms(2) by (rule currentE)
  with ok(4) have "msg_aggregate_id m = clm_aggregate_id c" by (simp add: claim_ok_def)
  with message_dispatch [OF ok(1,3) m(1)] show ?thesis by metis
qed

text \<open>
  The counters and the last look of a batch: every attempt is counted once, under the outcome that
  its event shows, and a batch that ends before its limit was told that nothing is due.
\<close>

lemma run_loop_exact:
  "run_loop E w publish ds k n acc s st = (Inr r, s', st') \<Longrightarrow> sound E (pf s cs) \<Longrightarrow>
     rr_attempted acc \<le> rr_attempted r \<and> rr_attempted r \<le> rr_attempted acc + n \<and>
     rr_attempted r + (rr_published acc + rr_retried acc + rr_dead acc) =
       rr_attempted acc + (rr_published r + rr_retried r + rr_dead r) \<and>
     (\<exists>es. events s' = events s @ es \<and>
        rr_published r = rr_published acc + count_events ''dispatch.published'' es \<and>
        rr_dead r = rr_dead acc + count_events ''dispatch.delivery_failed'' es) \<and>
     (rr_attempted r = rr_attempted acc + n \<or>
      (\<forall>m\<in>set (messages s'). \<not> claimable (as_utc (now (ds (2 * (k + (rr_attempted r - rr_attempted acc)))) 0)) m))"
proof (induction n arbitrary: k acc s st)
  case (Suc n)
  let ?acc = "acc\<lparr>rr_attempted := rr_attempted acc + 1\<rparr>"
  obtain rc s1 where c: "claim_one E w (ds (2 * k)) s = (rc, s1)" by (cases "claim_one E w (ds (2 * k)) s")
  consider e where "rc = Inl e" | "rc = Inr None" | cl where "rc = Inr (Some cl)"
    by (cases rc) (auto simp: not_None_eq)
  then show ?case
  proof cases
    case (3 cl)
    have st1: "step E (pf s cs) (pf s1 (cl # cs))" using c 3 by (simp add: claim_step)
    have s1: "sound E (pf s1 (cl # cs))" using sys.preserved [OF st1 Suc.prems(2)] .
    have cur: "current cl s1" using claim_current c 3 by blast
    obtain dsp where dsp: "lookup dsp_id (clm_aggregate_id cl) (dispatches s1) = Some dsp"
      using claimed_dispatch [OF s1 cur] by blast
    have ev: "events s1 = events s" using c 3 by (auto elim: claim_one_elim)
    obtain out p1 where o: "(case dispatch_signal (clm_payload cl) of Inl e \<Rightarrow> (Inl e, st)
        | Inr sg \<Rightarrow> publish sg (clm_idempotency_key cl) st) = (out, p1)" by fastforce
    show ?thesis
    proof (cases out)
      case (Inl exc)
      obtain rf s2 where f: "record_failure E w (ds (2 * k + 1)) cl exc s1 = (rf, s2)" by fastforce
      have "step E (pf s1 (cl # cs)) (pf s2 cs)"
        using step.Failed [of cl "pf s1 (cl # cs)" E w _ exc rf s2] f by (auto simp: pf_def)
      then have s2: "sound E (pf s2 cs)" using sys.preserved s1 by blast
      from Suc.prems(1) o f obtain b where rf: "rf = Inr b" by (cases rf) (simp_all add: c 3 Inl Let_def)
      have loop: "run_loop E w publish ds (Suc k) n (if b then ?acc\<lparr>rr_dead := rr_dead ?acc + 1\<rparr>
             else ?acc\<lparr>rr_retried := rr_retried ?acc + 1\<rparr>) s2 p1 = (Inr r, s', st')"
        using Suc.prems(1) o f rf by (cases b) (simp_all add: c 3 Inl Let_def)
      obtain es where es: "events s2 = events s1 @ es" "count_events ''dispatch.published'' es = 0"
          "count_events ''dispatch.delivery_failed'' es = (if b then 1 else 0)"
        using failure_counts [OF f [unfolded rf] cur dsp] by blast
      let ?b = "if b then ?acc\<lparr>rr_dead := rr_dead ?acc + 1\<rparr> else ?acc\<lparr>rr_retried := rr_retried ?acc + 1\<rparr>"
      have ra: "rr_attempted ?b = rr_attempted acc + 1" by simp
      note ih = Suc.IH [OF loop s2, unfolded ra]
      then have "rr_attempted acc + 1 \<le> rr_attempted r" by blast
      then have "Suc k + (rr_attempted r - (rr_attempted acc + 1)) = k + (rr_attempted r - rr_attempted acc)" by linarith
      note ih = ih [unfolded this]
      from ih obtain ys where "events s' = events s2 @ ys"
          "rr_published r = rr_published ?b + count_events ''dispatch.published'' ys"
          "rr_dead r = rr_dead ?b + count_events ''dispatch.delivery_failed'' ys" by blast
      with es ev have "\<exists>es. events s' = events s @ es \<and>
          rr_published r = rr_published acc + count_events ''dispatch.published'' es \<and>
          rr_dead r = rr_dead acc + count_events ''dispatch.delivery_failed'' es"
        by (intro exI [of _ "es @ ys"]) simp
      moreover have "rr_published ?b + rr_retried ?b + rr_dead ?b = rr_published acc + rr_retried acc + rr_dead acc + 1"
        by simp
      ultimately show ?thesis using ih by (elim conjE) (intro conjI; linarith?)
    next
      case (Inr ref)
      obtain rf s2 where f: "record_success E w (ds (2 * k + 1)) cl ref s1 = (rf, s2)" by fastforce
      have "step E (pf s1 (cl # cs)) (pf s2 cs)"
        using step.Published [of cl "pf s1 (cl # cs)" E w _ ref rf s2] f by (auto simp: pf_def)
      then have s2: "sound E (pf s2 cs)" using sys.preserved s1 by blast
      from Suc.prems(1) o f obtain b where rf: "rf = Inr b" by (cases rf) (simp_all add: c 3 Inr Let_def)
      have loop: "run_loop E w publish ds (Suc k) n (if b then ?acc\<lparr>rr_published := rr_published ?acc + 1\<rparr> else ?acc)
             s2 p1 = (Inr r, s', st')"
        using Suc.prems(1) o f rf by (cases b) (simp_all add: c 3 Inr Let_def)
      obtain e where e: "b" "events s2 = events s1 @ [e]" "evt_type e = ''dispatch.published''"
        using success_counts [OF f [unfolded rf] cur] by blast
      have ra: "rr_attempted (if b then ?acc\<lparr>rr_published := rr_published ?acc + 1\<rparr> else ?acc) = rr_attempted acc + 1"
        by simp
      note ih = Suc.IH [OF loop s2, unfolded ra]
      then have "rr_attempted acc + 1 \<le> rr_attempted r" by blast
      then have "Suc k + (rr_attempted r - (rr_attempted acc + 1)) = k + (rr_attempted r - rr_attempted acc)" by linarith
      note ih = ih [unfolded this]
      from ih e(1) obtain ys where "events s' = events s2 @ ys"
          "rr_published r = rr_published acc + 1 + count_events ''dispatch.published'' ys"
          "rr_dead r = rr_dead acc + count_events ''dispatch.delivery_failed'' ys" by auto
      with e ev have "\<exists>es. events s' = events s @ es \<and>
          rr_published r = rr_published acc + count_events ''dispatch.published'' es \<and>
          rr_dead r = rr_dead acc + count_events ''dispatch.delivery_failed'' es"
        by (intro exI [of _ "e # ys"]) simp
      with ih e(1) show ?thesis by (elim conjE) (intro conjI; simp)
    qed
  qed (use Suc.prems c in \<open>auto simp: Let_def claim_one_None\<close>)
qed simp

lemma run_once_reach:
  assumes "run_once E w publish ds limit (store p) st = (r, s', st')"
  shows "reach (step E) p (p\<lparr>store := s'\<rparr>)"
proof -
  have p: "p = pf (store p) (claims p)" "p\<lparr>store := s'\<rparr> = pf s' (claims p)"
    by (cases p; simp add: pf_def)+
  have "reach (step E) (pf (store p) (claims p)) (pf s' (claims p))"
    using assms run_loop_reach by (auto simp: run_once_def intro: reach_refl split: if_splits)
  then show ?thesis using p by metis
qed

section \<open>The batch of the concrete run\<close>

lemma signal_m1: "dispatch_signal (dispatch_payload sg1) = Inr (plain_signal sg1)"
  by (rule dispatch_signal_payload)
    (simp add: signal_ok_def sg1_def dt_ok_def as_utc_def fixture_window clock_at_def SECOND_def DAY_def)

lemma batch_run:
  assumes "log_ok es" "evt_id ` set es = ids4" "ds 0 = D 5" "ds 1 = D 6" "2 \<le> limit"
  shows "\<exists>es'. run_once E0 w1 noop_publish ds limit (S4 es) () =
    (Inr \<lparr>rr_attempted = 1, rr_published = 1, rr_retried = 0, rr_dead = 0\<rparr>, S6 es', ()) \<and>
    log_ok es' \<and> evt_id ` set es' = ids6"
proof -
  obtain es' where 6: "record_success E0 w1 (D 6) c1 ''noop:40'' (S5 es) = (Inr True, S6 es')"
      "log_ok es'" "evt_id ` set es' = ids6"
    using run6 [OF assms(1,2)] by blast
  have none: "claim_one E0 w1 d (S6 es') = (Inr None, S6 es')" for d
    unfolding claim_one_None by (simp add: S6_def m3_def mark_published_def claimable_def)
  obtain n where n: "nat limit = Suc (Suc n)"
    using assms(5) by (intro that [of "nat limit - 2"]) simp
  have "run_loop E0 w1 noop_publish ds 0 (nat limit) no_run (S4 es) () =
      (Inr \<lparr>rr_attempted = 1, rr_published = 1, rr_retried = 0, rr_dead = 0\<rparr>, S6 es', ())"
    using 6(1) assms(3,4)
    by (simp add: n none run5 c1_def signal_m1 noop_publish_def blank_iff is_space_def
        plain_signal_def no_run_def) (simp add: none Let_def sg1_def D_def digit_def)
  then show ?thesis using assms(5) 6(2,3) by (auto simp: run_once_def)
qed

end
