(* ===== verification/PropertiesOutbox.thy ===== *)
theory PropertiesOutbox
  imports Batches
begin

text \<open>
  The properties of the outbox worker taken alone: which message a claim takes, how long it is
  exclusive, what a lost claim can still do, how failures back off and give up, what a batch
  reports, and what reaches an adapter.
\<close>

section \<open>Claims\<close>

text \<open>C15: A claim takes the oldest message that is due.  The message is pending and due, or in work
  under an expired lease, and no claimable message comes before it in the order of the query; the
  claim carries its terms and one more attempt, and nothing of the database changes but that
  message.\<close>

theorem claim_takes_oldest_due:
  assumes "claim_one E w d s = (Inr (Some c), s')"
  shows "\<exists>m\<in>set (messages s). claimable (as_utc (now d 0)) m \<and>
     (\<forall>x\<in>set (messages s). claimable (as_utc (now d 0)) x \<longrightarrow> claim_order m \<le> claim_order x) \<and>
     clm_id c = msg_id m \<and> clm_payload c = msg_payload m \<and>
     clm_idempotency_key c = msg_idempotency_key m \<and> clm_attempts c = msg_attempts m + 1 \<and>
     s' = s\<lparr>messages := map (\<lambda>x. if msg_id x = msg_id m
        then mark_claimed (as_utc (now d 0)) w (clm_token c) x else x) (messages s)\<rparr>"
  using assms by (rule claim_one_elim) (auto simp: modify_def)

theorem claim_takes_oldest_due_witness:
  "\<exists>m\<in>set (messages (S4 [])). clm_id c1 = msg_id m \<and> clm_attempts c1 = msg_attempts m + 1"
  using claim_takes_oldest_due [OF run5 [of "[]"]] by blast

text \<open>Ten seconds after the claim, while its lease lasts.\<close>

definition soon :: draws where
  "soon = (D 6)\<lparr>now := (\<lambda>i. clock_at 310)\<rparr>"

lemma expired_at_six: "\<exists>c s. claim_one E0 w1 (D 6) (S5 es) = (Inr (Some c), s) \<and> clm_id c = clm_id c1 \<and>
    clm_token c1 \<noteq> clm_token c"
  by (simp add: claim_one_def run_simps data_simps S4_def S5_def c1_def drill_worker_def default_worker_def m1_def m2_def
      new_message_def claimable_def update_message_def mark_claimed_def dt_le_def instant_def
      clock_at_def as_utc_def SECOND_def plus_seconds_def sg1_def eval_simps empty_db_def)

lemma held_is_exclusive:
  assumes "keys_ok s" "mark_claimed (as_utc (now d 0)) w tok m0 \<in> set (messages s)"
    and "claim_one E w' d' s = (Inr (Some c'), s')"
    and "instant (now d' 0) < instant (now d 0) + lease_seconds w * SECOND"
  shows "clm_id c' \<noteq> msg_id m0"
proof
  assume same: "clm_id c' = msg_id m0"
  obtain x where x: "x \<in> set (messages s)" "claimable (as_utc (now d' 0)) x" "clm_id c' = msg_id x"
    using assms(3) by (rule claim_one_elim) simp
  have "x = mark_claimed (as_utc (now d 0)) w tok m0"
    by (rule keys_unique_message [OF assms(1) x(1) assms(2)]) (use x(3) same in \<open>simp add: mark_claimed_def\<close>)
  with x(2) assms(4) show False by (simp add: claimable_def mark_claimed_def dt_le_def)
qed

lemma expired_is_claimable:
  assumes "claimable (as_utc (now d 0)) m0" "0 \<le> lease_seconds w"
    and "instant (now d 0) + lease_seconds w * SECOND \<le> instant (now d' 0)"
  shows "claimable (as_utc (now d' 0)) (mark_claimed (as_utc (now d 0)) w tok m0)"
  using assms by (auto simp: claimable_def mark_claimed_def dt_le_def SECOND_def)

lemma first_is_claimed:
  assumes "keys_ok s" "m \<in> set (messages s)" "claimable (as_utc (now d 0)) m"
    and "claim_one E w d s = (Inr (Some c), s')"
    and "\<forall>x\<in>set (messages s). claimable (as_utc (now d 0)) x \<longrightarrow> claim_order m \<le> claim_order x"
  shows "clm_id c = msg_id m \<and> clm_attempts c = msg_attempts m + 1"
proof -
  obtain x where x: "x \<in> set (messages s)" "claimable (as_utc (now d 0)) x" "clm_id c = msg_id x"
      "clm_attempts c = msg_attempts x + 1"
      "\<forall>y\<in>set (messages s). claimable (as_utc (now d 0)) y \<longrightarrow> claim_order x \<le> claim_order y"
    using assms(4) by (rule claim_one_elim) simp
  have "claim_order m = claim_order x"
    using assms(2,3,5) x(1,2,5) by (intro order_antisym) blast+
  then have "x = m" using assms(1,2) x(1) by (intro keys_unique_message [of s]) (simp_all add: claim_order_def)
  with x(3,4) show ?thesis by simp
qed

text \<open>C16: The lease decides who holds a message.  Take a claim in a reachable state and any later state
  in which its outcome is not recorded and the message still carries its lock; other requests, claims,
  records and crashes may have come in between.  While the lease lasts, no claim by any worker on any
  backend returns that message.  Once it has expired the work is not lost with its worker: the message
  is claimable again with the place it had in the queue, so a worker whose token fits its column gets
  a message, and gets this one as soon as no claimable message comes before it.  The attempts of the
  message are counted on, and \<open>max_attempts\<close> has no say: a message whose workers keep dying is
  handed out any number of times.\<close>

theorem lease_decides_claims:
  assumes "reach (step E) start p" "claim_one E w d (store p) = (Inr (Some c), s')"
    and "reach (step_without E (clm_token c)) (p\<lparr>store := s', claims := c # claims p\<rparr>) q" "current c (store q)"
    and "0 \<le> lease_seconds w"
  shows "if instant (now d' 0) < instant (now d 0) + lease_seconds w * SECOND
     then \<nexists>c' s''. claim_one E w' d' (store q) = (Inr (Some c'), s'') \<and> clm_id c' = clm_id c
     else \<exists>m0\<in>set (messages (store p)). \<exists>m\<in>set (messages (store q)).
       msg_id m0 = clm_id c \<and> msg_id m = clm_id c \<and> claim_order m = claim_order m0 \<and>
       claimable (as_utc (now d' 0)) m \<and>
       (length (worker_id w' @ '':'' @ uuid d' 0) \<le> 100 \<longrightarrow>
         (\<exists>c' s''. claim_one E w' d' (store q) = (Inr (Some c'), s'') \<and>
           ((\<forall>x\<in>set (messages (store q)). claimable (as_utc (now d' 0)) x \<longrightarrow> claim_order m \<le> claim_order x) \<longrightarrow>
              clm_id c' = clm_id c \<and> clm_attempts c' = clm_attempts c + 1)))"
proof -
  obtain m0 where m0: "m0 \<in> set (messages (store p))" "claimable (as_utc (now d 0)) m0" "msg_id m0 = clm_id c"
      "clm_attempts c = msg_attempts m0 + 1"
      "mark_claimed (as_utc (now d 0)) w (clm_token c) m0 \<in> set (messages (store q))"
    using assms(1-4) by (rule held_row)
  let ?m = "mark_claimed (as_utc (now d 0)) w (clm_token c) m0"
  have q: "reach (step E) start q"
    by (rule reach_trans [OF run_without [OF assms(3)] reach_step [OF assms(1) step.Claim [OF assms(2)]]])
  note ok = reach_keys [OF q] reach_fits [OF q]
  have m: "msg_id ?m = clm_id c" "claim_order ?m = claim_order m0" "msg_attempts ?m = clm_attempts c"
    using m0(3,4) by (simp_all add: mark_claimed_def claim_order_def)
  show ?thesis
  proof (cases "instant (now d' 0) < instant (now d 0) + lease_seconds w * SECOND")
    case True
    with held_is_exclusive [OF ok(1) m0(5)] m0(3) show ?thesis by auto
  next
    case False
    then have cl: "claimable (as_utc (now d' 0)) ?m"
      using m0(2) assms(5) by (intro expired_is_claimable) simp_all
    have "\<exists>c' s''. claim_one E w' d' (store q) = (Inr (Some c'), s'') \<and>
        ((\<forall>x\<in>set (messages (store q)). claimable (as_utc (now d' 0)) x \<longrightarrow> claim_order ?m \<le> claim_order x) \<longrightarrow>
           clm_id c' = clm_id c \<and> clm_attempts c' = clm_attempts c + 1)"
      if t: "length (worker_id w' @ '':'' @ uuid d' 0) \<le> 100"
    proof -
      obtain c' s'' where c': "claim_one E w' d' (store q) = (Inr (Some c'), s'')"
        using claim_finds [OF ok(2) m0(5) cl t] by blast
      from first_is_claimed [OF ok(1) m0(5) cl this] m(1,3) c' show ?thesis
        by (intro exI [of _ c'] exI [of _ s'']) simp
    qed
    with m0(1,3) m cl show ?thesis
      unfolding if_not_P [OF False] by (intro bexI [OF _ m0(1)] bexI [OF _ m0(5)]) simp
  qed
qed

text \<open>The state after the claim of the concrete run; its worker dies, and another one looks twice.\<close>

lemma held_at_five:
  obtains es where "reach (step E0) start (pf (S4 es) [])"
    "claim_one E0 w1 (D 5) (store (pf (S4 es) [])) = (Inr (Some c1), S5 es)" "current c1 (S5 es)"
proof -
  obtain es where "reach (step E0) start (pf (S4 es) [])" by (rule to_claimed)
  moreover have r: "claim_one E0 w1 (D 5) (S4 es) = (Inr (Some c1), S5 es)" by (rule run5)
  ultimately show thesis using claim_current [OF r] by (intro that) (auto simp: pf_def)
qed

theorem lease_decides_claims_witness:
  "\<exists>s. (\<nexists>c s'. claim_one E0 w1 soon s = (Inr (Some c), s') \<and> clm_id c = clm_id c1) \<and>
     (\<exists>c s'. claim_one E0 (w1\<lparr>max_attempts := 1\<rparr>) (D 6) s = (Inr (Some c), s') \<and> clm_id c = clm_id c1 \<and>
       clm_attempts c = 2)"
proof -
  obtain es where r: "reach (step E0) start (pf (S4 es) [])"
      "claim_one E0 w1 (D 5) (store (pf (S4 es) [])) = (Inr (Some c1), S5 es)" "current c1 (S5 es)"
    by (rule held_at_five)
  have w: "0 \<le> lease_seconds w1" by (simp add: drill_worker_def default_worker_def)
  have soon: "instant (now soon 0) < instant (now (D 5) 0) + lease_seconds w1 * SECOND"
    and late: "\<not> instant (now (D 6) 0) < instant (now (D 5) 0) + lease_seconds w1 * SECOND"
    by (simp_all add: instant_def soon_def D_def clock_at_def drill_worker_def default_worker_def SECOND_def)
  have q: "reach (step_without E0 (clm_token c1)) ((pf (S4 es) [])\<lparr>store := S5 es, claims := c1 # claims (pf (S4 es) [])\<rparr>)
      (pf (S5 es) [c1])" by (simp add: pf_def reach_refl)
  have cur: "current c1 (store (pf (S5 es) [c1]))" using r(3) by simp
  note main = lease_decides_claims [OF r(1,2) q cur w]
  have "\<nexists>c s'. claim_one E0 w1 soon (S5 es) = (Inr (Some c), s') \<and> clm_id c = clm_id c1"
    using main [of soon w1] soon by simp
  moreover have one: "messages (S5 es) = [m2]" by (simp add: S5_def S4_def empty_db_def)
  have "length (worker_id (w1\<lparr>max_attempts := 1\<rparr>) @ '':'' @ uuid (D 6) 0) \<le> 100" "clm_attempts c1 = 1"
    by (simp_all add: drill_worker_def default_worker_def D_def c1_def)
  with main [of "D 6" "w1\<lparr>max_attempts := 1\<rparr>", unfolded if_not_P [OF late]] one
  have "\<exists>c s'. claim_one E0 (w1\<lparr>max_attempts := 1\<rparr>) (D 6) (S5 es) = (Inr (Some c), s') \<and>
      clm_id c = clm_id c1 \<and> clm_attempts c = 2"
    by auto
  ultimately show ?thesis by blast
qed

text \<open>C17: A worker that lost its claim cannot record.  From the moment another claim has taken the message,
  in every later state, the outcome of the earlier claim, published or failed, is refused and changes
  nothing, as long as its token is not drawn again.  But the fence is only as strong as the read it
  rests on, which takes no lock: a failure whose rows were read just before the other claim was
  committed is written all the same, at any later time, puts the message back as pending and takes the
  lock off, so it is sent again, and the outcome of the worker that held it is refused.\<close>

theorem lost_claim_is_fenced:
  assumes "reach (step E) start p" "claim_one E w d (store p) = (Inr (Some c'), s')"
    and "clm_id c = clm_id c'" "clm_token c \<noteq> clm_token c'"
    and "reach (step_without E (clm_token c)) (p\<lparr>store := s', claims := c' # claims p\<rparr>) q"
  shows "record_success E v d' c reference (store q) = (Inr False, store q) \<and>
     record_failure E v d' c exc (store q) = (Inr False, store q) \<and>
     (\<forall>m. lookup msg_id (clm_id c) (messages (store p)) = Some m \<and> msg_locked_by m = Some (clm_token c) \<and>
        msg_attempts m < max_attempts v \<longrightarrow>
        (\<exists>s2 n. record_failure_from E v d' c exc (store p) (store q) = (Inr False, s2) \<and>
           lookup msg_id (clm_id c) (messages s2) = Some n \<and> msg_status n = PENDING \<and> msg_locked_by n = None \<and>
           record_success E w d'' c' reference s2 = (Inr False, s2)))"
proof -
  have p1: "reach (step E) start (p\<lparr>store := s', claims := c' # claims p\<rparr>)"
    by (rule reach_step [OF assms(1) step.Claim [OF assms(2)]])
  then have q: "reach (step E) start q" using run_without [OF assms(5)] by (blast intro: reach_trans)
  have "\<not> current c s'" using current_unique [of c s' c'] claim_current [OF assms(2)] assms(3,4) by blast
  then have lost: "\<not> current c (store q)"
    using lost_stays_lost [OF _ _ assms(5)] reach_keys [OF p1] by simp
  have race: "\<exists>s2 n. record_failure_from E v d' c exc (store p) (store q) = (Inr False, s2) \<and>
      lookup msg_id (clm_id c) (messages s2) = Some n \<and> msg_status n = PENDING \<and> msg_locked_by n = None \<and>
      record_success E w d'' c' reference s2 = (Inr False, s2)"
    if m: "lookup msg_id (clm_id c) (messages (store p)) = Some m" "msg_locked_by m = Some (clm_token c)"
      "msg_attempts m < max_attempts v" for m
  proof -
    have "lifecycle_ok (store p)" using sys.always [OF assms(1) sound_start] by (simp add: sound_def sound_db_def)
    then have st: "msg_status m = PROCESSING"
      using m(2) lookup_Some [OF m(1)] by (auto elim: lifecycle_message)
    have "retains (store p) (store q)"
      using retains_trans [OF step_retains [OF step.Claim [OF assms(2)]]]
        sys_kept.always [OF run_without [OF assms(5)] retains_refl] by simp
    then obtain x where "lookup msg_id (clm_id c) (messages (store q)) = Some x"
      using message_kept [OF _ m(1)] by blast
    from stale_failure_unlocks [OF reach_fits [OF q] m(1,2) st m(3) this]
    obtain s2 n where s2: "record_failure_from E v d' c exc (store p) (store q) = (Inr False, s2)"
        "lookup msg_id (clm_id c) (messages s2) = Some n" "msg_status n = PENDING" "msg_locked_by n = None" by blast
    then have "\<not> current c' s2" using assms(3) by (simp add: current_def)
    with s2 record_stale(1) show ?thesis by blast
  qed
  with record_stale [OF lost] show ?thesis by blast
qed

theorem lost_claim_is_fenced_witness:
  "\<exists>p s n. record_success E0 w1 (D 7) c1 ''noop:40'' s = (Inr False, s) \<and>
     record_failure E0 w1 (D 7) c1 outage s = (Inr False, s) \<and> messages s \<noteq> [] \<and>
     (\<exists>s2. record_failure_from E0 w1 (D 7) c1 outage p s = (Inr False, s2) \<and>
        lookup msg_id (clm_id c1) (messages s2) = Some n \<and> msg_status n = PENDING)"
proof -
  obtain es where r: "reach (step E0) start (pf (S4 es) [])" "step E0 (pf (S4 es) []) (pf (S5 es) [c1])"
    by (rule to_claimed)
  have p: "reach (step E0) start (pf (S5 es) [c1])" using r by (rule reach_step)
  obtain c s where c: "claim_one E0 w1 (D 6) (store (pf (S5 es) [c1])) = (Inr (Some c), s)" "clm_id c1 = clm_id c"
      "clm_token c1 \<noteq> clm_token c"
    using expired_at_six [of es] by (metis pf_sel(1))
  let ?q = "(pf (S5 es) [c1])\<lparr>store := s, claims := c # claims (pf (S5 es) [c1])\<rparr>"
  have m: "lookup msg_id (clm_id c1) (messages (store (pf (S5 es) [c1]))) = Some m2" "msg_locked_by m2 = Some (clm_token c1)"
    "msg_attempts m2 < max_attempts w1"
    by (simp_all add: c1_def S5_def m2_def mark_claimed_def m1_def new_message_def lookup_Cons drill_worker_def default_worker_def)
  note main = lost_claim_is_fenced [OF p c reach_refl, where v = w1 and d' = "D 7" and reference = "''noop:40''" and exc = outage]
  have "messages s \<noteq> []" using c(1) by (rule claim_one_elim) (auto simp: modify_def)
  moreover have "store ?q = s" by simp
  ultimately show ?thesis using main m by metis
qed

section \<open>Failures\<close>

lemma failure_retries_until_exhausted:
  assumes "record_failure E w d c exc s = (Inr final, s')"
    and "lookup msg_id (clm_id c) (messages s) = Some m" "msg_locked_by m = Some (clm_token c)"
  shows "final = (max_attempts w \<le> msg_attempts m) \<and>
     (\<exists>m'. lookup msg_id (clm_id c) (messages s') = Some m' \<and> msg_locked_by m' = None \<and>
        msg_lease_expires_at m' = None \<and> msg_attempts m' = msg_attempts m \<and>
        msg_last_error m' = Some (error_text exc) \<and> msg_status m' = (if final then DEAD else PENDING) \<and>
        (\<not> final \<longrightarrow> instant (msg_available_at m') =
           instant (now d 0) + retry_delay w (msg_attempts m) * SECOND))"
proof (cases final)
  case True
  with assms(1) have "record_failure E w d c exc s = (Inr True, s')" by simp
  then show ?thesis
    by (rule record_failure_dead) (use assms(2) True in \<open>simp add: lookup_modify mark_dead_def\<close>)
next
  case False
  with assms(1) have r: "record_failure E w d c exc s = (Inr False, s')" by simp
  from r show ?thesis
    by (rule record_failure_retry)
      (use assms(2,3) False in \<open>simp_all add: current_def lookup_modify mark_retry_def\<close>)
qed

lemma backoff_doubles_up_to_bound:
  assumes "make_worker wid maxa base maxr lease = Inr w"
  shows "retry_delay w 1 = base \<and>
     (\<forall>n\<ge>1. retry_delay w (n + 1) = min (2 * retry_delay w n) maxr) \<and>
     (\<forall>n. base \<le> retry_delay w n \<and> retry_delay w n \<le> maxr)"
proof (intro conjI allI impI)
  have w: "base_retry_seconds w = base" "max_retry_seconds w = maxr" "1 \<le> base" "base \<le> maxr"
    using assms by (auto simp: make_worker_def split: if_splits)
  show "retry_delay w 1 = base" using w by (simp add: retry_delay_def)
  show "base \<le> retry_delay w n" "retry_delay w n \<le> maxr" for n
    using retry_delay_bounds [OF make_worker_ok [OF assms], of n] w by simp_all
  show "retry_delay w (n + 1) = min (2 * retry_delay w n) maxr" if "1 \<le> n" for n
  proof -
    have "nat n = Suc (nat (n - 1))" using that by simp
    then show ?thesis using that w by (simp add: retry_delay_def)
  qed
qed

text \<open>C18: A failed delivery is retried with bounded exponential backoff until its attempts are used up.
  Recorded under the claim by a worker that could be constructed, a failure kills the message exactly
  when its attempts have reached the bound; before that the message is pending again, unlocked, with
  its attempts kept, and due only after the delay.  The first delay is the base, every further one
  twice the one before, and none is longer than the maximum or shorter than the base.\<close>

theorem failure_backs_off_until_exhausted:
  assumes "make_worker wid maxa base maxr lease = Inr w" "record_failure E w d c exc s = (Inr final, s')"
    and "lookup msg_id (clm_id c) (messages s) = Some m" "msg_locked_by m = Some (clm_token c)"
  shows "final = (maxa \<le> msg_attempts m) \<and>
     (\<exists>m'. lookup msg_id (clm_id c) (messages s') = Some m' \<and> msg_locked_by m' = None \<and>
        msg_lease_expires_at m' = None \<and> msg_attempts m' = msg_attempts m \<and>
        msg_last_error m' = Some (error_text exc) \<and> msg_status m' = (if final then DEAD else PENDING) \<and>
        (\<not> final \<longrightarrow> instant (msg_available_at m') =
           instant (now d 0) + retry_delay w (msg_attempts m) * SECOND)) \<and>
     retry_delay w 1 = base \<and>
     (\<forall>n\<ge>1. retry_delay w (n + 1) = min (2 * retry_delay w n) maxr) \<and>
     (\<forall>n. base \<le> retry_delay w n \<and> retry_delay w n \<le> maxr)"
proof -
  have "max_attempts w = maxa" using assms(1) by (auto simp: make_worker_def split: if_splits)
  from failure_retries_until_exhausted [OF assms(2-4), unfolded this] backoff_doubles_up_to_bound [OF assms(1)]
  show ?thesis by blast
qed

theorem failure_backs_off_until_exhausted_witness:
  "(\<exists>m'. lookup msg_id (clm_id c1) (messages ((S5 [])\<lparr>messages := [m5]\<rparr>)) = Some m' \<and> msg_status m' = PENDING \<and>
     instant (msg_available_at m') = 361 * SECOND) \<and> retry_delay w1 7 \<le> 60"
proof -
  have w: "make_worker ''recovery-drill-worker'' 5 1 60 30 = Inr w1"
    by (simp add: make_worker_def drill_worker_def default_worker_def)
  have m: "lookup msg_id (clm_id c1) (messages (S5 [])) = Some m2" "msg_locked_by m2 = Some (clm_token c1)"
    "msg_attempts m2 = 1"
    by (simp_all add: c1_def S5_def m2_def mark_claimed_def m1_def new_message_def lookup_Cons)
  note r = failure_backs_off_until_exhausted [OF w retry6 [of "[]"] m(1,2)]
  from r m(3) obtain m' where m': "lookup msg_id (clm_id c1) (messages ((S5 [])\<lparr>messages := [m5]\<rparr>)) = Some m'"
      "msg_status m' = PENDING" "instant (msg_available_at m') = instant (now (D 6) 0) + retry_delay w1 1 * SECOND"
    by auto
  have "instant (now (D 6) 0) = 360 * SECOND" by (simp add: D_def instant_def clock_at_def SECOND_def)
  with r m' show ?thesis by (auto simp: SECOND_def)
qed

section \<open>Adapters\<close>

text \<open>C22: Only a validated document reaches the OpenADR transport.  When the publisher returns a
  reference, the mapper gave a non-empty document, the validator accepted that very document, and
  the transport was called once, with it and with the key of the outbox; in every other case the
  transport was not called at all.\<close>

theorem openadr_sends_only_validated:
  "openadr_publish map_dispatch validate_event post_event sg key st =
     (if \<not> blank key \<and> (\<exists>doc. map_dispatch sg = Inr (PDict doc) \<and> doc \<noteq> [] \<and> validate_event doc = Inr ())
      then post_event (case map_dispatch sg of Inr (PDict doc) \<Rightarrow> doc) key st
      else (fst (openadr_publish map_dispatch validate_event post_event sg key st), st))"
  by (auto simp: openadr_publish_def split: sum.splits pyval.splits list.splits)

section \<open>The worker and the platform\<close>

text \<open>C19: A batch ends, drains the queue and is nothing but claims and records.  Whatever the publisher
  does, and also when an exception ends the batch midway, the database after \<open>run_once\<close> is reached from
  the one before by steps of the platform, so every property of reachable states holds after any batch.
  When it returns, it made at most \<open>limit\<close> attempts and, no other process intervening, counted each of
  them under exactly one outcome: as many as published as it appended publication events, as many as
  dead as it appended delivery failures, and the rest as retried; and if it made fewer than \<open>limit\<close>
  then no message was due at its last look.\<close>

theorem batch_drains_queue:
  assumes "reach (step E) start p" "run_once E w publish ds limit (store p) st = (r, s', st')"
  shows "reach (step E) p (p\<lparr>store := s'\<rparr>) \<and>
     (case r of Inl e \<Rightarrow> True | Inr report \<Rightarrow>
        int (rr_attempted report) \<le> limit \<and>
        rr_attempted report = rr_published report + rr_retried report + rr_dead report \<and>
        (\<exists>es. events s' = events (store p) @ es \<and>
           rr_published report = length (filter (\<lambda>e. evt_type e = ''dispatch.published'') es) \<and>
           rr_dead report = length (filter (\<lambda>e. evt_type e = ''dispatch.delivery_failed'') es)) \<and>
        (int (rr_attempted report) = limit \<or>
          (\<forall>m\<in>set (messages s'). \<not> claimable (as_utc (now (ds (2 * rr_attempted report)) 0)) m)))"
proof (cases r)
  case (Inr report)
  have run: "0 < limit" "run_loop E w publish ds 0 (nat limit) no_run (store p) st = (Inr report, s', st')"
    using assms(2) Inr by (auto simp: run_once_def split: if_splits)
  have "sound E p" using sys.always [OF assms(1) sound_start] .
  then have "sound E (pf (store p) (claims p))" by (cases p) (simp add: pf_def)
  from run_loop_exact [OF run(2) this] run_once_reach [OF assms(2)] run(1) show ?thesis
    by (auto simp: Inr no_run_def)
qed (use run_once_reach [OF assms(2)] in simp)

theorem batch_drains_queue_witness:
  "\<exists>es es' r. reach (step E0) (pf (S4 es) []) ((pf (S4 es) [])\<lparr>store := S6 es'\<rparr>) \<and>
     run_once E0 w1 noop_publish (\<lambda>k. D (5 + k)) 3 (S4 es) () = (Inr r, S6 es', ()) \<and>
     rr_published r = 1 \<and> int (rr_attempted r) \<le> 3"
proof -
  obtain es where p: "reach (step E0) start (pf (S4 es) [])" and "log_ok es" "evt_id ` set es = ids4" by (rule to_claimed)
  then obtain es' where r: "run_once E0 w1 noop_publish (\<lambda>k. D (5 + k)) 3 (store (pf (S4 es) [])) () =
      (Inr \<lparr>rr_attempted = 1, rr_published = 1, rr_retried = 0, rr_dead = 0\<rparr>, S6 es', ())"
    using batch_run [of es "\<lambda>k. D (5 + k)" 3] by auto
  from batch_drains_queue [OF p r] r show ?thesis by fastforce
qed

text \<open>C10: All attempts of one delivery are one delivery to the adapter.  Two claims of one message,
  taken by any workers at any times of a run, with crashes, retries and re-drives in between, carry
  the same idempotency key, the same payload and the same dispatch.\<close>

theorem attempts_share_identity:
  assumes "reach (step E) start p" "reach (step E) p q"
    and "c \<in> set (claims p)" "c' \<in> set (claims q)" "clm_id c' = clm_id c"
  shows "clm_idempotency_key c' = clm_idempotency_key c \<and> clm_payload c' = clm_payload c \<and>
     clm_aggregate_id c' = clm_aggregate_id c"
proof -
  have sp: "sound E p" using sys.always [OF assms(1) sound_start] .
  have sq: "sound E q" using sys.always [OF assms(2) sp] .
  have ret: "retains (store p) (store q)"
    using sys_kept.always [OF assms(2), of "store p"] by simp
  have "claim_held (store q) c" using sp assms(3) ret claim_held_retained by (auto simp: sound_def)
  moreover have "claim_held (store q) c'" using sq assms(4) by (simp add: sound_def)
  ultimately obtain m m' where m: "m \<in> set (messages (store q))" "m' \<in> set (messages (store q))"
      "claim_terms c = (msg_id m, msg_aggregate_id m, msg_idempotency_key m, msg_payload m)"
      "claim_terms c' = (msg_id m', msg_aggregate_id m', msg_idempotency_key m', msg_payload m')"
    unfolding claim_held_def by blast
  have "m' = m"
    by (rule keyed_unique [of msg_id])
      (use sq m assms(5) in \<open>simp_all add: sound_def sound_db_def keys_ok_def claim_terms_def\<close>)
  with m show ?thesis by (simp add: claim_terms_def)
qed

theorem attempts_share_identity_witness:
  "\<exists>p q c. reach (step E0) start p \<and> reach (step E0) p q \<and> c1 \<in> set (claims p) \<and> c \<in> set (claims q) \<and>
     clm_token c \<noteq> clm_token c1 \<and> clm_idempotency_key c = clm_idempotency_key c1"
proof -
  obtain es where r: "reach (step E0) start (pf (S4 es) [])" "step E0 (pf (S4 es) []) (pf (S5 es) [c1])"
    by (rule to_claimed)
  obtain c s where c: "claim_one E0 w1 (D 6) (S5 es) = (Inr (Some c), s)" "clm_id c = clm_id c1"
      "clm_token c1 \<noteq> clm_token c"
    using expired_at_six by blast
  have p: "reach (step E0) start (pf (S5 es) [c1])" using r by (rule reach_step)
  have q: "reach (step E0) (pf (S5 es) [c1]) (pf s [c, c1])" by (rule reach_one [OF claim_step [OF c(1)]])
  from attempts_share_identity [OF p q _ _ c(2)] p q c show ?thesis
    by (intro exI [of _ "pf (S5 es) [c1]"] exI [of _ "pf s [c, c1]"] exI [of _ c]) simp
qed

lemma append_event_Inl:
  "append_event E d i ty aid et actor corr payload s = Inl e \<Longrightarrow> \<exists>tab. e = DataError tab \<or> e = IntegrityError tab"
  by (auto simp: append_event_def append_after_def Let_def insert_event_def constrained_def
      split: sum.splits if_splits)

text \<open>C11: A publication is recorded or nothing is.  When a worker records the reference of a message it
  has just claimed in a reachable state, the message is published, its dispatch issued and its
  reservation dispatched, all in one transaction; or a constraint of the database refuses a value
  and nothing changes.  The cases of a missing dispatch, a missing reservation or a lost claim
  cannot happen.\<close>

theorem publication_is_recorded:
  assumes "reach (step E) start p" "claim_one E w d (store p) = (Inr (Some c), s1)"
    and "record_success E w d' c reference s1 = (r, s2)"
  shows "(r = Inr True \<and> (\<exists>m dsp rsv. lookup msg_id (clm_id c) (messages s2) = Some m \<and>
        lookup dsp_id (clm_aggregate_id c) (dispatches s2) = Some dsp \<and>
        lookup rsv_id (dsp_reservation_id dsp) (reservations s2) = Some rsv \<and>
        msg_status m = PUBLISHED \<and> msg_adapter_reference m = Some reference \<and>
        dsp_status dsp = ISSUED \<and> rsv_status rsv = DISPATCHED)) \<or>
     ((\<exists>tab. r = Inl (DataError tab) \<or> r = Inl (IntegrityError tab)) \<and> s2 = s1)"
proof -
  have s1: "sound E (p\<lparr>store := s1, claims := c # claims p\<rparr>)"
    using sys.preserved [OF step.Claim [OF assms(2)]] sys.always [OF assms(1) sound_start] by simp
  then have ok: "lifecycle_ok s1" "keys_ok s1" "refs_ok s1" "claim_ok s1 c"
    using claim_held_ok by (auto simp: sound_def sound_db_def)
  have cur: "current c s1" using assms(2) by (rule claim_current)
  then obtain m where m: "lookup msg_id (clm_id c) (messages s1) = Some m" "msg_locked_by m = Some (clm_token c)"
    by (auto simp: current_def split: option.splits)
  obtain dsp rsv where rows: "lookup dsp_id (clm_aggregate_id c) (dispatches s1) = Some dsp"
      "lookup rsv_id (dsp_reservation_id dsp) (reservations s1) = Some rsv"
    using message_dispatch [OF ok(1,3)] lookup_Some [OF m(1)] ok(4) unfolding claim_ok_def by metis
  show ?thesis
  proof (cases r)
    case (Inl e)
    have "s2 = s1" using assms(3) Inl by (simp add: at_success.undone)
    moreover have "\<exists>tab. e = DataError tab \<or> e = IntegrityError tab"
      using assms(3) Inl m rows
      by (auto simp: record_success_def Let_def transaction_Inl update_message_def split: sum.splits if_splits
          dest: append_event_Inl)
    ultimately show ?thesis using Inl by auto
  next
    case (Inr b)
    then have b: "record_success E w d' c reference s1 = (Inr True, s2)" "r = Inr True"
      using assms(3) cur record_success_False by (cases b; auto)+
    from b(1) show ?thesis
    proof (rule record_success_elim, goal_cases)
      case (1 m' dsp' rsv' e)
      from 1 b(2) show ?case by (simp add: lookup_modify mark_published_def)
    qed
  qed
qed

theorem publication_is_recorded_witness:
  "\<exists>p s1 s2. reach (step E0) start p \<and> claim_one E0 w1 (D 5) (store p) = (Inr (Some c1), s1) \<and>
     record_success E0 w1 (D 6) c1 ''noop:40'' s1 = (Inr True, s2) \<and>
     (\<exists>m. lookup msg_id (clm_id c1) (messages s2) = Some m \<and> msg_status m = PUBLISHED)"
proof -
  obtain es where r: "reach (step E0) start (pf (S4 es) [])" "log_ok es" "evt_id ` set es = ids4"
    by (rule to_claimed)
  obtain es6 where 6: "record_success E0 w1 (D 6) c1 ''noop:40'' (S5 es) = (Inr True, S6 es6)"
    using run6 [OF r(2,3)] by blast
  have "claim_one E0 w1 (D 5) (store (pf (S4 es) [])) = (Inr (Some c1), S5 es)" by (simp add: run5)
  from publication_is_recorded [OF r(1) this 6] this r(1) 6 show ?thesis by blast
qed

end
