(* ===== verification/Idempotency.thy ===== *)
theory Idempotency
  imports Platform
begin

text \<open>
  Idempotency keys over the whole run of the platform: a recorded request stays recorded, its
  repetition returns the recorded resource and changes nothing, and another request under its key
  is refused.
\<close>

section \<open>What later states still know\<close>

lemma lookup_prefix: "prefix xs ys \<Longrightarrow> lookup key k xs = Some x \<Longrightarrow> lookup key k ys = Some x"
  by (auto simp: prefix_def lookup_append)

lemma lookup_prefix_map:
  assumes "prefix (map h xs) (map h ys)" "\<And>r. key r = g (h r)" "lookup key k xs = Some x"
  shows "\<exists>y. lookup key k ys = Some y \<and> h y = h x"
  using assms(1,3)
proof (induction xs arbitrary: ys)
  case (Cons a xs)
  then obtain b zs where ys: "ys = b # zs" "h b = h a" "prefix (map h xs) (map h zs)"
    by (cases ys) auto
  then have "key b = key a" using assms(2) by simp
  with Cons ys show ?case by (auto simp: lookup_Cons split: if_splits)
qed (simp add: lookup_Nil)

lemma reach_retains: "reach (step E) p q \<Longrightarrow> retains (store p) (store q)"
  by (rule sys_kept.always [of E p q "store p"]) simp_all

lemma idem_kept: "retains s t \<Longrightarrow> idem_lookup op key s = Some r \<Longrightarrow> idem_lookup op key t = Some r"
  using lookup_prefix [of "idem s" "idem t"] by (simp add: idem_lookup_def retains_def)

lemma idem_append:
  "idem_lookup op key s = None \<Longrightarrow> idem s' = idem s @ [i] \<Longrightarrow> idm_operation i = op \<Longrightarrow> idm_key i = key \<Longrightarrow>
     idem_lookup op key s' = Some i"
  by (simp add: idem_lookup_def lookup_append lookup_Cons)

lemma row_kept:
  assumes "retains s t"
  shows "lookup rsv_id k (reservations s) = Some x \<Longrightarrow>
      \<exists>y. lookup rsv_id k (reservations t) = Some y \<and> reservation_terms y = reservation_terms x"
    and "lookup dsp_id k (dispatches s) = Some d \<Longrightarrow>
      \<exists>y. lookup dsp_id k (dispatches t) = Some y \<and> dispatch_terms y = dispatch_terms d"
    and "lookup stl_id k (settlements s) = Some z \<Longrightarrow>
      \<exists>y. lookup stl_id k (settlements t) = Some y \<and> settlement_terms y = settlement_terms z"
proof -
  have p: "prefix (map reservation_terms (reservations s)) (map reservation_terms (reservations t))"
    "prefix (map dispatch_terms (dispatches s)) (map dispatch_terms (dispatches t))"
    "prefix (map settlement_terms (settlements s)) (map settlement_terms (settlements t))"
    using assms by (simp_all add: retains_def)
  show "\<exists>y. lookup rsv_id k (reservations t) = Some y \<and> reservation_terms y = reservation_terms x"
    if "lookup rsv_id k (reservations s) = Some x"
    by (rule lookup_prefix_map [where g = fst, OF p(1) _ that]) (simp add: reservation_terms_def)
  show "\<exists>y. lookup dsp_id k (dispatches t) = Some y \<and> dispatch_terms y = dispatch_terms d"
    if "lookup dsp_id k (dispatches s) = Some d"
    by (rule lookup_prefix_map [where g = fst, OF p(2) _ that]) (simp add: dispatch_terms_def)
  show "\<exists>y. lookup stl_id k (settlements t) = Some y \<and> settlement_terms y = settlement_terms z"
    if "lookup stl_id k (settlements s) = Some z"
    by (rule lookup_prefix_map [where g = fst, OF p(3) _ that]) (simp add: settlement_terms_def)
qed

section \<open>The record of a request\<close>

text \<open>The recorded request of a key, and the repetition of a request that is recorded.\<close>

lemma new_row: "k \<notin> key ` set t \<Longrightarrow> key r = k \<Longrightarrow> lookup key k (t @ [r]) = Some r"
  unfolding lookup_None [symmetric] by (simp add: lookup_append lookup_Cons)

lemma reserve_recorded:
  assumes "reserve_offer E d oid c a key s = (Inr x, s')"
  shows "actor_role a = MARKET_OPERATOR \<and> \<not> blank key \<and>
     (\<exists>r y. idem_lookup ''reserve_offer'' key s' = Some r \<and> idm_request_hash r = reserve_hash E oid c a \<and>
        lookup rsv_id (idm_resource_id r) (reservations s') = Some y \<and>
        rsv_id y = rsv_id x \<and> rsv_offer_id y = rsv_offer_id x \<and> rsv_requested_by y = rsv_requested_by x)"
proof (cases "idem_lookup ''reserve_offer'' key s")
  case None
  from assms None show ?thesis
  proof (rule reserve_offer_fresh, goal_cases)
    case (1 ofr e i)
    have "idem_lookup ''reserve_offer'' key s' = Some i" using idem_append [OF None] 1 by simp
    moreover have "lookup rsv_id (rsv_id x) (reservations s') = Some (store_reservation x)"
      using new_row [of "rsv_id x" rsv_id "reservations s" "store_reservation x"] 1
      by (simp add: store_reservation_def)
    ultimately show ?thesis using 1 by (simp add: store_reservation_def)
  qed
next
  case (Some r)
  have "actor_role a = MARKET_OPERATOR" "\<not> blank key"
    using assms by (auto simp: reserve_offer_def reserve_offer_tx_def transaction_Inr Let_def
        idempotent_resource_def split: sum.splits if_splits)
  with reserve_offer_replay [OF Some assms] Some show ?thesis by auto
qed

lemma reserve_repeated:
  assumes "actor_role a = MARKET_OPERATOR" "\<not> blank key" "idem_lookup ''reserve_offer'' key s = Some r"
  shows "idm_request_hash r = reserve_hash E oid c a \<Longrightarrow>
      lookup rsv_id (idm_resource_id r) (reservations s) = Some y \<Longrightarrow>
      reserve_offer E d oid c a key s = (Inr y, s)"
    and "idm_request_hash r \<noteq> reserve_hash E oid c a \<Longrightarrow>
      reserve_offer E d oid c a key s =
        (Inl (ConflictError ''Idempotency-Key was already used with a different request.''), s)"
  using assms
  by (simp_all add: reserve_offer_def reserve_offer_tx_def require_role_def transaction_def
      idempotent_resource_def idem_lookup_def)

lemma issue_recorded:
  assumes "issue_dispatch E d rid c a key s = (Inr x, s')"
  shows "actor_role a = MARKET_OPERATOR \<and> \<not> blank key \<and>
     (\<exists>r y. idem_lookup ''issue_dispatch'' key s' = Some r \<and> idm_request_hash r = dispatch_hash E rid c a \<and>
        lookup dsp_id (idm_resource_id r) (dispatches s') = Some y \<and>
        dsp_id y = dsp_id x \<and> dsp_reservation_id y = dsp_reservation_id x \<and>
        dsp_starts_at y = dsp_starts_at x \<and> dsp_ends_at y = dsp_ends_at x)"
proof (cases "idem_lookup ''issue_dispatch'' key s")
  case None
  from assms None show ?thesis
  proof (rule issue_dispatch_fresh, goal_cases)
    case (1 rsv ofr ast m e i)
    have "idem_lookup ''issue_dispatch'' key s' = Some i" using idem_append [OF None] 1 by simp
    moreover have "lookup dsp_id (dsp_id x) (dispatches s') = Some (store_dispatch x)"
      using new_row [of "dsp_id x" dsp_id "dispatches s" "store_dispatch x"] 1
      by (simp add: store_dispatch_def)
    ultimately show ?thesis using 1 by (simp add: store_dispatch_def)
  qed
next
  case (Some r)
  have "actor_role a = MARKET_OPERATOR" "\<not> blank key"
    using assms by (auto simp: issue_dispatch_def issue_dispatch_tx_def transaction_Inr Let_def
        idempotent_resource_def split: sum.splits if_splits)
  with issue_dispatch_replay [OF Some assms] Some show ?thesis by auto
qed

lemma issue_repeated:
  assumes "actor_role a = MARKET_OPERATOR" "\<not> blank key" "idem_lookup ''issue_dispatch'' key s = Some r"
    and "idm_request_hash r = dispatch_hash E rid c a"
    and "lookup dsp_id (idm_resource_id r) (dispatches s) = Some y"
  shows "issue_dispatch E d rid c a key s = (Inr y, s)"
  using assms
  by (simp add: issue_dispatch_def issue_dispatch_tx_def require_role_def transaction_def
      idempotent_resource_def idem_lookup_def)

lemma settle_recorded:
  assumes "settle_reservation E d rid a key s = (Inr x, s')"
  shows "actor_role a = SETTLEMENT_ANALYST \<and> \<not> blank key \<and>
     (\<exists>r y. idem_lookup ''settle_reservation'' key s' = Some r \<and> idm_request_hash r = settle_hash E rid a \<and>
        lookup stl_id (idm_resource_id r) (settlements s') = Some y \<and>
        stl_id y = stl_id x \<and> stl_reservation_id y = stl_reservation_id x \<and> stl_settled_by y = stl_settled_by x)"
proof (cases "idem_lookup ''settle_reservation'' key s")
  case None
  from assms None show ?thesis
  proof (rule settle_reservation_fresh, goal_cases)
    case (1 rsv dsp ofr e i)
    have "idem_lookup ''settle_reservation'' key s' = Some i" using idem_append [OF None] 1 by simp
    moreover have "lookup stl_id (stl_id x) (settlements s') = Some (store_settlement x)"
      using new_row [of "stl_id x" stl_id "settlements s" "store_settlement x"] 1
      by (simp add: store_settlement_def)
    ultimately show ?thesis using 1 by (simp add: store_settlement_def)
  qed
next
  case (Some r)
  have "actor_role a = SETTLEMENT_ANALYST" "\<not> blank key"
    using assms by (auto simp: settle_reservation_def settle_reservation_tx_def transaction_Inr Let_def
        idempotent_resource_def split: sum.splits if_splits)
  with settle_reservation_replay [OF Some assms] Some show ?thesis by auto
qed

lemma settle_repeated:
  assumes "actor_role a = SETTLEMENT_ANALYST" "\<not> blank key"
    and "idem_lookup ''settle_reservation'' key s = Some r" "idm_request_hash r = settle_hash E rid a"
    and "lookup stl_id (idm_resource_id r) (settlements s) = Some y"
  shows "settle_reservation E d rid a key s = (Inr y, s)"
  using assms
  by (simp add: settle_reservation_def settle_reservation_tx_def require_role_def transaction_def
      idempotent_resource_def idem_lookup_def)

section \<open>Different requests have different texts\<close>

lemma reserve_request_binds:
  assumes "canonical_json (reserve_request oid c a) = canonical_json (reserve_request oid' c' a')"
  shows "oid = oid' \<and> actor_id a = actor_id a' \<and>
    dec_format (rc_quantity_kw c) = dec_format (rc_quantity_kw c')"
proof -
  have "to_json (reserve_request oid c a) = to_json (reserve_request oid' c' a')"
    using assms by (simp add: canonical_json_inject)
  from to_json_dict_lookup [OF this [unfolded reserve_request_def]]
  have "\<And>k. map_option to_json (map_of [(''offer_id'', PStr oid), (''quantity_kw'', PDec (rc_quantity_kw c)),
        (''actor_id'', PStr (actor_id a))] k) =
      map_option to_json (map_of [(''offer_id'', PStr oid'), (''quantity_kw'', PDec (rc_quantity_kw c')),
        (''actor_id'', PStr (actor_id a'))] k)" by simp
  from this [of "''offer_id''"] this [of "''quantity_kw''"] this [of "''actor_id''"] show ?thesis by simp
qed

section \<open>Repeating a request later\<close>

lemma reservation_replay:
  assumes "reserve_offer E d oid c a key (store p) = (Inr x, s')" "reach (step E) (p\<lparr>store := s'\<rparr>) q"
  shows "\<exists>y. reserve_offer E d' oid c a key (store q) = (Inr y, store q) \<and>
     rsv_id y = rsv_id x \<and> rsv_offer_id y = rsv_offer_id x \<and> rsv_requested_by y = rsv_requested_by x"
proof -
  have ret: "retains s' (store q)" using reach_retains [OF assms(2)] by simp
  obtain r y where r: "actor_role a = MARKET_OPERATOR" "\<not> blank key"
      "idem_lookup ''reserve_offer'' key s' = Some r" "idm_request_hash r = reserve_hash E oid c a"
      "lookup rsv_id (idm_resource_id r) (reservations s') = Some y"
      "rsv_id y = rsv_id x" "rsv_offer_id y = rsv_offer_id x" "rsv_requested_by y = rsv_requested_by x"
    using reserve_recorded [OF assms(1)] by blast
  obtain z where z: "lookup rsv_id (idm_resource_id r) (reservations (store q)) = Some z"
      "reservation_terms z = reservation_terms y"
    using row_kept(1) [OF ret r(5)] by blast
  from reserve_repeated(1) [OF r(1,2) idem_kept [OF ret r(3)] r(4) z(1)] z(2) r(6-8)
  show ?thesis by (simp add: reservation_terms_def)
qed

lemma dispatch_replay:
  assumes "issue_dispatch E d rid c a key (store p) = (Inr x, s')" "reach (step E) (p\<lparr>store := s'\<rparr>) q"
  shows "\<exists>y. issue_dispatch E d' rid c a key (store q) = (Inr y, store q) \<and>
     dsp_id y = dsp_id x \<and> dsp_reservation_id y = dsp_reservation_id x \<and>
     dsp_starts_at y = dsp_starts_at x \<and> dsp_ends_at y = dsp_ends_at x \<and> y \<in> set (dispatches (store q))"
proof -
  have ret: "retains s' (store q)" using reach_retains [OF assms(2)] by simp
  obtain r y where r: "actor_role a = MARKET_OPERATOR" "\<not> blank key"
      "idem_lookup ''issue_dispatch'' key s' = Some r" "idm_request_hash r = dispatch_hash E rid c a"
      "lookup dsp_id (idm_resource_id r) (dispatches s') = Some y"
      "dsp_id y = dsp_id x" "dsp_reservation_id y = dsp_reservation_id x"
      "dsp_starts_at y = dsp_starts_at x" "dsp_ends_at y = dsp_ends_at x"
    using issue_recorded [OF assms(1)] by blast
  obtain z where z: "lookup dsp_id (idm_resource_id r) (dispatches (store q)) = Some z"
      "dispatch_terms z = dispatch_terms y"
    using row_kept(2) [OF ret r(5)] by blast
  from issue_repeated [OF r(1,2) idem_kept [OF ret r(3)] r(4) z(1)] z(2) r(6-9)
  lookup_Some [OF z(1)] show ?thesis by (simp add: dispatch_terms_def)
qed

lemma settlement_replay:
  assumes "settle_reservation E d rid a key (store p) = (Inr x, s')" "reach (step E) (p\<lparr>store := s'\<rparr>) q"
  shows "\<exists>y. settle_reservation E d' rid a key (store q) = (Inr y, store q) \<and>
     stl_id y = stl_id x \<and> stl_reservation_id y = stl_reservation_id x \<and> stl_settled_by y = stl_settled_by x"
proof -
  have ret: "retains s' (store q)" using reach_retains [OF assms(2)] by simp
  obtain r y where r: "actor_role a = SETTLEMENT_ANALYST" "\<not> blank key"
      "idem_lookup ''settle_reservation'' key s' = Some r" "idm_request_hash r = settle_hash E rid a"
      "lookup stl_id (idm_resource_id r) (settlements s') = Some y"
      "stl_id y = stl_id x" "stl_reservation_id y = stl_reservation_id x" "stl_settled_by y = stl_settled_by x"
    using settle_recorded [OF assms(1)] by blast
  obtain z where z: "lookup stl_id (idm_resource_id r) (settlements (store q)) = Some z"
      "settlement_terms z = settlement_terms y"
    using row_kept(3) [OF ret r(5)] by blast
  from settle_repeated [OF r(1,2) idem_kept [OF ret r(3)] r(4) z(1)] z(2) r(6-8)
  show ?thesis by (simp add: settlement_terms_def)
qed

end
