(* ===== verification/Evidence.thy ===== *)
theory Evidence
  imports Platform
begin

text \<open>
  The evidence of a settlement over the whole run: its manifest names the readings it was computed
  from and the event that recorded it, the hash stored beside it is the hash of that manifest, and
  the amounts can be computed again from what the manifest names.
\<close>

section \<open>Evidence that can be checked again\<close>

definition evidence_backed :: "env \<Rightarrow> db \<Rightarrow> settlement \<Rightarrow> bool" where
  "evidence_backed E s x \<longleftrightarrow> stl_evidence_hash x = sha256_json E (stl_evidence_manifest x) \<and>
     (\<exists>rsv\<in>set (reservations s). \<exists>ofr\<in>set (offers s). \<exists>dsp\<in>set (dispatches s). \<exists>e\<in>set (events s).
      \<exists>n rs delivered amount.
        rsv_id rsv = stl_reservation_id x \<and> ofr_id ofr = rsv_offer_id rsv \<and>
        dsp_reservation_id dsp = rsv_id rsv \<and>
        evt_type e = ''settlement.calculated'' \<and> evt_aggregate_id e = stl_id x \<and>
        n \<le> length (readings s) \<and> rs \<noteq> [] \<and>
        mset rs = mset (filter (\<lambda>g. mtr_asset_id g = ofr_asset_id ofr \<and>
           instant (dsp_starts_at dsp) \<le> instant (mtr_interval_start g) \<and>
           instant (mtr_interval_end g) \<le> instant (dsp_ends_at dsp)) (take n (readings s))) \<and>
        delivered_energy (map mtr_energy_kwh rs) = Inr delivered \<and>
        settlement_amount delivered (ofr_price_per_kwh ofr) = Inr amount \<and>
        stl_delivered_kwh x = numeric6 delivered \<and> stl_amount x = numeric6 amount \<and>
        stl_evidence_manifest x = evidence_manifest (stl_id x) rsv ofr dsp rs delivered amount e)"

definition evidence_ok :: "env \<Rightarrow> db \<Rightarrow> bool" where
  "evidence_ok E s \<longleftrightarrow> (\<forall>x\<in>set (settlements s). evidence_backed E s x)"

text \<open>The manifest shows terms only, and readings are only added at the end.\<close>

lemma evidence_manifest_terms:
  "reservation_terms rsv' = reservation_terms rsv \<Longrightarrow> offer_terms ofr' = offer_terms ofr \<Longrightarrow>
     dispatch_terms dsp' = dispatch_terms dsp \<Longrightarrow>
     evidence_manifest i rsv' ofr' dsp' rs delivered amount e = evidence_manifest i rsv ofr dsp rs delivered amount e"
  by (simp add: terms_defs evidence_manifest_def)

lemma evidence_backed_grow:
  assumes "evidence_backed E s x" "retains s t"
  shows "evidence_backed E t x"
proof -
  from assms(1) obtain rsv ofr dsp e n rs delivered amount where rows: "rsv \<in> set (reservations s)"
      "ofr \<in> set (offers s)" "dsp \<in> set (dispatches s)" "e \<in> set (events s)"
    and b: "stl_evidence_hash x = sha256_json E (stl_evidence_manifest x)"
      "rsv_id rsv = stl_reservation_id x" "ofr_id ofr = rsv_offer_id rsv" "dsp_reservation_id dsp = rsv_id rsv"
      "evt_type e = ''settlement.calculated''" "evt_aggregate_id e = stl_id x" "n \<le> length (readings s)" "rs \<noteq> []"
      "mset rs = mset (filter (\<lambda>g. mtr_asset_id g = ofr_asset_id ofr \<and>
         instant (dsp_starts_at dsp) \<le> instant (mtr_interval_start g) \<and>
         instant (mtr_interval_end g) \<le> instant (dsp_ends_at dsp)) (take n (readings s)))"
      "delivered_energy (map mtr_energy_kwh rs) = Inr delivered"
      "settlement_amount delivered (ofr_price_per_kwh ofr) = Inr amount"
      "stl_delivered_kwh x = numeric6 delivered" "stl_amount x = numeric6 amount"
      "stl_evidence_manifest x = evidence_manifest (stl_id x) rsv ofr dsp rs delivered amount e"
    unfolding evidence_backed_def by blast
  obtain rsv' ofr' dsp' where new: "rsv' \<in> set (reservations t)" "reservation_terms rsv' = reservation_terms rsv"
      "ofr' \<in> set (offers t)" "offer_terms ofr' = offer_terms ofr"
      "dsp' \<in> set (dispatches t)" "dispatch_terms dsp' = dispatch_terms dsp"
    using retains_rows(2-4) [OF assms(2)] rows by metis
  have e: "e \<in> set (events t)" using assms(2) rows(4) by (auto simp: retains_def prefix_def)
  have n: "n \<le> length (readings t)" "take n (readings t) = take n (readings s)"
    using assms(2) b(7) by (auto simp: retains_def prefix_def)
  have f: "rsv_id rsv' = rsv_id rsv" "rsv_offer_id rsv' = rsv_offer_id rsv" "ofr_id ofr' = ofr_id ofr"
      "ofr_asset_id ofr' = ofr_asset_id ofr" "ofr_price_per_kwh ofr' = ofr_price_per_kwh ofr"
      "dsp_reservation_id dsp' = dsp_reservation_id dsp" "dsp_starts_at dsp' = dsp_starts_at dsp"
      "dsp_ends_at dsp' = dsp_ends_at dsp"
    using new by (simp_all add: terms_defs)
  show ?thesis
    unfolding evidence_backed_def
    by (rule conjI, rule b(1), rule bexI [OF _ new(1)], rule bexI [OF _ new(3)], rule bexI [OF _ new(5)],
        rule bexI [OF _ e], rule exI [of _ n], rule exI [of _ rs], rule exI [of _ delivered],
        rule exI [of _ amount], simp add: f n evidence_manifest_terms [OF new(2,4,6)] b(2-6,8-14))
qed

lemma evidence_same: "settlements t = settlements s \<Longrightarrow> retains s t \<Longrightarrow> evidence_ok E s \<Longrightarrow> evidence_ok E t"
  using evidence_backed_grow unfolding evidence_ok_def by metis

section \<open>Who writes settlements\<close>

lemma settlements_same:
  "register_asset E d c a s = (Inr x1, s') \<Longrightarrow> settlements s' = settlements s"
  "create_offer E d c2 a s = (Inr x2, s') \<Longrightarrow> settlements s' = settlements s"
  "record_meter_reading E d c5 a s = (Inr x5, s') \<Longrightarrow> settlements s' = settlements s"
  "claim_one E w d s = (Inr (Some c6), s') \<Longrightarrow> settlements s' = settlements s"
  "record_success E w d c7 ref s = (Inr True, s') \<Longrightarrow> settlements s' = settlements s"
  "authorize_redrive E d a mid did reason s = (Inr x8, s') \<Longrightarrow> settlements s' = settlements s"
  by (erule register_asset_elim create_offer_elim reading_elim claim_one_elim record_success_elim
      authorize_redrive_elim; simp)+

lemma settlements_reserve:
  assumes "reserve_offer E d i c a key s = (Inr x, s')"
  shows "settlements s' = settlements s"
proof (cases "idem_lookup ''reserve_offer'' key s")
  case None
  from assms None show ?thesis by (rule reserve_offer_fresh) simp
next
  case (Some y)
  with reserve_offer_replay [OF Some assms] show ?thesis by simp
qed

lemma settlements_issue:
  assumes "issue_dispatch E d i c a key s = (Inr x, s')"
  shows "settlements s' = settlements s"
proof (cases "idem_lookup ''issue_dispatch'' key s")
  case None
  from assms None show ?thesis by (rule issue_dispatch_fresh) simp
next
  case (Some y)
  with issue_dispatch_replay [OF Some assms] show ?thesis by simp
qed

lemma settlements_failure:
  assumes "record_failure E w d c exc s = (Inr b, s')"
  shows "settlements s' = settlements s"
proof (cases b)
  case True
  with assms have "record_failure E w d c exc s = (Inr True, s')" by simp
  then show ?thesis
  proof (rule record_failure_dead, goal_cases)
    case (1 m)
    then show ?case by (cases "lookup dsp_id (clm_aggregate_id c) (dispatches s)") auto
  qed
next
  case False
  with assms have r: "record_failure E w d c exc s = (Inr False, s')" by simp
  show ?thesis
  proof (cases "current c s")
    case True
    from r True show ?thesis by (rule record_failure_retry) simp
  next
    case False
    with r show ?thesis by (simp add: record_stale)
  qed
qed

lemma evidence_settle:
  assumes "settle_reservation E d i a key s = (Inr x, s')" "evidence_ok E s"
  shows "evidence_ok E s'"
proof (cases "idem_lookup ''settle_reservation'' key s")
  case None
  have r: "retains s s'" using assms(1) by (rule kept.settle_reservation) simp
  from assms(1) None show ?thesis
  proof (rule settle_reservation_fresh, goal_cases)
    case (1 rsv dsp ofr e k)
    let ?g = "\<lambda>x. x\<lparr>dsp_status := DSP_COMPLETED\<rparr>" and ?h = "\<lambda>x. x\<lparr>rsv_status := RES_COMPLETED\<rparr>"
    note l = lookup_Some [OF 1(3)] lookup_Some [OF 1(5)] lookup_Some [OF 1(9)]
    have rows: "?h rsv \<in> set (reservations s')" "?g dsp \<in> set (dispatches s')" "ofr \<in> set (offers s')"
      "e \<in> set (events s')"
      unfolding 1(21) using l by (simp_all add: modify_same)
    have "evidence_backed E s' (store_settlement x)"
      unfolding evidence_backed_def
    proof (intro conjI bexI [OF _ rows(1)] bexI [OF _ rows(2)] bexI [OF _ rows(3)] bexI [OF _ rows(4)] exI)
      show "evt_type e = ''settlement.calculated''" by (rule 1(22))
      show "window_readings ofr dsp s \<noteq> []" by (rule 1(10))
      show "length (readings s) \<le> length (readings s')" using 1(21) by simp
      show "mset (window_readings ofr dsp s) = mset (filter (\<lambda>g. mtr_asset_id g = ofr_asset_id ofr \<and>
         instant (dsp_starts_at (?g dsp)) \<le> instant (mtr_interval_start g) \<and>
         instant (mtr_interval_end g) \<le> instant (dsp_ends_at (?g dsp))) (take (length (readings s)) (readings s')))"
        using 1(21) by (simp add: window_readings_def dt_le_def)
      show "delivered_energy (map mtr_energy_kwh (window_readings ofr dsp s)) = Inr (stl_delivered_kwh x)"
        by (rule 1(11))
      show "settlement_amount (stl_delivered_kwh x) (ofr_price_per_kwh ofr) = Inr (stl_amount x)"
        by (rule 1(12))
      show "stl_evidence_manifest (store_settlement x) = evidence_manifest (stl_id (store_settlement x)) (?h rsv) ofr
          (?g dsp) (window_readings ofr dsp s) (stl_delivered_kwh x) (stl_amount x) e"
        using 1(13,17) by (simp add: store_settlement_def evidence_manifest_def)
    qed (use 1 l in \<open>simp_all add: store_settlement_def\<close>)
    moreover have "settlements s' = settlements s @ [store_settlement x]" using 1(21) by simp
    ultimately show ?case
      using assms(2) evidence_backed_grow [OF _ r] by (auto simp: evidence_ok_def)
  qed
next
  case (Some y)
  with settle_reservation_replay [OF Some assms(1)] assms(2) show ?thesis by simp
qed

section \<open>The invariant\<close>

lemma evidence_or_settle:
  assumes "atomic_operation run" "run s = (r, s')" "retains s s'" "evidence_ok E s"
    and "\<And>x. r = Inr x \<Longrightarrow> settlements s' = settlements s"
  shows "evidence_ok E s'"
  using assms atomic_operation.undone [OF assms(1)] by (cases r) (auto intro: evidence_same)

lemmas settlements_ops = settlements_same settlements_reserve settlements_issue settlements_failure

lemma evidence_asset:
  assumes "register_asset E d c a s = (r, s')" "evidence_ok E s"
  shows "evidence_ok E s'"
  by (rule evidence_or_settle [OF at_asset.atomic_operation_axioms assms(1)
        kept.register_asset [OF assms(1) retains_refl] assms(2)])
    (use assms(1) in \<open>auto dest: settlements_ops\<close>)

lemma evidence_offer:
  assumes "create_offer E d c a s = (r, s')" "evidence_ok E s"
  shows "evidence_ok E s'"
  by (rule evidence_or_settle [OF at_offer.atomic_operation_axioms assms(1)
        kept.create_offer [OF assms(1) retains_refl] assms(2)])
    (use assms(1) in \<open>auto dest: settlements_ops\<close>)

lemma evidence_reserve:
  assumes "reserve_offer E d i c a key s = (r, s')" "evidence_ok E s"
  shows "evidence_ok E s'"
  by (rule evidence_or_settle [OF at_reserve.atomic_operation_axioms assms(1)
        kept.reserve_offer [OF assms(1) retains_refl] assms(2)])
    (use assms(1) in \<open>auto dest: settlements_ops\<close>)

lemma evidence_issue:
  assumes "issue_dispatch E d i c a key s = (r, s')" "evidence_ok E s"
  shows "evidence_ok E s'"
  by (rule evidence_or_settle [OF at_dispatch.atomic_operation_axioms assms(1)
        kept.issue_dispatch [OF assms(1) retains_refl] assms(2)])
    (use assms(1) in \<open>auto dest: settlements_ops\<close>)

lemma evidence_reading:
  assumes "record_meter_reading E d c a s = (r, s')" "evidence_ok E s"
  shows "evidence_ok E s'"
  by (rule evidence_or_settle [OF at_reading.atomic_operation_axioms assms(1)
        kept.record_meter_reading [OF assms(1) retains_refl] assms(2)])
    (use assms(1) in \<open>auto dest: settlements_ops\<close>)

lemma evidence_settled:
  "settle_reservation E d i a key s = (r, s') \<Longrightarrow> evidence_ok E s \<Longrightarrow> evidence_ok E s'"
  by (cases r) (auto dest: at_settle.undone intro: evidence_settle)

lemma evidence_serve: "serve E d a req s = (resp, s') \<Longrightarrow> evidence_ok E s \<Longrightarrow> evidence_ok E s'"
  by (cases req)
    (auto simp: with_valid_def with_key_def render_def prod_eq_iff split: sum.splits option.splits
      intro: evidence_asset [OF prod.collapse [symmetric]] evidence_offer [OF prod.collapse [symmetric]]
        evidence_reserve [OF prod.collapse [symmetric]] evidence_issue [OF prod.collapse [symmetric]]
        evidence_reading [OF prod.collapse [symmetric]] evidence_settled [OF prod.collapse [symmetric]])

interpretation sys_evidence: invariant "step E" "\<lambda>p. evidence_ok E (store p)" for E
proof unfold_locales
  fix p q
  assume s: "step E p q" and ok: "evidence_ok E (store p)"
  note ret = step_retains [OF s]
  from s show "evidence_ok E (store q)"
  proof (cases rule: step.cases)
    case (Serve d a req resp s')
    then show ?thesis using evidence_serve ok by simp
  next
    case (Redrive d a mid did reason r s')
    then show ?thesis
      using ret ok by (cases r) (auto dest: authorize_redrive_Inl settlements_same intro: evidence_same)
  next
    case (Claim w d c s')
    then show ?thesis using ret ok by (auto dest: settlements_same intro: evidence_same)
  next
    case (Published c w d reference r s')
    then show ?thesis
      using ret ok
      by (cases r; cases "r = Inr True")
        (auto dest: at_success.undone settlements_same record_success_False intro: evidence_same)
  next
    case (Failed c w d exc r s')
    then show ?thesis
      using ret ok by (cases r) (auto dest: at_failure.undone settlements_failure intro: evidence_same)
  next
    case (Crash c)
    then show ?thesis using ok by simp
  qed
qed

end
