(* ===== verification/Responses.thy ===== *)
theory Responses
  imports Platform
begin

text \<open>
  The read models of \<open>schemas.py\<close> and the last line of every route of \<open>api.py\<close>: the resource an
  operation returned is read into its response model by attribute.  \<open>AssetRead\<close>, \<open>OfferRead\<close>,
  \<open>DispatchRead\<close> and \<open>MeterReadingRead\<close> extend the command they answer, so they repeat its field
  bounds and its validator, and a resource they refuse ends in a server error although the
  transaction is committed.
\<close>

section \<open>Read models\<close>

record asset_read = asset_create +
  ard_id :: string
  ard_status :: asset_status
  ard_created_at :: datetime

record offer_read = offer_create +
  ord_id :: string
  ord_status :: offer_status
  ord_created_by :: string
  ord_created_at :: datetime

record reservation_read =
  rrd_id :: string
  rrd_offer_id :: string
  rrd_quantity_kw :: decimal
  rrd_status :: reservation_status
  rrd_requested_by :: string
  rrd_created_at :: datetime

record dispatch_read = dispatch_create +
  drd_id :: string
  drd_reservation_id :: string
  drd_status :: dispatch_status
  drd_issued_by :: string
  drd_adapter_reference :: "string option"
  drd_created_at :: datetime

record meter_reading_read = meter_reading_create +
  mrd_id :: string
  mrd_fingerprint :: string
  mrd_recorded_by :: string
  mrd_received_at :: datetime

record settlement_read =
  srd_id :: string
  srd_reservation_id :: string
  srd_delivered_kwh :: decimal
  srd_price_per_kwh :: decimal
  srd_amount :: decimal
  srd_evidence_hash :: string
  srd_settled_by :: string
  srd_created_at :: datetime

record evidence_read =
  erd_manifest :: pyval
  erd_evidence_hash :: string
  erd_hash_valid :: bool

record audit_verification_read =
  vrd_valid :: bool
  vrd_event_count :: nat
  vrd_head_hash :: string
  vrd_broken_sequence :: "nat option"

text \<open>The age is in microseconds, as in the snapshot.\<close>

record outbox_health_read =
  hrd_pending :: nat
  hrd_processing :: nat
  hrd_published :: nat
  hrd_dead :: nat
  hrd_due :: nat
  hrd_oldest_pending_age :: "int option"

section \<open>Reading a resource\<close>

text \<open>The fields a read model inherits from its command, and the whole model.\<close>

definition asset_base :: "asset \<Rightarrow> asset_create" where
  "asset_base x = \<lparr>ac_external_id = ast_external_id x, ac_owner_id = ast_owner_id x,
     ac_asset_type = ast_type x, ac_capacity_kw = ast_capacity_kw x,
     ac_location_code = ast_location_code x\<rparr>"

definition asset_view :: "asset \<Rightarrow> asset_read" where
  "asset_view x = asset_create.extend (asset_base x)
     (asset_read.fields (ast_id x) (ast_status x) (ast_created_at x))"

definition offer_base :: "flex_offer \<Rightarrow> offer_create" where
  "offer_base x = \<lparr>oc_asset_id = ofr_asset_id x, oc_window_start = ofr_window_start x,
     oc_window_end = ofr_window_end x, oc_direction = ofr_direction x,
     oc_quantity_kw = ofr_quantity_kw x, oc_price_per_kwh = ofr_price_per_kwh x\<rparr>"

definition offer_view :: "flex_offer \<Rightarrow> offer_read" where
  "offer_view x = offer_create.extend (offer_base x)
     (offer_read.fields (ofr_id x) (ofr_status x) (ofr_created_by x) (ofr_created_at x))"

definition reservation_view :: "reservation \<Rightarrow> reservation_read" where
  "reservation_view x = \<lparr>rrd_id = rsv_id x, rrd_offer_id = rsv_offer_id x,
     rrd_quantity_kw = rsv_quantity_kw x, rrd_status = rsv_status x,
     rrd_requested_by = rsv_requested_by x, rrd_created_at = rsv_created_at x\<rparr>"

definition dispatch_base :: "dispatch \<Rightarrow> dispatch_create" where
  "dispatch_base x = \<lparr>dc_target_kw = dsp_target_kw x, dc_starts_at = dsp_starts_at x,
     dc_ends_at = dsp_ends_at x\<rparr>"

definition dispatch_view :: "dispatch \<Rightarrow> dispatch_read" where
  "dispatch_view x = dispatch_create.extend (dispatch_base x)
     (dispatch_read.fields (dsp_id x) (dsp_reservation_id x) (dsp_status x) (dsp_issued_by x)
       (dsp_adapter_reference x) (dsp_created_at x))"

definition reading_base :: "meter_reading \<Rightarrow> meter_reading_create" where
  "reading_base x = \<lparr>mc_asset_id = mtr_asset_id x, mc_interval_start = mtr_interval_start x,
     mc_interval_end = mtr_interval_end x, mc_energy_kwh = mtr_energy_kwh x, mc_source = mtr_source x\<rparr>"

definition reading_view :: "meter_reading \<Rightarrow> meter_reading_read" where
  "reading_view x = meter_reading_create.extend (reading_base x)
     (meter_reading_read.fields (mtr_id x) (mtr_fingerprint x) (mtr_recorded_by x) (mtr_received_at x))"

definition settlement_view :: "settlement \<Rightarrow> settlement_read" where
  "settlement_view x = \<lparr>srd_id = stl_id x, srd_reservation_id = stl_reservation_id x,
     srd_delivered_kwh = stl_delivered_kwh x, srd_price_per_kwh = stl_price_per_kwh x,
     srd_amount = stl_amount x, srd_evidence_hash = stl_evidence_hash x,
     srd_settled_by = stl_settled_by x, srd_created_at = stl_created_at x\<rparr>"

definition evidence_view :: "evidence \<Rightarrow> evidence_read" where
  "evidence_view x = \<lparr>erd_manifest = ev_manifest x, erd_evidence_hash = ev_evidence_hash x,
     erd_hash_valid = ev_hash_valid x\<rparr>"

definition audit_view :: "audit_verification \<Rightarrow> audit_verification_read" where
  "audit_view x = \<lparr>vrd_valid = av_valid x, vrd_event_count = av_event_count x,
     vrd_head_hash = av_head_hash x, vrd_broken_sequence = av_broken_sequence x\<rparr>"

definition outbox_view :: "outbox_snapshot \<Rightarrow> outbox_health_read" where
  "outbox_view x = \<lparr>hrd_pending = os_pending x, hrd_processing = os_processing x,
     hrd_published = os_published x, hrd_dead = os_dead x, hrd_due = os_due x,
     hrd_oldest_pending_age = os_oldest_pending_age x\<rparr>"

lemmas view_defs = asset_view_def offer_view_def reservation_view_def dispatch_view_def
  reading_view_def settlement_view_def evidence_view_def audit_view_def outbox_view_def
lemmas base_defs = asset_base_def offer_base_def dispatch_base_def reading_base_def

text \<open>\<open>model_validate\<close> of the four models with inherited constraints.\<close>

definition read_asset :: "asset \<Rightarrow> asset_read result" where
  "read_asset x = (case validate_asset (asset_base x) of Inl e \<Rightarrow> Inl e | Inr _ \<Rightarrow> Inr (asset_view x))"

definition read_offer :: "flex_offer \<Rightarrow> offer_read result" where
  "read_offer x = (case validate_offer (offer_base x) of Inl e \<Rightarrow> Inl e | Inr _ \<Rightarrow> Inr (offer_view x))"

definition read_dispatch :: "dispatch \<Rightarrow> dispatch_read result" where
  "read_dispatch x =
     (case validate_dispatch (dispatch_base x) of Inl e \<Rightarrow> Inl e | Inr _ \<Rightarrow> Inr (dispatch_view x))"

definition read_reading :: "meter_reading \<Rightarrow> meter_reading_read result" where
  "read_reading x =
     (case validate_meter_reading (reading_base x) of Inl e \<Rightarrow> Inl e | Inr _ \<Rightarrow> Inr (reading_view x))"

text \<open>
  A read model over the model of its command: it shows exactly the rows whose inherited fields
  the command model accepts.
\<close>

locale read_model = validated validate ok
  for validate :: "'c \<Rightarrow> 'c result" and ok :: "'c \<Rightarrow> bool" +
  fixes base :: "'x \<Rightarrow> 'c" and view :: "'x \<Rightarrow> 'm" and read :: "'x \<Rightarrow> 'm result"
  assumes reads: "read x = (case validate (base x) of Inl e \<Rightarrow> Inl e | Inr _ \<Rightarrow> Inr (view x))"
begin

lemma shown: "validate (base x) = Inr c \<Longrightarrow> read x = Inr (view x)"
  by (simp add: reads)

lemma read_Inr: "read x = Inr m \<Longrightarrow> m = view x \<and> validate (base x) = Inr (base x) \<and> ok (base x)"
  using returns [of "base x"] by (auto simp: reads split: sum.splits)

lemma refused: "read x = Inl e \<Longrightarrow> \<exists>m. e = ValueError m"
  using raises [of "base x"] by (auto simp: reads split: sum.splits)

end

interpretation rd_asset: read_model validate_asset
  "\<lambda>c. 0 < dec_val (ac_capacity_kw c) \<and> dec_val (numeric6 (ac_capacity_kw c)) = dec_val (ac_capacity_kw c)"
  asset_base asset_view read_asset
  by unfold_locales (rule read_asset_def)

interpretation rd_offer: read_model validate_offer
  "\<lambda>c. window_ok (oc_window_start c) (oc_window_end c) \<and> 0 < dec_val (oc_quantity_kw c) \<and>
     dec_val (numeric6 (oc_quantity_kw c)) = dec_val (oc_quantity_kw c) \<and>
     0 \<le> dec_val (oc_price_per_kwh c) \<and>
     dec_val (numeric6 (oc_price_per_kwh c)) = dec_val (oc_price_per_kwh c)"
  offer_base offer_view read_offer
  by unfold_locales (rule read_offer_def)

interpretation rd_dispatch: read_model validate_dispatch
  "\<lambda>c. window_ok (dc_starts_at c) (dc_ends_at c) \<and> 0 < dec_val (dc_target_kw c) \<and>
     dec_val (numeric6 (dc_target_kw c)) = dec_val (dc_target_kw c)"
  dispatch_base dispatch_view read_dispatch
  by unfold_locales (rule read_dispatch_def)

interpretation rd_reading: read_model validate_meter_reading
  "\<lambda>c. window_ok (mc_interval_start c) (mc_interval_end c) \<and> 0 \<le> dec_val (mc_energy_kwh c) \<and>
     dec_val (numeric6 (mc_energy_kwh c)) = dec_val (mc_energy_kwh c)"
  reading_base reading_view read_reading
  by unfold_locales (rule read_reading_def)

section \<open>The answer of a route\<close>

text \<open>
  A session keeps the objects it created as they were given (\<open>expire_on_commit=False\<close>); a row that
  was there before is loaded, and \<open>aware\<close> says whether the backend returns timestamps with an
  offset: PostgreSQL does, SQLite does not.
\<close>

definition loaded_time :: "bool \<Rightarrow> datetime \<Rightarrow> datetime" where
  "loaded_time aware t = (if aware then t else t\<lparr>tzoff := None\<rparr>)"

definition loaded_reservation :: "bool \<Rightarrow> reservation \<Rightarrow> reservation" where
  "loaded_reservation aware x = x\<lparr>rsv_created_at := loaded_time aware (rsv_created_at x)\<rparr>"

definition loaded_dispatch :: "bool \<Rightarrow> dispatch \<Rightarrow> dispatch" where
  "loaded_dispatch aware x = x\<lparr>dsp_starts_at := loaded_time aware (dsp_starts_at x),
     dsp_ends_at := loaded_time aware (dsp_ends_at x),
     dsp_created_at := loaded_time aware (dsp_created_at x)\<rparr>"

definition loaded_reading :: "bool \<Rightarrow> meter_reading \<Rightarrow> meter_reading" where
  "loaded_reading aware x = x\<lparr>mtr_interval_start := loaded_time aware (mtr_interval_start x),
     mtr_interval_end := loaded_time aware (mtr_interval_end x),
     mtr_received_at := loaded_time aware (mtr_received_at x)\<rparr>"

definition loaded_settlement :: "bool \<Rightarrow> settlement \<Rightarrow> settlement" where
  "loaded_settlement aware x = x\<lparr>stl_created_at := loaded_time aware (stl_created_at x)\<rparr>"

definition in_session :: "('x \<Rightarrow> string) \<Rightarrow> 'x list \<Rightarrow> ('x \<Rightarrow> 'x) \<Rightarrow> 'x \<Rightarrow> 'x" where
  "in_session key rows load x = (if key x \<in> key ` set rows then load x else x)"

datatype body =
    AssetBody asset_read | OfferBody offer_read | ReservationBody reservation_read
  | DispatchBody dispatch_read | ReadingBody meter_reading_read | SettlementBody settlement_read
  | EvidenceBody evidence_read | AuditBody audit_verification_read | OutboxBody outbox_health_read

definition as_body :: "('m \<Rightarrow> body) \<Rightarrow> 'm result \<Rightarrow> body result" where
  "as_body mk r = (case r of Inl e \<Rightarrow> Inl e | Inr m \<Rightarrow> Inr (mk m))"

fun read_resource :: "bool \<Rightarrow> db \<Rightarrow> resource \<Rightarrow> body result" where
  "read_resource aware s (AssetRes x) = as_body AssetBody (read_asset x)"
| "read_resource aware s (OfferRes x) = as_body OfferBody (read_offer x)"
| "read_resource aware s (ReservationRes x) = Inr (ReservationBody (reservation_view
     (in_session rsv_id (reservations s) (loaded_reservation aware) x)))"
| "read_resource aware s (DispatchRes x) = as_body DispatchBody (read_dispatch
     (in_session dsp_id (dispatches s) (loaded_dispatch aware) x))"
| "read_resource aware s (ReadingRes x) = as_body ReadingBody (read_reading
     (in_session mtr_id (readings s) (loaded_reading aware) x))"
| "read_resource aware s (SettlementRes x) = Inr (SettlementBody (settlement_view
     (in_session stl_id (settlements s) (loaded_settlement aware) x)))"
| "read_resource aware s (EvidenceRes x) = Inr (EvidenceBody (evidence_view x))"
| "read_resource aware s (AuditRes x) = Inr (AuditBody (audit_view x))"
| "read_resource aware s (OutboxRes x) = Inr (OutboxBody (outbox_view x))"

text \<open>A refused body is a server error; the other answers have their text already.\<close>

datatype answer =
    Body nat body
  | Other response

definition answer :: "bool \<Rightarrow> db \<Rightarrow> response \<Rightarrow> answer" where
  "answer aware s resp = (case resp of
     Reply st r \<Rightarrow> (case read_resource aware s r of Inl e \<Rightarrow> Other (problem e) | Inr b \<Rightarrow> Body st b)
   | _ \<Rightarrow> Other resp)"

definition exchange ::
  "bool \<Rightarrow> jwt_lib \<Rightarrow> settings \<Rightarrow> env \<Rightarrow> draws \<Rightarrow> headers \<Rightarrow> request \<Rightarrow> db \<Rightarrow> answer \<times> db" where
  "exchange aware L c E d h req s =
     (let (resp, s') = handle L c E d h req s in (answer aware s resp, s'))"

text \<open>What a body shows of each resource.\<close>

fun body_of :: "resource \<Rightarrow> body" where
  "body_of (AssetRes x) = AssetBody (asset_view x)"
| "body_of (OfferRes x) = OfferBody (offer_view x)"
| "body_of (ReservationRes x) = ReservationBody (reservation_view x)"
| "body_of (DispatchRes x) = DispatchBody (dispatch_view x)"
| "body_of (ReadingRes x) = ReadingBody (reading_view x)"
| "body_of (SettlementRes x) = SettlementBody (settlement_view x)"
| "body_of (EvidenceRes x) = EvidenceBody (evidence_view x)"
| "body_of (AuditRes x) = AuditBody (audit_view x)"
| "body_of (OutboxRes x) = OutboxBody (outbox_view x)"

section \<open>Stored rows can be shown\<close>

text \<open>A stored dispatch and a stored reading satisfy the model of the command they came from.\<close>

definition displayable :: "db \<Rightarrow> bool" where
  "displayable s \<longleftrightarrow> (\<forall>x\<in>set (dispatches s). validate_dispatch (dispatch_base x) = Inr (dispatch_base x)) \<and>
     (\<forall>x\<in>set (readings s). validate_meter_reading (reading_base x) = Inr (reading_base x))"

lemma abs_val: "dec_val (Dec False (dcoef d) (dexp d)) = \<bar>dec_val d\<bar>"
  by (cases d) (simp add: dec_val_def dsig_def abs_mult)

lemma digits_numeric6: "digits_18_6 d \<Longrightarrow> digits_18_6 (numeric6 d)"
  using abs_val [of d] abs_val [of "numeric6 d"] dec_val_numeric6 [of d]
  by (simp add: digits_18_6_def dec_less_val six_places_def)

lemma field_numeric6:
  "positive_field d \<Longrightarrow> positive_field (numeric6 d)" "nonneg_field d \<Longrightarrow> nonneg_field (numeric6 d)"
  using dec_val_numeric6 [of d] digits_numeric6 [of d]
  by (simp_all add: positive_field_def nonneg_field_def dec_less_val dec_le_val digits_18_6_def)

lemma stored_dispatch:
  assumes "validate_dispatch c = Inr c'" "dispatch_base x = c"
  shows "validate_dispatch (dispatch_base (store_dispatch x)) = Inr (dispatch_base (store_dispatch x))"
  using assms
  by (auto simp: validate_dispatch_def validate_window_ok store_dispatch_def dispatch_base_def field_numeric6
      split: if_splits)

lemma stored_reading:
  assumes "validate_meter_reading c = Inr c'" "reading_base x = c"
  shows "validate_meter_reading (reading_base (store_reading x)) = Inr (reading_base (store_reading x))"
  using assms
  by (auto simp: validate_meter_reading_def validate_window_ok store_reading_def reading_base_def field_numeric6
      split: if_splits)

lemma dispatch_base_terms: "dispatch_terms x = dispatch_terms y \<Longrightarrow> dispatch_base x = dispatch_base y"
  by (simp add: dispatch_terms_def dispatch_base_def)

lemma displayable_same:
  assumes "displayable s" "map dispatch_terms (dispatches s') = map dispatch_terms (dispatches s)"
    "readings s' = readings s"
  shows "displayable s'"
proof -
  have "validate_dispatch (dispatch_base x) = Inr (dispatch_base x)" if x: "x \<in> set (dispatches s')" for x
  proof -
    from map_eq_image [OF assms(2) x] obtain y where "y \<in> set (dispatches s)" "dispatch_terms x = dispatch_terms y"
      by auto
    with assms(1) show ?thesis by (simp add: displayable_def dispatch_base_terms [of x y])
  qed
  with assms(1,3) show ?thesis by (simp add: displayable_def)
qed

lemma displayable_terms: "same_terms s s' \<Longrightarrow> displayable s \<Longrightarrow> displayable s'"
  by (rule displayable_same) (simp_all add: same_terms_def)

lemma displayable_issue:
  assumes "issue_dispatch E d rid c a key s = (Inr x, s')" "validate_dispatch c0 = Inr c" "displayable s"
  shows "displayable s'"
proof (cases "idem_lookup ''issue_dispatch'' key s")
  case None
  from assms(1) None show ?thesis
  proof (rule issue_dispatch_fresh, goal_cases)
    case (1 rsv ofr ast m e i)
    have "validate_dispatch c = Inr c" using assms(2) by (rule val_dispatch.idempotent)
    then have "validate_dispatch (dispatch_base (store_dispatch x)) = Inr (dispatch_base (store_dispatch x))"
      by (rule stored_dispatch) (simp add: 1(10) dispatch_base_def)
    with assms(3) 1(15) show ?case by (simp add: displayable_def)
  qed
next
  case (Some r)
  with issue_dispatch_replay [OF Some assms(1)] assms(3) show ?thesis by simp
qed

lemma displayable_reading:
  assumes "record_meter_reading E d c a s = (Inr x, s')" "validate_meter_reading c0 = Inr c" "displayable s"
  shows "displayable s'"
  using assms(1)
proof (cases rule: reading_elim)
  case replay
  with assms(3) show ?thesis by simp
next
  case (fresh ast e)
  have "validate_meter_reading c = Inr c" using assms(2) by (rule val_reading.idempotent)
  then have "validate_meter_reading (reading_base (store_reading x)) = Inr (reading_base (store_reading x))"
    by (rule stored_reading) (simp add: fresh(4) reading_base_def)
  with assms(3) fresh(6) show ?thesis by (simp add: displayable_def)
qed

lemma same_asset: "register_asset E d c a s = (Inr x, s') \<Longrightarrow> displayable s \<Longrightarrow> displayable s'"
  by (erule register_asset_elim) (simp add: displayable_def)

lemma same_offer: "create_offer E d c a s = (Inr x, s') \<Longrightarrow> displayable s \<Longrightarrow> displayable s'"
  by (erule create_offer_elim) (simp add: displayable_def)

lemma displayable_reserve:
  assumes "reserve_offer E d i c a key s = (Inr x, s')" "displayable s"
  shows "displayable s'"
proof (cases "idem_lookup ''reserve_offer'' key s")
  case None
  from assms(1) None show ?thesis by (rule reserve_offer_fresh) (use assms(2) in \<open>simp add: displayable_def\<close>)
next
  case (Some r)
  with reserve_offer_replay [OF Some assms(1)] assms(2) show ?thesis by simp
qed

lemma displayable_settle:
  assumes "settle_reservation E d i a key s = (Inr x, s')" "displayable s"
  shows "displayable s'"
proof (cases "idem_lookup ''settle_reservation'' key s")
  case None
  from assms(1) None show ?thesis
    by (rule settle_reservation_fresh)
      (rule displayable_same [OF assms(2)], simp_all add: keeps_terms keeps_defs)
next
  case (Some r)
  with settle_reservation_replay [OF Some assms(1)] assms(2) show ?thesis by simp
qed

text \<open>An operation that raises leaves the database alone, so only its results matter.\<close>

lemma displayable_result:
  assumes "atomic_operation run" "displayable s" "\<And>x s'. run s = (Inr x, s') \<Longrightarrow> displayable s'"
  shows "displayable (snd (run s))"
proof (cases "run s")
  case (Pair r s')
  then show ?thesis using assms atomic_operation.undone [OF assms(1)] by (cases r) auto
qed

lemma displayable_serve: "displayable s \<Longrightarrow> displayable (snd (serve E d a req s))"
  by (cases req)
    (auto simp: with_valid_def with_key_def render_def split: sum.split option.split
      intro!: displayable_result [OF at_asset.atomic_operation_axioms] displayable_result [OF at_offer.atomic_operation_axioms]
        displayable_result [OF at_reserve.atomic_operation_axioms] displayable_result [OF at_dispatch.atomic_operation_axioms]
        displayable_result [OF at_reading.atomic_operation_axioms] displayable_result [OF at_settle.atomic_operation_axioms]
      intro: same_asset same_offer displayable_reserve displayable_issue displayable_reading displayable_settle)

interpretation sys_displayable: invariant "step E" "\<lambda>p. displayable (store p)" for E
proof unfold_locales
  fix p q
  assume s: "step E p q" and ok: "displayable (store p)"
  from s show "displayable (store q)"
  proof (cases rule: step.cases)
    case (Serve d a req resp s')
    then show ?thesis using displayable_serve [OF ok, of E d a req] by simp
  next
    case (Redrive d a mid did reason r s')
    then show ?thesis
      using ok by (cases r) (auto dest: authorize_redrive_Inl same_terms_redrive displayable_terms)
  next
    case (Claim w d c s')
    then show ?thesis using ok by (auto dest: same_terms_claim displayable_terms)
  next
    case (Published c w d reference r s')
    then show ?thesis
      using ok by (cases r; cases "r = Inr True")
        (auto dest: at_success.undone same_terms_success displayable_terms record_success_False)
  next
    case (Failed c w d exc r s')
    then show ?thesis
      using ok by (cases r) (auto dest: at_failure.undone same_terms_failure displayable_terms)
  next
    case (Crash c)
    then show ?thesis using ok by simp
  qed
qed

lemma reach_displayable: "reach (step E) start p \<Longrightarrow> displayable (store p)"
  using sys_displayable.always [of E start p] by (simp add: displayable_def start_def empty_db_def)

section \<open>Every resource of an operation can be shown\<close>

lemma loaded_aware [simp]:
  "loaded_reservation True x = x" "loaded_dispatch True y = y" "loaded_reading True z = z"
  "loaded_settlement True w = w" "in_session key rows (\<lambda>v. v) v = v"
  by (simp_all add: loaded_reservation_def loaded_dispatch_def loaded_reading_def loaded_settlement_def
      loaded_time_def in_session_def)

lemma in_session_aware [simp]:
  "in_session key rows (loaded_reservation True) x = x" "in_session key' rows' (loaded_dispatch True) y = y"
  "in_session key2 rows2 (loaded_reading True) z = z" "in_session key3 rows3 (loaded_settlement True) w = w"
  by (simp_all add: in_session_def)

lemma shown_asset:
  assumes "register_asset E d c a s = (Inr x, s')" "validate_asset c0 = Inr c"
  shows "read_asset x = Inr (asset_view x)"
  using assms(1)
proof (rule register_asset_elim, goal_cases)
  case 1
  then have "asset_base x = c" by (simp add: asset_base_def)
  then show ?case using val_asset.idempotent [OF assms(2)] by (intro rd_asset.shown) simp
qed

lemma shown_offer:
  assumes "create_offer E d c a s = (Inr x, s')" "validate_offer c0 = Inr c"
  shows "read_offer x = Inr (offer_view x)"
  using assms(1)
proof (rule create_offer_elim, goal_cases)
  case (1 ast e)
  then have "offer_base x = c" by (simp add: offer_base_def)
  then show ?case using val_offer.idempotent [OF assms(2)] by (intro rd_offer.shown) simp
qed

lemma shown_dispatch:
  assumes "issue_dispatch E d rid c a key s = (Inr x, s')" "validate_dispatch c0 = Inr c" "displayable s"
  shows "read_dispatch x = Inr (dispatch_view x)"
proof (cases "idem_lookup ''issue_dispatch'' key s")
  case None
  from assms(1) None show ?thesis
  proof (rule issue_dispatch_fresh, goal_cases)
    case 1
    then have "dispatch_base x = c" by (simp add: dispatch_base_def)
    then show ?case using val_dispatch.idempotent [OF assms(2)] by (intro rd_dispatch.shown) simp
  qed
next
  case (Some r)
  have "x \<in> set (dispatches s)" using issue_dispatch_replay [OF Some assms(1)] by (auto dest: lookup_Some)
  with assms(3) show ?thesis by (auto simp: displayable_def intro: rd_dispatch.shown)
qed

lemma shown_reading:
  assumes "record_meter_reading E d c a s = (Inr x, s')" "validate_meter_reading c0 = Inr c" "displayable s"
  shows "read_reading x = Inr (reading_view x)"
  using assms(1)
proof (cases rule: reading_elim)
  case replay
  with assms(3) show ?thesis by (auto simp: displayable_def intro: rd_reading.shown)
next
  case (fresh ast e)
  then have "reading_base x = c" by (simp add: reading_base_def)
  then show ?thesis using val_reading.idempotent [OF assms(2)] by (intro rd_reading.shown) simp
qed

lemma render_Reply:
  "render st mk rs = (Reply st' r, s') \<longleftrightarrow> st' = st \<and> (\<exists>x. rs = (Inr x, s') \<and> r = mk x)"
  by (cases rs) (auto simp: render_def problem_def split: sum.splits option.splits)

lemma with_valid_Reply:
  "with_valid v k s = (Reply st r, s') \<longleftrightarrow> (\<exists>c. v = Inr c \<and> k c = (Reply st r, s'))"
  by (auto simp: with_valid_def split: sum.splits)

lemma with_key_Reply:
  "with_key key k s = (Reply st r, s') \<longleftrightarrow> (\<exists>i. key = Some i \<and> k i = (Reply st r, s'))"
  by (auto simp: with_key_def split: option.splits)

lemmas reply_simps = render_Reply with_valid_Reply with_key_Reply

lemma shown_serve:
  assumes "serve E d a req s = (Reply st r, s')" "displayable s"
  shows "read_resource True s r = Inr (body_of r)"
  using assms
  by (cases req)
    (auto simp: reply_simps as_body_def shown_asset shown_offer shown_dispatch shown_reading)

end
