(* ===== verification/PropertiesService.thy ===== *)
theory PropertiesService
  imports Scenario Idempotency Evidence Responses
begin

text \<open>
  The properties of the service, its arithmetic and its door: what is settled, who may do what,
  what a failed request leaves behind, what a token must show, and what a re-drive does.
\<close>

section \<open>Settlement arithmetic\<close>

lemma dec_add_scaled: "a + b < 10 ^ PREC \<Longrightarrow> dec_add (Dec False a e) (Dec False b e) = Dec False (a + b) e"
  by (simp add: dec_add_def dsig_at_def dsig_def Let_def dec_fix_exact nat_add_distrib [symmetric])
    (metis dec_fix_exact decimal.sel(2) nat_int of_nat_add)

lemma dec_sum_scaled:
  assumes "\<forall>d\<in>set ds. \<not> dneg d \<and> dexp d = - 6" "ds \<noteq> []" "sum_list (map dcoef ds) < 10 ^ PREC"
  shows "dec_sum ds = Dec False (sum_list (map dcoef ds)) (- 6)"
proof -
  have acc: "foldl dec_add (Dec False n (- 6)) ds = Dec False (n + sum_list (map dcoef ds)) (- 6)"
    if "\<forall>d\<in>set ds. \<not> dneg d \<and> dexp d = - 6" "n + sum_list (map dcoef ds) < 10 ^ PREC" for n ds
    using that
  proof (induction ds arbitrary: n)
    case (Cons d ds)
    obtain c where d: "d = Dec False c (- 6)" using Cons.prems(1) by (cases d) auto
    have "dec_add (Dec False n (- 6)) d = Dec False (n + c) (- 6)"
      unfolding d by (rule dec_add_scaled) (use Cons.prems(2) d in simp)
    with Cons.IH [of "n + c"] Cons.prems d show ?case by (simp add: add.assoc)
  qed simp
  obtain d es where ds: "ds = d # es" using assms(2) by (cases ds) auto
  obtain c where d: "d = Dec False c (- 6)" using assms(1) ds by (cases d) auto
  have "dec_add (Dec False 0 0) d = Dec False c (- 6)"
    using assms(3) by (simp add: d ds dec_add_def dsig_at_def dsig_def Let_def dec_fix_exact)
  with acc [of es c] assms ds d show ?thesis by (simp add: dec_sum_def)
qed

lemma quantize_small:
  assumes "n < 10 ^ 28"
  shows "\<exists>amount. dec_quantize ROUND_HALF_UP MONEY_QUANTUM (Dec False n (- 12)) = Inr amount"
proof -
  have "n div 10 ^ 6 < 10 ^ 27" using assms by (simp add: less_mult_imp_div_less)
  then have "round_div ROUND_HALF_UP n (10 ^ 6) < 10 ^ Suc 27"
    by (simp add: round_div_def Let_def)
  then have "length (show_nat (round_div ROUND_HALF_UP n (10 ^ 6))) \<le> 28"
    using show_nat_length_le [of _ 27] by simp
  then show ?thesis by (simp add: dec_quantize_def MONEY_QUANTUM_def PREC_def Let_def)
qed

text \<open>C23: The settled amount is computed without losing energy and rounded once.  Readings and prices
  are stored non-negative with six decimal places.  As long as the sum of the readings, and its
  product with the price, fit the 28 digits of the decimal context, the delivered energy is their
  exact sum, and the amount is at most half a quantum away from energy times price and is not
  negative.\<close>

theorem settled_amount_exact:
  assumes "\<forall>d\<in>set ds. \<not> dneg d \<and> dexp d = - 6" "ds \<noteq> []" "sum_list (map dcoef ds) < 10 ^ 28"
    and "\<not> dneg price" "dexp price = - 6" "sum_list (map dcoef ds) * dcoef price < 10 ^ 28"
  shows "\<exists>q amount. delivered_energy ds = Inr q \<and> dec_val q = sum_list (map dec_val ds) \<and>
     settlement_amount q price = Inr amount \<and>
     \<bar>dec_val amount - sum_list (map dec_val ds) * dec_val price\<bar> \<le> 1 / 2000000 \<and> 0 \<le> dec_val amount"
proof -
  let ?n = "sum_list (map dcoef ds)" and ?q = "Dec False (sum_list (map dcoef ds)) (- 6)"
  have s: "dec_sum ds = ?q"
    by (rule dec_sum_scaled) (use assms in \<open>simp_all add: PREC_def\<close>)
  have "length (show_nat ?n) \<le> PREC"
    using show_nat_length_le [of ?n 27] assms(3) by (simp add: PREC_def)
  then have d: "delivered_energy ds = Inr ?q"
    by (simp add: delivered_energy_def s dec_quantize_def MONEY_QUANTUM_def Let_def)
  have "sum_list (map dec_val ds) = of_nat ?n * 10 powi - 6"
    using assms(1) by (induction ds) (auto simp: dec_val_def dsig_def algebra_simps)
  then have v: "dec_val ?q = sum_list (map dec_val ds)" by (simp add: dec_val_def dsig_def)
  have m: "dec_mul ?q price = Dec False (?n * dcoef price) (- 12)"
    using assms(4-6) by (simp add: dec_mul_def dec_fix_exact PREC_def)
  obtain amount where a: "settlement_amount ?q price = Inr amount"
    unfolding settlement_amount_def m using quantize_small assms(6) by blast
  note sh = dec_quantize_shape [OF a [unfolded settlement_amount_def]]
  have "dec_val (dec_mul ?q price) = dec_val ?q * dec_val price"
    by (rule dec_val_mul) (use assms(6) in \<open>simp add: PREC_def\<close>)
  with dec_quantize_error [OF a [unfolded settlement_amount_def]]
  have "\<bar>dec_val amount - dec_val ?q * dec_val price\<bar> \<le> 1 / 2000000" by (simp add: MONEY_QUANTUM_def)
  moreover have "0 \<le> dec_val amount" using sh m by (simp add: dec_val_def dsig_def)
  ultimately show ?thesis using d a v by auto
qed

theorem settled_amount_exact_witness:
  "\<exists>q amount. delivered_energy [Dec False 24500000 (- 6)] = Inr q \<and>
     settlement_amount q (Dec False 500000 (- 6)) = Inr amount \<and>
     \<bar>dec_val amount - dec_val (Dec False 24500000 (- 6)) * dec_val (Dec False 500000 (- 6))\<bar> \<le> 1 / 2000000"
  using settled_amount_exact [of "[Dec False 24500000 (- 6)]" "Dec False 500000 (- 6)"] by auto

section \<open>The door\<close>

text \<open>C24: A request that is not answered 201 changes nothing: every refusal, by validation, role,
  conflict, missing resource or constraint of the database, and every query leaves the whole
  database as it was.\<close>

theorem only_created_changes_state:
  assumes "handle L c E d h req s = (resp, s')" "\<nexists>x. resp = Reply 201 x"
  shows "s' = s"
  using assms serve_error_unchanged [of E d _ req s resp s']
  by (auto simp: handle_def split: sum.splits)

definition dev :: settings where
  "dev = from_environment (\<lambda>_. None)"

definition no_jwt :: jwt_lib where
  "no_jwt = \<lparr>unverified_header = (\<lambda>_. Inl (OtherError ''DecodeError'' ''no token'')),
     jwt_decode = (\<lambda>_ _ _ _ _ _. Inl (OtherError ''DecodeError'' ''no token'')),
     is_invalid_token = (\<lambda>_. True), jwks_loads = (\<lambda>_. None)\<rparr>"

definition dev_headers :: "actor \<Rightarrow> headers" where
  "dev_headers a = \<lparr>hdr_authorization = None, hdr_actor_id = Some (actor_id a),
     hdr_actor_role = Some (actor_role a)\<rparr>"

lemma dev_actor [simp]: "get_actor no_jwt dev (dev_headers a) = Inr a"
  by (simp add: get_actor_def dev_def from_environment_def getenv_default_def dev_headers_def)

theorem only_created_changes_state_witness:
  "snd (handle no_jwt dev E0 (D 1) (dev_headers operator) (RegisterAsset asset_cmd) empty_db) = empty_db"
proof -
  have r: "fst (handle no_jwt dev E0 (D 1) (dev_headers operator) (RegisterAsset asset_cmd) empty_db) =
      Problem 403 ''forbidden'' (exn_text (projl (require_role operator [ASSET_OWNER])))"
    by (simp add: handle_def with_valid_def render_def register_asset_def require_role_def recovery_operator_def
        problem_def)
  show ?thesis by (rule only_created_changes_state [OF prod.collapse [symmetric]])
    (simp add: r del: One_nat_def)
qed

text \<open>The role each request needs.\<close>

fun needed_roles :: "request \<Rightarrow> actor_role set" where
  "needed_roles (RegisterAsset _) = {ASSET_OWNER}"
| "needed_roles (CreateOffer _) = {ASSET_OWNER}"
| "needed_roles (ReserveOffer _ _ _) = {MARKET_OPERATOR}"
| "needed_roles (IssueDispatch _ _ _) = {MARKET_OPERATOR}"
| "needed_roles (RecordReading _) = {ASSET_OWNER, SYSTEM}"
| "needed_roles (SettleReservation _ _) = {SETTLEMENT_ANALYST}"
| "needed_roles (GetEvidence _) = {AUDITOR, MARKET_OPERATOR, SETTLEMENT_ANALYST}"
| "needed_roles VerifyAudit = {AUDITOR}"
| "needed_roles OutboxHealth = {AUDITOR, MARKET_OPERATOR}"

text \<open>C25: Every route enforces its role: a request is answered with a resource, and so can change
  anything, only when the role of its actor is one of the roles of that route.\<close>

theorem every_route_needs_its_role:
  assumes "serve E d a req s = (Reply st x, s')"
  shows "actor_role a \<in> needed_roles req"
  using assms
  by (cases req)
    (auto simp: with_valid_def with_key_def render_def problem_def register_asset_def create_offer_def
      reserve_offer_def issue_dispatch_def record_meter_reading_def settle_reservation_def
      settlement_evidence_def service_audit_verification_def outbox_health_def
      split: sum.splits option.splits if_splits)

theorem every_route_needs_its_role_witness:
  "\<exists>x s'. serve E0 (D 1) owner (RegisterAsset asset_cmd) empty_db = (Reply 201 x, s') \<and>
     actor_role owner \<in> needed_roles (RegisterAsset asset_cmd)"
proof -
  obtain x es where "register_asset E0 (D 1) asset_cmd owner empty_db = (Inr x, S1 es)"
    using run1 by blast
  then have r: "serve E0 (D 1) owner (RegisterAsset asset_cmd) empty_db = (Reply 201 (AssetRes x), S1 es)"
    by (simp add: with_valid_def render_def del: One_nat_def)
  from every_route_needs_its_role [OF r] r show ?thesis by blast
qed

lemma accepted_token_is_pinned:
  assumes "verify_oidc_actor L token c = Inr a"
  shows "\<exists>header algorithm kid keys key claims.
     unverified_header L token = Inr header \<and> jget header ''alg'' = JStr algorithm \<and>
     algorithm \<in> {''RS256'', ''ES256''} \<and> jget header ''kid'' = JStr kid \<and>
     load_keys L (cfg_jwks_json c) = Inr keys \<and> map_of keys kid = Some key \<and>
     jget key ''alg'' \<in> {JNull, JStr algorithm} \<and>
     jwt_decode L token key algorithm (cfg_audience c) (cfg_issuer c)
       [''exp'', ''iat'', cfg_subject_claim c, cfg_role_claim c] = Inr claims \<and>
     jget claims (cfg_subject_claim c) = JStr (actor_id a) \<and> \<not> blank (actor_id a) \<and>
     jget claims (cfg_role_claim c) \<in>
       {JStr (role_value (actor_role a)), JArr [JStr (role_value (actor_role a))]}"
  using assms
  by (rule verify_oidc_actor_Inr)
    (intro exI conjI; (assumption | simp add: ALLOWED_ALGORITHMS_def resolve_role_Inr))

text \<open>C26: Outside development no request acts on asserted headers.  Once the settings pass the startup
  check, a resource is only returned to the actor of a bearer token, whatever actor headers the
  request carries; and that token was bound to the pinned trust: its algorithm is one of the two
  allowed, its key was found in the configured key set under its identifier and does not name
  another algorithm, the library decoded it with that key and the configured audience and issuer,
  demanding expiry, issue time, subject and role, and the actor is exactly its subject in exactly
  one known role.\<close>

theorem production_acts_on_verified_token:
  assumes "validate_runtime c = Inr ()" "environment c \<noteq> ''development''" "environment c \<noteq> ''test''"
    and "handle L c E d h req s = (Reply st x, s')"
  shows "\<exists>authorization token header algorithm kid keys key tokens a.
     hdr_authorization h = Some authorization \<and> prefix ''Bearer '' authorization \<and>
     token = strip (drop 7 authorization) \<and>
     unverified_header L token = Inr header \<and> jget header ''alg'' = JStr algorithm \<and>
     algorithm \<in> {''RS256'', ''ES256''} \<and> jget header ''kid'' = JStr kid \<and>
     load_keys L (oidc_jwks_json c) = Inr keys \<and> map_of keys kid = Some key \<and>
     jget key ''alg'' \<in> {JNull, JStr algorithm} \<and>
     jwt_decode L token key algorithm (oidc_audience c) (oidc_issuer c)
       [''exp'', ''iat'', oidc_subject_claim c, oidc_role_claim c] = Inr tokens \<and>
     jget tokens (oidc_subject_claim c) = JStr (actor_id a) \<and> \<not> blank (actor_id a) \<and>
     jget tokens (oidc_role_claim c) \<in>
       {JStr (role_value (actor_role a)), JArr [JStr (role_value (actor_role a))]} \<and>
     serve E d a req s = (Reply st x, s')"
proof -
  have "auth_mode c = ''oidc''"
    by (rule validate_runtime_Inr [OF assms(1)]) (use assms(2,3) in \<open>simp add: SAFE_ENVIRONMENTS_def\<close>)
  moreover obtain a where a: "get_actor L c h = Inr a" "serve E d a req s = (Reply st x, s')"
    using assms(4) by (auto simp: handle_def problem_def split: sum.splits option.splits)
  moreover have "BEARER = ''Bearer ''" "length BEARER = 7" by (simp_all add: BEARER_def)
  ultimately obtain authorization where h: "hdr_authorization h = Some authorization"
      "prefix ''Bearer '' authorization"
    and v: "verify_oidc_actor L (strip (drop 7 authorization))
       \<lparr>cfg_issuer = oidc_issuer c, cfg_audience = oidc_audience c, cfg_jwks_json = oidc_jwks_json c,
        cfg_role_claim = oidc_role_claim c, cfg_subject_claim = oidc_subject_claim c\<rparr> = Inr a"
    by (auto simp: get_actor_def Let_def split: option.splits if_splits)
  from accepted_token_is_pinned [OF v] h a(2) show ?thesis by simp blast
qed

text \<open>A library that accepts one token, and the settings of a deployment that trusts it.\<close>

definition one_token :: jwt_lib where
  "one_token = \<lparr>
     unverified_header = (\<lambda>t. if t = ''tok'' then Inr [(''alg'', JStr ''RS256''), (''kid'', JStr ''k1'')]
       else Inl (OtherError ''DecodeError'' ''bad token'')),
     jwt_decode = (\<lambda>t key alg aud iss req. Inr [(''sub'', JStr ''auditor-1''), (''energy_flex_role'', JStr ''auditor'')]),
     is_invalid_token = (\<lambda>_. True),
     jwks_loads = (\<lambda>_. Some (JObj [(''keys'', JArr [JObj [(''kid'', JStr ''k1''), (''alg'', JStr ''RS256'')]])]))\<rparr>"

definition prod :: settings where
  "prod = from_environment (map_of [(''APP_ENV'', ''production''), (''AUTH_MODE'', ''oidc''),
     (''OIDC_ISSUER'', ''https://idp''), (''OIDC_AUDIENCE'', ''flex''), (''OIDC_JWKS_JSON'', ''{}'')])"

definition prod_oidc :: oidc_config where
  "prod_oidc = \<lparr>cfg_issuer = oidc_issuer prod, cfg_audience = oidc_audience prod,
     cfg_jwks_json = oidc_jwks_json prod, cfg_role_claim = oidc_role_claim prod,
     cfg_subject_claim = oidc_subject_claim prod\<rparr>"

definition auditor :: actor where
  "auditor = \<lparr>actor_id = ''auditor-1'', actor_role = AUDITOR\<rparr>"

lemma token_accepted: "verify_oidc_actor one_token ''tok'' prod_oidc = Inr auditor"
  by (simp add: verify_oidc_actor_def prod_oidc_def prod_def from_environment_def getenv_default_def
      validate_config_def one_token_def jget_def check_algorithm_def ALLOWED_ALGORITHMS_def load_keys_def
      blank_iff is_space_def resolve_role_def role_of_value_def ALL_ROLES_def auditor_def)

definition bearer_headers :: headers where
  "bearer_headers = \<lparr>hdr_authorization = Some ''Bearer tok'', hdr_actor_id = Some ''mallory'',
     hdr_actor_role = Some MARKET_OPERATOR\<rparr>"

theorem production_acts_on_verified_token_witness:
  "\<exists>a header algorithm. serve E0 (D 1) a VerifyAudit empty_db = (Reply 200 (AuditRes (verify_chain E0 empty_db)), empty_db) \<and>
     unverified_header one_token (strip ''tok'') = Inr header \<and> jget header ''alg'' = JStr algorithm \<and>
     algorithm \<in> {''RS256'', ''ES256''} \<and> \<not> blank (actor_id a)"
proof -
  have "strip ''tok'' = ''tok''" by (simp add: strip_def is_space_def)
  then have "get_actor one_token prod bearer_headers = Inr auditor"
    using token_accepted
    by (simp add: get_actor_def bearer_headers_def BEARER_def prod_oidc_def)
      (simp add: prod_def from_environment_def getenv_default_def)
  then have h: "handle one_token prod E0 (D 1) bearer_headers VerifyAudit empty_db =
      (Reply 200 (AuditRes (verify_chain E0 empty_db)), empty_db)"
    by (simp add: handle_def render_def service_audit_verification_def require_role_def auditor_def)
  have v: "validate_runtime prod = Inr ()" "environment prod \<noteq> ''development''" "environment prod \<noteq> ''test''"
    by (simp_all add: validate_runtime_def prod_def from_environment_def getenv_default_def
        SAFE_ENVIRONMENTS_def)
  from production_acts_on_verified_token [OF v h] show ?thesis
    by (simp add: bearer_headers_def) blast
qed

section \<open>Responses\<close>

text \<open>C27: Success is never hidden by its own response.  On a backend that returns timestamps with their
  offset, in every reachable state, a request whose operation succeeded is answered with the body of
  its resource, for first answers and for replays alike: the bounds and windows the read models check
  again always hold, so no committed change ends in a server error.\<close>

theorem successes_are_shown:
  assumes "reach (step E) start p" "handle L c E d h req (store p) = (Reply st r, s')"
  shows "exchange True L c E d h req (store p) = (Body st (body_of r), s')"
proof -
  obtain a where "serve E d a req (store p) = (Reply st r, s')"
    using assms(2) by (auto simp: handle_def problem_def split: sum.splits option.splits)
  from shown_serve [OF this reach_displayable [OF assms(1)]] assms(2) show ?thesis
    by (simp add: exchange_def answer_def)
qed

theorem successes_are_shown_witness:
  "\<exists>b s. exchange True no_jwt dev E0 (D 1) (dev_headers owner) (RegisterAsset asset_cmd) (store start) =
     (Body 201 (AssetBody b), s) \<and> ac_external_id (asset_create.truncate b) = ''RECOVERY-BATTERY-001''"
proof -
  obtain x s where x: "register_asset E0 (D 1) asset_cmd owner empty_db = (Inr x, s)"
    using run1 by blast
  then have "handle no_jwt dev E0 (D 1) (dev_headers owner) (RegisterAsset asset_cmd) (store start) = (Reply 201 (AssetRes x), s)"
    by (simp add: handle_def with_valid_def render_def start_def del: One_nat_def)
  from successes_are_shown [OF reach_refl this] x show ?thesis
    by (auto elim!: register_asset_elim simp: asset_view_def asset_base_def asset_create.defs asset_read.defs fixture_asset_def)
qed

text \<open>C28: On a backend that drops the offset of timestamps, as SQLite does, a dispatch request cannot be
  repeated: the operation finds the recorded dispatch and changes nothing, but its stored window has
  no offset, the response model refuses it, and the client that repeats its request gets a server
  error instead of its dispatch.\<close>

theorem naive_replay_crashes:
  assumes "handle L c E d h (IssueDispatch rid cmd key) (store p) = (Reply 201 r, s')"
    and "reach (step E) (p\<lparr>store := s'\<rparr>) q"
  shows "exchange False L c E d' h (IssueDispatch rid cmd key) (store q) = (Other ServerError, store q) \<and>
     (\<exists>r'. handle L c E d' h (IssueDispatch rid cmd key) (store q) = (Reply 201 r', store q))"
proof -
  obtain a where a: "get_actor L c h = Inr a" "serve E d a (IssueDispatch rid cmd key) (store p) = (Reply 201 r, s')"
    using assms(1) by (auto simp: handle_def problem_def split: sum.splits option.splits)
  then obtain k v x where v: "key = Some k" "validate_dispatch cmd = Inr v"
      "issue_dispatch E d rid v a k (store p) = (Inr x, s')"
    by (auto simp: reply_simps)
  obtain y where y: "issue_dispatch E d' rid v a k (store q) = (Inr y, store q)" "y \<in> set (dispatches (store q))"
    using dispatch_replay [OF v(3) assms(2), of d'] by blast
  have s: "serve E d' a (IssueDispatch rid cmd key) (store q) = (Reply 201 (DispatchRes y), store q)"
    by (simp add: reply_simps v y)
  have "read_dispatch (loaded_dispatch False y) \<noteq> Inr m" for m
    using rd_dispatch.read_Inr [of "loaded_dispatch False y" m]
    by (auto simp: window_ok_def dispatch_base_def loaded_dispatch_def loaded_time_def)
  then obtain e where e: "read_dispatch (loaded_dispatch False y) = Inl e"
    by (cases "read_dispatch (loaded_dispatch False y)") auto
  then obtain m where "e = ValueError m" using rd_dispatch.refused by blast
  with s e y(2) a(1) show ?thesis
    by (auto simp: exchange_def handle_def answer_def in_session_def as_body_def problem_def)
qed

theorem naive_replay_crashes_witness:
  "\<exists>s. exchange False no_jwt dev E0 (D 9) (dev_headers operator)
       (IssueDispatch (uuid (D 3) 0) dispatch_cmd (Some ''recovery-dispatch-001'')) s =
     (Other ServerError, s) \<and> length (dispatches s) = 1"
proof -
  obtain es where r: "log_ok es" "evt_id ` set es = {uuid (D 3) 1, uuid (D 2) 2, uuid (D 1) 2}"
    by (rule to_reserved)
  obtain x es4 where 4: "issue_dispatch E0 (D 4) (uuid (D 3) 0) dispatch_cmd operator ''recovery-dispatch-001'' (S3 es) =
      (Inr x, S4 es4)"
    using run4 [OF r] by blast
  have "handle no_jwt dev E0 (D 4) (dev_headers operator)
      (IssueDispatch (uuid (D 3) 0) dispatch_cmd (Some ''recovery-dispatch-001'')) (store (pf (S3 es) [])) =
      (Reply 201 (DispatchRes x), S4 es4)"
    by (simp add: handle_def reply_simps 4)
  from naive_replay_crashes [OF this, of "pf (S4 es4) []" "D 9"] show ?thesis
    by (intro exI [of _ "S4 es4"]) (auto simp: pf_def S4_def intro: reach_refl)
qed

section \<open>Re-drive\<close>

text \<open>C29: A re-drive is authorized, narrow and keeps the identity of the delivery.  It succeeds only for
  a recovery operator with a specific reason, on a dead dispatch message whose dispatch was
  rejected and whose reservation was cancelled.  It makes the message pending, unlocked and with no
  attempts, and keeps its key and payload, so the adapter sees the same idempotency key again; the
  dispatch is queued again under the reference of its message and the reservation waits for the
  dispatch again, with everything else of the two rows as it was; one event is appended, and no other
  row of any table changes.\<close>

theorem redrive_is_narrow:
  assumes "authorize_redrive E d a mid did reason s = (Inr x, s')"
  shows "actor_role a = RECOVERY_OPERATOR \<and> 12 \<le> length (squash reason) \<and>
     (\<exists>m dsp rsv e.
        lookup msg_id mid (messages s) = Some m \<and> msg_status m = DEAD \<and> msg_aggregate_id m = did \<and>
        lookup dsp_id did (dispatches s) = Some dsp \<and> dsp_status dsp = REJECTED \<and>
        lookup rsv_id (dsp_reservation_id dsp) (reservations s) = Some rsv \<and> rsv_status rsv = RES_CANCELLED \<and>
        (\<exists>m'. lookup msg_id mid (messages s') = Some m' \<and> msg_status m' = PENDING \<and> msg_attempts m' = 0 \<and>
           msg_locked_by m' = None \<and> msg_idempotency_key m' = msg_idempotency_key m \<and>
           msg_payload m' = msg_payload m \<and> ra_idempotency_key x = msg_idempotency_key m') \<and>
        lookup dsp_id did (dispatches s') =
          Some (dsp\<lparr>dsp_status := QUEUED, dsp_adapter_reference := Some (''outbox:'' @ mid)\<rparr>) \<and>
        lookup rsv_id (dsp_reservation_id dsp) (reservations s') = Some (rsv\<lparr>rsv_status := DISPATCH_PENDING\<rparr>) \<and>
        (\<forall>k. k \<noteq> mid \<longrightarrow> lookup msg_id k (messages s') = lookup msg_id k (messages s)) \<and>
        (\<forall>k. k \<noteq> did \<longrightarrow> lookup dsp_id k (dispatches s') = lookup dsp_id k (dispatches s)) \<and>
        (\<forall>k. k \<noteq> dsp_reservation_id dsp \<longrightarrow>
           lookup rsv_id k (reservations s') = lookup rsv_id k (reservations s)) \<and>
        events s' = events s @ [e] \<and> evt_type e = ''dispatch.redrive_authorized'' \<and>
        evt_actor_id e = actor_id a \<and>
        assets s' = assets s \<and> offers s' = offers s \<and> settlements s' = settlements s \<and> readings s' = readings s \<and> idem s' = idem s)"
  using assms
proof (rule authorize_redrive_elim, goal_cases)
  case (1 m dsp rsv e)
  then have "lookup msg_id mid (messages s') = Some (rearm (now d 0) m)"
    by (simp add: lookup_modify rearm_def)
  moreover have "lookup dsp_id did (dispatches s') =
      Some (dsp\<lparr>dsp_status := QUEUED, dsp_adapter_reference := Some (''outbox:'' @ mid)\<rparr>)"
    "lookup rsv_id (dsp_reservation_id dsp) (reservations s') = Some (rsv\<lparr>rsv_status := DISPATCH_PENDING\<rparr>)"
    using 1(6,8,11) by (simp_all add: lookup_modify)
  moreover have "\<forall>k. k \<noteq> mid \<longrightarrow> lookup msg_id k (messages s') = lookup msg_id k (messages s)"
    "\<forall>k. k \<noteq> did \<longrightarrow> lookup dsp_id k (dispatches s') = lookup dsp_id k (dispatches s)"
    "\<forall>k. k \<noteq> dsp_reservation_id dsp \<longrightarrow> lookup rsv_id k (reservations s') = lookup rsv_id k (reservations s)"
    using 1(11) by (simp_all add: lookup_modify rearm_def)
  ultimately show ?case
    using 1 by (intro conjI exI [of _ m] exI [of _ dsp] exI [of _ rsv] exI [of _ e] exI [of _ "rearm (now d 0) m"])
      (simp_all add: MIN_REASON_def rearm_def)
qed

theorem redrive_is_narrow_witness:
  "\<exists>s x s'. authorize_redrive E0 (D 7) recoverer (uuid (D 4) 1) (uuid (D 4) 0) why s = (Inr x, s') \<and>
     (\<exists>m'. lookup msg_id (uuid (D 4) 1) (messages s') = Some m' \<and> msg_status m' = PENDING) \<and>
     (\<exists>dsp'. lookup dsp_id (uuid (D 4) 0) (dispatches s') = Some dsp' \<and> dsp_status dsp' = QUEUED)"
proof -
  obtain es where es: "log_ok es" "evt_id ` set es = ids6" by (rule to_given_up)
  obtain x es' where r: "authorize_redrive E0 (D 7) recoverer (uuid (D 4) 1) (uuid (D 4) 0) why (F6 es) = (Inr x, F7 es')"
    using redrive7 [OF es] by blast
  from redrive_is_narrow [OF r] r show ?thesis by fastforce
qed

section \<open>Column widths\<close>

text \<open>C30: On a backend that enforces the declared widths, an idempotency key of more than 100 characters
  cannot be used, although its own column admits 200.  Take any reservation that succeeds under a key
  that was not used before; under a longer unused key the very same request, with the same draws on
  the same database, fails, and not with a conflict or another answer to the client but with the data
  error of the audit table, which no handler turns into one: the key is also the correlation id of the
  event, whose column is narrower.  Nothing is changed.\<close>

theorem long_key_never_reserves:
  assumes "strict_widths E" "100 < length key" "\<not> blank key" "idem_lookup ''reserve_offer'' key s = None"
    and "reserve_offer E d oid c a key' s = (Inr x, s')" "idem_lookup ''reserve_offer'' key' s = None"
  shows "reserve_offer E d oid c a key s = (Inl (DataError ''audit_events''), s)"
proof -
  let ?r = "\<lambda>ofr. \<lparr>rsv_id = uuid d 0, rsv_offer_id = ofr_id ofr, rsv_quantity_kw = rc_quantity_kw c,
     rsv_status = RESERVED, rsv_requested_by = actor_id a, rsv_created_at = now d 0\<rparr>"
  from assms(5,6) obtain ofr s1 where r: "actor_role a = MARKET_OPERATOR" "find_offer oid s = Inr ofr"
      "ofr_status ofr = OPEN" "\<not> dec_less (ofr_quantity_kw ofr) (rc_quantity_kw c)"
      "insert_reservation E (?r ofr) (set_offer (ofr_id ofr) (\<lambda>x. x\<lparr>ofr_status := OFFER_RESERVED\<rparr>) s) = Inr s1"
    by (auto simp: reserve_offer_def reserve_offer_tx_def transaction_Inr Let_def idempotent_resource_def
        idem_lookup_def split: sum.splits option.splits if_splits)
  have "append_event E d 1 ty aid et actor key payload t = Inl (DataError ''audit_events'')"
    for ty aid et actor payload t
    using assms(1,2)
    by (simp add: append_event_def append_after_def Let_def insert_event_def constrained_def event_fits_def)
  with r assms(3,4) show ?thesis
    by (simp add: reserve_offer_def reserve_offer_tx_def require_role_def transaction_def Let_def
        idempotent_resource_def idem_lookup_def del: One_nat_def)
qed

text \<open>An environment that enforces widths and whose hash has 64 characters; one open offer.\<close>

definition strict_env :: env where
  "strict_env = E0\<lparr>strict_widths := True, sha256 := (\<lambda>_. replicate 64 (CHR ''f''))\<rparr>"

definition one_offer :: db where
  "one_offer = empty_db\<lparr>assets := [a1], offers := [f1 OPEN]\<rparr>"

lemma short_key_reserves:
  "\<exists>x s'. reserve_offer strict_env (D 3) (uuid (D 2) 0) reserve_cmd operator ''recovery-reservation-001'' one_offer =
     (Inr x, s')"
  by (simp add: reserve_offer_def reserve_offer_tx_def store_idempotency_def strict_env_def one_offer_def
      require_role_def transaction_def Let_def idempotent_resource_def find_offer_def lookup_Nil lookup_Cons
      insert_defs store_defs constrained_def append_event_def append_after_def event_fits_def idem_fits_def
      reservation_fits_def set_defs modify_def seen_events_def next_sequence_def latest_event_def GENESIS_HASH_def
      calculate_event_hash_def sha256_json_def request_hash_def numeric_fits_def numeric6_def dec_less_def
      dec_le_def dsig_at_def dsig_def data_simps eval_simps empty_db_def blank_iff is_space_def E0_def)

theorem long_key_never_reserves_witness:
  "reserve_offer strict_env (D 3) (uuid (D 2) 0) reserve_cmd operator (replicate 150 (CHR ''k'')) one_offer =
     (Inl (DataError ''audit_events''), one_offer) \<and>
   (\<exists>x s'. reserve_offer strict_env (D 3) (uuid (D 2) 0) reserve_cmd operator ''recovery-reservation-001'' one_offer =
     (Inr x, s'))"
proof -
  obtain x s' where r: "reserve_offer strict_env (D 3) (uuid (D 2) 0) reserve_cmd operator ''recovery-reservation-001''
      one_offer = (Inr x, s')"
    using short_key_reserves by blast
  have "reserve_offer strict_env (D 3) (uuid (D 2) 0) reserve_cmd operator (replicate 150 (CHR ''k'')) one_offer =
      (Inl (DataError ''audit_events''), one_offer)"
    by (rule long_key_never_reserves [OF _ _ _ _ r])
      (simp_all add: strict_env_def one_offer_def empty_db_def idem_lookup_def lookup_Nil blank_iff is_space_def)
  with r show ?thesis by blast
qed

end
