(* ===== verification/DrillRuns.thy ===== *)
theory DrillRuns
  imports Batches Evidence Idempotency RecoveryDrill
begin

text \<open>
  What the recovery drill does to the platform: seeding the fixture is requests and one worker
  batch, so a seeded database is a reachable one, and what the restore is compared with is what
  the seed reported.
\<close>

section \<open>Seeding is a run of the platform\<close>

definition moves :: "env \<Rightarrow> db \<Rightarrow> db \<Rightarrow> bool" where
  "moves E s t \<longleftrightarrow> (\<forall>cs. reach (step E) (pf s cs) (pf t cs))"

lemma moves_refl [simp]: "moves E s s"
  by (simp add: moves_def reach_refl)

lemma moves_trans: "moves E s t \<Longrightarrow> moves E t u \<Longrightarrow> moves E s u"
  unfolding moves_def using reach_trans by metis

lemma moves_serve: "moves E s (snd (serve E d a req s))"
  unfolding moves_def by (blast intro: reach_one serve_step prod.collapse [symmetric])

lemma moves_after:
  assumes "moves E s (snd run)"
    and "\<And>x u. run = (Inr x, u) \<Longrightarrow> moves E u (snd (k x u))"
  shows "moves E s (snd (after run k))"
  using assms by (cases run; cases "fst run") (auto simp: after_def intro: moves_trans)

lemma moves_commands:
  "moves E s (snd (with_command (validate_asset v1) (\<lambda>c. register_asset E d c a s) s))"
  "moves E s (snd (with_command (validate_offer v2) (\<lambda>c. create_offer E d c a s) s))"
  "moves E s (snd (with_command (validate_reservation v3) (\<lambda>c. reserve_offer E d i c a key s) s))"
  "moves E s (snd (with_command (validate_dispatch v4) (\<lambda>c. issue_dispatch E d i c a key s) s))"
  "moves E s (snd (with_command (validate_meter_reading v5) (\<lambda>c. record_meter_reading E d c a s) s))"
  "moves E s (snd (settle_reservation E d i a key s))"
  using moves_serve [of E s d a "RegisterAsset v1"] moves_serve [of E s d a "CreateOffer v2"]
    moves_serve [of E s d a "ReserveOffer i v3 (Some key)"]
    moves_serve [of E s d a "IssueDispatch i v4 (Some key)"]
    moves_serve [of E s d a "RecordReading v5"] moves_serve [of E s d a "SettleReservation i (Some key)"]
  by (simp_all add: with_command_def with_valid_def with_key_def render_def split: sum.splits)

lemma seed_dispatch_moves: "moves E s (snd (seed_dispatch E ds s))"
  unfolding seed_dispatch_def by (intro moves_after moves_commands) simp

lemma seed_publish_moves: "moves E s (snd (seed_publish E ds s))"
proof -
  obtain r t u where run: "run_once E drill_worker noop_publish (\<lambda>k. ds (4 + k)) 10 s () = (r, t, u)"
    using prod_cases3 by blast
  have "reach (step E) (pf s cs) (pf t cs)" for cs
    using run_once_reach [of E drill_worker noop_publish "\<lambda>k. ds (4 + k)" 10 "pf s cs" "()" r t u] run
    by (simp add: pf_def)
  then show ?thesis using run by (auto simp: seed_publish_def moves_def split: sum.split)
qed

lemma seed_fixture_moves: "moves E s (snd (seed_fixture E ds getenv cat s))"
  unfolding seed_fixture_def
  by (auto split: sum.split intro!: moves_after seed_dispatch_moves seed_publish_moves moves_commands)

lemma after_Inr: "after run k = (Inr y, t) \<Longrightarrow> \<exists>x u. run = (Inr x, u) \<and> k x u = (Inr y, t)"
  by (auto simp: after_def split: prod.splits sum.splits)

lemma seed_fixture_Inr:
  assumes "seed_fixture E ds getenv cat s = (Inr fx, t)"
  obtains asset :: asset and rsv :: reservation and dsp :: dispatch and u x url y
  where "drill_database_url getenv = Inr url"
    "initialize_database True cat = Inr y" "moves E s u"
    "settle_reservation E (ds 26) (rsv_id rsv) recovery_analyst ''recovery-settlement-001'' u = (Inr x, t)"
    "seed_report E (ast_id asset) (rsv_id rsv) (dsp_id dsp) x t = Inr fx"
proof -
  from assms obtain url y where c: "drill_database_url getenv = Inr url" "initialize_database True cat = Inr y"
    by (auto simp: seed_fixture_def split: sum.splits)
  note seed = assms [unfolded seed_fixture_def c sum.case]
  obtain asset rsv dsp s1 where 1: "seed_dispatch E ds s = (Inr (asset, rsv, dsp), s1)"
    and k1: "after (seed_publish E ds s1) (\<lambda>_ s.
      after (with_command (validate_meter_reading (fixture_reading (ast_id asset)))
          (\<lambda>c. record_meter_reading E (ds 25) c recovery_owner s) s) (\<lambda>_ s.
      after (settle_reservation E (ds 26) (rsv_id rsv) recovery_analyst
          ''recovery-settlement-001'' s) (\<lambda>x s.
      (seed_report E (ast_id asset) (rsv_id rsv) (dsp_id dsp) x s, s)))) = (Inr fx, t)"
    using after_Inr [OF seed] by auto
  obtain y2 s2 where 2: "seed_publish E ds s1 = (Inr y2, s2)"
    and k2: "after (with_command (validate_meter_reading (fixture_reading (ast_id asset)))
          (\<lambda>c. record_meter_reading E (ds 25) c recovery_owner s2) s2) (\<lambda>_ s.
      after (settle_reservation E (ds 26) (rsv_id rsv) recovery_analyst
          ''recovery-settlement-001'' s) (\<lambda>x s.
      (seed_report E (ast_id asset) (rsv_id rsv) (dsp_id dsp) x s, s))) = (Inr fx, t)"
    using after_Inr [OF k1] by blast
  obtain y3 u where 3: "with_command (validate_meter_reading (fixture_reading (ast_id asset)))
          (\<lambda>c. record_meter_reading E (ds 25) c recovery_owner s2) s2 = (Inr y3, u)"
    and k3: "after (settle_reservation E (ds 26) (rsv_id rsv) recovery_analyst
          ''recovery-settlement-001'' u) (\<lambda>x s.
      (seed_report E (ast_id asset) (rsv_id rsv) (dsp_id dsp) x s, s)) = (Inr fx, t)"
    using after_Inr [OF k2] by blast
  obtain x where 4: "settle_reservation E (ds 26) (rsv_id rsv) recovery_analyst
      ''recovery-settlement-001'' u = (Inr x, t)"
    "seed_report E (ast_id asset) (rsv_id rsv) (dsp_id dsp) x t = Inr fx"
    using after_Inr [OF k3] by auto
  have "moves E s u"
    using moves_trans [OF moves_trans] seed_dispatch_moves [of E s ds] seed_publish_moves [of E s1 ds]
      moves_commands(5) [of E s2 "fixture_reading (ast_id asset)" "ds 25" recovery_owner] 1 2 3
    by (metis snd_conv)
  from c this 4 show ?thesis by (rule that)
qed

section \<open>What the stored amounts look like\<close>

text \<open>No column of a price or of a metered energy holds a negative zero.\<close>

definition plain_zeros :: "db \<Rightarrow> bool" where
  "plain_zeros s \<longleftrightarrow> (\<forall>f\<in>set (offers s). dneg (ofr_price_per_kwh f) \<longrightarrow> dcoef (ofr_price_per_kwh f) \<noteq> 0) \<and>
     (\<forall>g\<in>set (readings s). dneg (mtr_energy_kwh g) \<longrightarrow> dcoef (mtr_energy_kwh g) \<noteq> 0)"

lemma numeric6_zero: "dneg (numeric6 d) \<Longrightarrow> dcoef (numeric6 d) \<noteq> 0"
  by (simp add: numeric6_def Let_def)

interpretation zeros: store_invariant E plain_zeros for E
proof unfold_locales
  show "append_event E d n ty aid et actor corr payload s = Inr (e, s') \<Longrightarrow> plain_zeros s \<Longrightarrow> plain_zeros s'"
    for d n ty aid et actor corr payload s e s'
    by (elim append_event_elim) (simp add: plain_zeros_def)
  show "keeps_offer fo \<Longrightarrow> plain_zeros s \<Longrightarrow> plain_zeros (set_offer k fo s)" for fo s k
    by (auto simp: plain_zeros_def set_offer_def keeps_offer_def in_modify split: if_splits)
qed (auto simp: insert_defs constrained_ok plain_zeros_def store_defs set_defs dest: numeric6_zero dest!: update_message_Inr)

lemma nonneg_not_neg: "0 \<le> dec_val d \<Longrightarrow> (dneg d \<Longrightarrow> dcoef d \<noteq> 0) \<Longrightarrow> \<not> dneg d"
  using mult_neg_pos [of "of_int (dsig d)" "10 powi dexp d :: rat"]
  by (auto simp: dec_val_def dsig_def)

lemma settled_amount_stored:
  assumes run: "settle_reservation E d rid a key u = (Inr x, t)" and ok: "terms_ok u" "plain_zeros u"
  shows "\<exists>y. lookup stl_id (stl_id x) (settlements t) = Some y \<and> dec_format (stl_amount y) = dec_format (stl_amount x)"
proof (cases "idem_lookup ''settle_reservation'' key u")
  case (Some r)
  from settle_reservation_replay [OF Some run] show ?thesis using lookup_Some by fastforce
next
  case None
  with run show ?thesis
  proof (rule settle_reservation_fresh, goal_cases)
    case (1 rsv dsp ofr e i)
    have "\<not> dneg (ofr_price_per_kwh ofr)"
      using ok lookup_Some [OF 1(9)] nonneg_not_neg
      unfolding terms_ok_def offer_backed_def plain_zeros_def by blast
    moreover have "\<not> dneg (mtr_energy_kwh g)" if "g \<in> set (readings u)" for g
      using ok that nonneg_not_neg unfolding terms_ok_def reading_backed_def plain_zeros_def by blast
    then have "\<not> dneg (dec_sum (map mtr_energy_kwh (window_readings ofr dsp u)))"
      by (intro dneg_dec_sum) (auto simp: window_readings_def)
    then have "\<not> dneg (stl_delivered_kwh x)"
      using dec_quantize_shape [OF 1(11) [unfolded delivered_energy_def]] by simp
    ultimately have "numeric6 (stl_amount x) = stl_amount x"
      using dec_quantize_shape [OF 1(12) [unfolded settlement_amount_def]]
      by (intro numeric6_id) (auto simp: MONEY_QUANTUM_def dec_mul_def)
    moreover have "lookup stl_id (stl_id x) (settlements t) = Some (store_settlement x)"
      using new_row [of "stl_id x" stl_id "settlements u" "store_settlement x"] 1(19,21)
      by (simp add: store_settlement_def)
    ultimately show ?case by (simp add: store_settlement_def)
  qed
qed

section \<open>Reading the report back\<close>

text \<open>The object \<open>verify\<close> loads from the file that \<open>seed\<close> wrote.\<close>

definition report_json :: "(string \<times> pyval) list \<Rightarrow> string \<Rightarrow> json option" where
  "report_json fx k = map_option to_json (map_of fx k)"

lemma py_eq_same [simp]: "py_eq v (Some v)"
  by (cases v) (simp_all add: py_eq_def)

lemma py_eq_unique: "py_eq a v \<Longrightarrow> py_eq b v \<Longrightarrow> (\<exists>i j. a = JInt i \<and> b = JInt j) \<or> (\<exists>x y. a = JStr x \<and> b = JStr y) \<Longrightarrow> a = b"
  by (auto simp: py_eq_def split: option.splits json.splits if_splits)

lemma verify_after_report:
  assumes "seed_report E i j k x t = Inr fx"
    and "drill_database_url getenv = Inr url" "initialize_database True cat = Inr c"
    and "lookup stl_id (stl_id x) (settlements t) = Some y" "dec_format (stl_amount y) = dec_format (stl_amount x)"
  shows "verify_fixture E getenv cat (report_json fx) t = Inr ()"
proof -
  from assms(1) obtain ev av where r: "settlement_evidence E (stl_id x) recovery_auditor t = Inr ev"
      "service_audit_verification E recovery_auditor t = Inr av" "ev_hash_valid ev" "av_valid av"
    and one: "published_count t = 1"
    and fx: "fx = [(''fixture_version'', PStr FIXTURE_VERSION), (''asset_id'', PStr i), (''reservation_id'', PStr j),
         (''dispatch_id'', PStr k), (''settlement_id'', PStr (stl_id x)),
         (''settlement_amount'', PStr (dec_format (stl_amount x))),
         (''evidence_hash'', PStr (ev_evidence_hash ev)),
         (''audit_event_count'', PInt (int (av_event_count av))),
         (''audit_head_hash'', PStr (av_head_hash av)),
         (''published_outbox_count'', PInt 1)]"
    by (auto simp: seed_report_def split: sum.splits if_splits)
  show ?thesis
    using r one assms(2-5) by (simp add: verify_fixture_def report_json_def fx py_str_def drill_observed_def)
qed

lemma compare_observed_Inr:
  "compare_observed expected obs = Inr u \<longleftrightarrow> (\<forall>(k, v)\<in>set obs. py_eq v (expected k))"
  by (induction expected obs rule: compare_observed.induct) auto

lemma verify_fixture_Inr:
  assumes "verify_fixture E getenv cat expected s = Inr u"
  obtains v x where "expected ''settlement_id'' = Some v"
    "lookup stl_id (py_str v) (settlements s) = Some x"
    "py_eq (JStr (dec_format (stl_amount x))) (expected ''settlement_amount'')"
    "py_eq (JStr (stl_evidence_hash x)) (expected ''evidence_hash'')"
    "stl_evidence_hash x = sha256_json E (stl_evidence_manifest x)"
    "av_valid (verify_chain E s)"
    "py_eq (JInt (int (length (events s)))) (expected ''audit_event_count'')"
    "py_eq (JStr (av_head_hash (verify_chain E s))) (expected ''audit_head_hash'')"
    "py_eq (JInt (int (published_count s))) (expected ''published_outbox_count'')"
proof -
  from assms obtain v x ev av where o: "expected ''settlement_id'' = Some v"
      "lookup stl_id (py_str v) (settlements s) = Some x"
      "settlement_evidence E (py_str v) recovery_auditor s = Inr ev"
      "service_audit_verification E recovery_auditor s = Inr av"
      "compare_observed expected (drill_observed x ev av s) = Inr ()" "ev_hash_valid ev" "av_valid av"
    unfolding verify_fixture_def
    by (simp split: if_split_asm sum.split_asm option.split_asm)
  have av: "av = verify_chain E s"
    using o(4) by (simp add: service_audit_verification_def split: sum.split_asm)
  have ev: "ev_evidence_hash ev = stl_evidence_hash x" "stl_evidence_hash x = sha256_json E (stl_evidence_manifest x)"
    using o(3,6) by (auto simp: settlement_evidence_def o(2) split: sum.split_asm)
  show ?thesis
    using that [OF o(1,2)] o(5) [unfolded compare_observed_Inr] o(7) ev by (simp add: drill_observed_def av)
qed

lemma moves_reach: "moves E (store p) u \<Longrightarrow> reach (step E) p (p\<lparr>store := u\<rparr>)"
  unfolding moves_def by (cases p) (auto simp: pf_def)

lemma seed_fixture_accepted:
  assumes "reach (step E) start p" "seed_fixture E ds getenv cat (store p) = (Inr fx, t)"
  shows "verify_fixture E getenv cat (report_json fx) t = Inr ()"
  using assms(2)
proof (rule seed_fixture_Inr, goal_cases)
  case (1 asset rsv dsp u x url y)
  note reached = reach_trans [OF moves_reach [OF 1(3)] assms(1)]
  have "terms_ok u" "plain_zeros u"
    using sys.always [OF reached sound_start] invariant.always [OF zeros.platform_invariant reached]
    by (simp_all add: sound_def sound_db_def plain_zeros_def start_def empty_db_def)
  from settled_amount_stored [OF 1(4) this] verify_after_report [OF 1(5,1,2)] show ?case by blast
qed

lemma verify_fixture_idem:
  "verify_fixture E getenv cat expected (s\<lparr>idem := i\<rparr>) = verify_fixture E getenv cat expected s"
proof -
  have eqs: "settlements (s\<lparr>idem := i\<rparr>) = settlements s" "messages (s\<lparr>idem := i\<rparr>) = messages s"
    "verify_chain E (s\<lparr>idem := i\<rparr>) = verify_chain E s"
    by (simp_all add: verify_chain_def)
  show ?thesis
    unfolding verify_fixture_def settlement_evidence_def service_audit_verification_def drill_observed_def
      published_count_def eqs ..
qed

section \<open>The drill of the concrete run\<close>

definition drill_draws :: "nat \<Rightarrow> draws" where
  "drill_draws k = (if k = 25 then D 7 else if k = 26 then D 8 else D (k + 1))"

definition drill_env :: "string \<Rightarrow> string option" where
  "drill_env k = (if k = ''DATABASE_URL'' then Some ''postgresql+psycopg://drill'' else None)"

definition head_catalogue :: catalogue where
  "head_catalogue = \<lparr>cat_schema = declared_schema declared_models, cat_version = Some [EXPECTED_SCHEMA_REVISION]\<rparr>"

lemma head_ready: "initialize_database True head_catalogue = Inr head_catalogue"
proof -
  have "verify_managed_schema head_catalogue = Inr ()" by code_simp
  then show ?thesis by (simp add: initialize_database_def)
qed

lemma drill_url: "drill_database_url drill_env = Inr ''postgresql+psycopg://drill''"
  by (simp add: drill_database_url_def drill_env_def strip_def is_space_def)

lemma seed_run: "\<exists>fx es. seed_fixture E0 drill_draws drill_env head_catalogue empty_db = (Inr fx, S8 es) \<and> es \<noteq> []"
proof -
  obtain x1 e1 where 1: "register_asset E0 (D 1) asset_cmd owner empty_db = (Inr x1, S1 e1)" "log_ok e1"
      "evt_id ` set e1 = {uuid (D 1) 2}" using run1 by blast
  obtain x2 e2 where 2: "create_offer E0 (D 2) offer_cmd owner (S1 e1) = (Inr x2, S2 e2)" "log_ok e2"
      "evt_id ` set e2 = {uuid (D 2) 2, uuid (D 1) 2}" using run2 [OF 1(2,3)] by blast
  obtain x3 e3 where 3: "reserve_offer E0 (D 3) (uuid (D 2) 0) reserve_cmd operator ''recovery-reservation-001'' (S2 e2) = (Inr x3, S3 e3)"
      "log_ok e3" "evt_id ` set e3 = {uuid (D 3) 1, uuid (D 2) 2, uuid (D 1) 2}" using run3 [OF 2(2,3)] by blast
  obtain x4 e4 where 4: "issue_dispatch E0 (D 4) (uuid (D 3) 0) dispatch_cmd operator ''recovery-dispatch-001'' (S3 e3) = (Inr x4, S4 e4)"
      "log_ok e4" "evt_id ` set e4 = ids4" using run4 [OF 3(2,3)] by blast
  obtain e6 where 6: "run_once E0 drill_worker noop_publish (\<lambda>k. drill_draws (4 + k)) 10 (S4 e4) () =
      (Inr \<lparr>rr_attempted = 1, rr_published = 1, rr_retried = 0, rr_dead = 0\<rparr>, S6 e6, ())"
      "log_ok e6" "evt_id ` set e6 = ids6"
    using batch_run [of e4 "\<lambda>k. drill_draws (4 + k)" 10] 4(2,3) by (auto simp: drill_draws_def)
  obtain x7 e7 where 7: "record_meter_reading E0 (D 7) reading_cmd owner (S6 e6) = (Inr x7, S7 e7)"
      "log_ok e7" "evt_id ` set e7 = ids7" using run7 [OF 6(2,3)] by blast
  obtain x8 e8 where 8: "settle_reservation E0 (D 8) (uuid (D 3) 0) analyst ''recovery-settlement-001'' (S7 e7) = (Inr x8, S8 e8)"
    using run8 [OF 7(2,3)] by blast
  have ids: "ast_id x1 = uuid (D 1) 0" "ofr_id x2 = uuid (D 2) 0" "rsv_id x3 = uuid (D 3) 0"
    using 1(1) 2(1) 3(1)
    by (auto elim!: register_asset_elim create_offer_elim reserve_offer_fresh
        simp: idem_lookup_def S2_def empty_db_def lookup_Nil)
  have sd: "seed_dispatch E0 drill_draws empty_db = (Inr (x1, x3, x4), S4 e4)"
    using 1(1) 2(1) 3(1) 4(1) ids
    by (simp add: seed_dispatch_def with_command_def after_def drill_draws_def del: One_nat_def)
  have sp: "seed_publish E0 drill_draws (S4 e4) = (Inr (), S6 e6)"
    using 6(1) by (simp add: seed_publish_def)
  have "moves E0 empty_db (S4 e4)" "moves E0 (S4 e4) (S6 e6)" "moves E0 (S6 e6) (S7 e7)" "moves E0 (S7 e7) (S8 e8)"
    using seed_dispatch_moves [of E0 empty_db drill_draws] seed_publish_moves [of E0 "S4 e4" drill_draws] sd sp
      moves_commands(5) [of E0 "S6 e6" reading_cmd "D 7" owner] 7(1)
      moves_commands(6) [of E0 "S7 e7" "D 8" "uuid (D 3) 0" analyst "''recovery-settlement-001''"] 8
    by (simp_all add: with_command_def del: One_nat_def)
  then have "audit_ok E0 (S8 e8)"
    using sys_chain.always [of E0 start "pf (S8 e8) []"] moves_trans unfolding moves_def start_pf
    by (metis audit_ok_empty pf_sel(1))
  then have av: "av_valid (verify_chain E0 (S8 e8))" by (simp add: verify_chain_audit_ok)
  have "idem_lookup ''settle_reservation'' ''recovery-settlement-001'' (S7 e7) = None"
    by (simp add: idem_lookup_def S7_def S6_def S4_def i1_def i2_def lookup_Cons lookup_Nil empty_db_def)
  then have "stl_id x8 = uuid (D 8) 0 \<and> (\<exists>e. events (S8 e8) = events (S7 e7) @ [e])"
    using 8 by (auto elim: settle_reservation_fresh)
  then have "stl_id x8 = uuid (D 8) 0" "e8 \<noteq> []" by (auto simp: S8_def)
  then have "settlement_evidence E0 (stl_id x8) recovery_auditor (S8 e8) =
      Inr \<lparr>ev_manifest = stl_evidence_manifest (t1 (last e8)), ev_evidence_hash = stl_evidence_hash (t1 (last e8)),
        ev_hash_valid = True\<rparr>"
    by (simp add: settlement_evidence_def require_role_def recovery_auditor_def S8_def t1_def Let_def lookup_Cons)
  moreover have "published_count (S8 e8) = 1"
    by (simp add: published_count_def S8_def S7_def S6_def m3_def mark_published_def)
  ultimately obtain fx where "seed_report E0 (ast_id x1) (rsv_id x3) (dsp_id x4) x8 (S8 e8) = Inr fx"
    using av by (simp add: seed_report_def service_audit_verification_def require_role_def recovery_auditor_def)
  then have "seed_fixture E0 drill_draws drill_env head_catalogue empty_db = (Inr fx, S8 e8)"
    using sd sp 7(1) 8 ids
    by (simp add: seed_fixture_def drill_url head_ready after_def with_command_def drill_draws_def del: One_nat_def)
  with \<open>e8 \<noteq> []\<close> show ?thesis by blast
qed

end
