(* ===== verification/Startup.thy ===== *)
theory Startup
  imports DrillRuns Database Responses
begin

text \<open>
  How the processes start: \<open>create_app\<close> of api.py up to its routes, the command lines of worker.py and
  scripts/recovery_drill.py after argparse, and migrations/env.py, which tells Alembic which
  database to migrate.
\<close>

section \<open>The API process\<close>

text \<open>\<open>create_app\<close> checks the settings and the schema before it defines a route.\<close>

definition create_app_start :: "settings \<Rightarrow> catalogue \<Rightarrow> catalogue result" where
  "create_app_start c cat = (case validate_runtime c of Inl e \<Rightarrow> Inl e
     | Inr _ \<Rightarrow> initialize_database (environment c \<notin> set SAFE_ENVIRONMENTS) cat)"

record health_read =
  hr_status :: string
  hr_version :: string
  hr_environment :: string

definition health :: "string \<Rightarrow> settings \<Rightarrow> health_read" where
  "health version c = \<lparr>hr_status = ''ok'', hr_version = version, hr_environment = environment c\<rparr>"

section \<open>The worker command\<close>

text \<open>\<open>json.dumps\<close> of an object of numbers, with its default separators.\<close>

definition json_line :: "(string \<times> nat) list \<Rightarrow> string" where
  "json_line kvs = ''{'' @ join '', ''
     (map (\<lambda>(k, n). CHR 0x22 # k @ CHR 0x22 # '': '' @ show_nat n) kvs) @ ''}''"

definition run_result_line :: "run_result \<Rightarrow> string" where
  "run_result_line r = json_line [(''attempted'', rr_attempted r), (''dead'', rr_dead r),
     (''published'', rr_published r), (''retried'', rr_retried r)]"

definition worker_main ::
  "env \<Rightarrow> (string \<Rightarrow> string option) \<Rightarrow> int \<Rightarrow> (nat \<Rightarrow> draws) \<Rightarrow> catalogue \<Rightarrow> db \<Rightarrow> 'p \<Rightarrow>
    string result \<times> db \<times> 'p" where
  "worker_main E getenv limit ds cat s p =
     (case worker_run_once E (from_environment getenv) limit None ds cat s p of
        (Inl e, s', p') \<Rightarrow> (Inl e, s', p')
      | (Inr r, s', p') \<Rightarrow> (Inr (run_result_line r @ [CHR 0x0A]), s', p'))"

text \<open>Outside development and test the command publishes nothing: it has no adapter.\<close>

lemma worker_main_managed:
  assumes "environment (from_environment getenv) \<notin> set SAFE_ENVIRONMENTS"
  shows "\<exists>e. worker_main E getenv limit ds cat s p = (Inl e, s, p)"
  using assms by (auto simp: worker_main_def worker_run_once_def resolve_publisher_def split: sum.split)

section \<open>The drill command\<close>

text \<open>\<open>seed\<close> writes the file that \<open>verify\<close> reads; a file is the object it holds.\<close>

datatype drill_command = Seed | Verify "string \<Rightarrow> json option"

definition drill_main ::
  "env \<Rightarrow> (nat \<Rightarrow> draws) \<Rightarrow> (string \<Rightarrow> string option) \<Rightarrow> catalogue \<Rightarrow> drill_command \<Rightarrow> db \<Rightarrow>
    (string \<Rightarrow> json option) option result \<times> db" where
  "drill_main E ds getenv cat command s = (case command of
     Seed \<Rightarrow> (case seed_fixture E ds getenv cat s of
         (Inl e, s') \<Rightarrow> (Inl e, s')
       | (Inr payload, s') \<Rightarrow> (Inr (Some (report_json payload)), s'))
   | Verify expected \<Rightarrow> (case verify_fixture E getenv cat expected s of
         Inl e \<Rightarrow> (Inl e, s)
       | Inr _ \<Rightarrow> (Inr None, s)))"

lemma drill_main_Seed: "drill_main E ds getenv cat Seed s = (Inr (Some f), t) \<longleftrightarrow>
    (\<exists>fx. seed_fixture E ds getenv cat s = (Inr fx, t) \<and> f = report_json fx)"
  by (auto simp: drill_main_def split: prod.splits sum.splits)

lemma drill_main_Verify: "drill_main E ds getenv cat (Verify expected) s = (Inr None, t) \<longleftrightarrow>
    t = s \<and> verify_fixture E getenv cat expected s = Inr ()"
  by (auto simp: drill_main_def split: sum.splits)

section \<open>The migration environment\<close>

text \<open>
  Options of Alembic's ini file are values of a \<open>ConfigParser\<close>: \<open>set\<close> refuses a percent sign that is
  neither doubled nor starts a reference \<open>%(name)s\<close>, and reading replaces both (BasicInterpolation);
  the values of names are a parameter.
\<close>

definition reference :: "string \<Rightarrow> (string \<times> string) option" where
  "reference s = (if prefix ''('' s then
     (let name = takeWhile (\<lambda>c. c \<noteq> CHR '')'') (tl s); rest = dropWhile (\<lambda>c. c \<noteq> CHR '')'') (tl s) in
      if name \<noteq> [] \<and> prefix '')s'' rest then Some (name, drop 2 rest) else None) else None)"

lemma reference_shorter: "reference s = Some (name, r) \<Longrightarrow> length r < length s"
  using length_dropWhile_le [of "\<lambda>c. c \<noteq> CHR '')''" "tl s"]
  by (auto simp: reference_def Let_def prefix_def split: if_splits)

lemma reference_subset: "reference s = Some (name, r) \<Longrightarrow> set r \<subseteq> set s"
  by (auto simp: reference_def Let_def prefix_def dest!: in_set_dropD split: if_splits)
    (metis list.set_intros(2) set_dropWhileD)

fun drop_pairs :: "string \<Rightarrow> string" where
  "drop_pairs (a # b # s) = (if a = CHR ''%'' \<and> b = CHR ''%'' then drop_pairs s else a # drop_pairs (b # s))"
| "drop_pairs s = s"

function drop_references :: "string \<Rightarrow> string" where
  "drop_references [] = []"
| "drop_references (c # s) = (case (if c = CHR ''%'' then reference s else None) of
     Some (_, r) \<Rightarrow> drop_references r | None \<Rightarrow> c # drop_references s)"
  by pat_completeness auto
termination
  by (relation "measure length") (auto dest: reference_shorter split: if_splits)

definition set_main_option :: "string \<Rightarrow> string result" where
  "set_main_option value = (let tmp = drop_references (drop_pairs value) in
     if CHR ''%'' \<in> set tmp
     then Inl (ValueError (''invalid interpolation syntax in '' @ repr_string value @ '' at position '' @
       show_nat (length (takeWhile (\<lambda>c. c \<noteq> CHR ''%'') tmp))))
     else Inr value)"

function interpolate :: "(string \<Rightarrow> string result) \<Rightarrow> string \<Rightarrow> string result" where
  "interpolate names [] = Inr []"
| "interpolate names (c # s) =
     (if c \<noteq> CHR ''%'' then map_sum id ((#) c) (interpolate names s)
      else if prefix ''%'' s then map_sum id ((#) (CHR ''%'')) (interpolate names (tl s))
      else case reference s of
        Some (name, r) \<Rightarrow> (case names name of Inl e \<Rightarrow> Inl e
          | Inr v \<Rightarrow> map_sum id ((@) v) (interpolate names r))
      | None \<Rightarrow> Inl (OtherError ''InterpolationSyntaxError''
          (if prefix ''('' s then ''bad interpolation variable reference '' @ repr_string (c # s)
           else squote @ ''%'' @ squote @ '' must be followed by '' @ squote @ ''%'' @ squote @ '' or '' @
             squote @ ''('' @ squote @ '', found: '' @ repr_string (c # s))))"
  by pat_completeness auto
termination
  by (relation "measure (\<lambda>(names, s). length s)") (auto dest: reference_shorter)

definition double_percent :: "string \<Rightarrow> string" where
  "double_percent s = concat (map (\<lambda>c. if c = CHR ''%'' then ''%%'' else [c]) s)"

text \<open>The raw option after the environment was read, and its value.\<close>

definition configured_url :: "(string \<Rightarrow> string option) \<Rightarrow> string option \<Rightarrow> string option result" where
  "configured_url getenv ini = (case getenv ''DATABASE_URL'' of
     Some (c # cs) \<Rightarrow> map_sum id Some (set_main_option (double_percent (c # cs)))
   | _ \<Rightarrow> Inr ini)"

definition main_option :: "(string \<Rightarrow> string result) \<Rightarrow> string option \<Rightarrow> string option result" where
  "main_option names raw = (case raw of None \<Rightarrow> Inr None | Some s \<Rightarrow> map_sum id Some (interpolate names s))"

text \<open>What Alembic is configured with: a URL to write SQL for, or the URL of the engine to connect with.\<close>

datatype migration_mode = Offline "string option" | Online string

definition run_migrations_offline :: "(string \<Rightarrow> string result) \<Rightarrow> string option \<Rightarrow> migration_mode result" where
  "run_migrations_offline names raw = map_sum id Offline (main_option names raw)"

definition run_migrations_online :: "(string \<Rightarrow> string result) \<Rightarrow> string option \<Rightarrow> migration_mode result" where
  "run_migrations_online names raw = (case main_option names raw of Inl e \<Rightarrow> Inl e
     | Inr None \<Rightarrow> Inl (OtherError ''KeyError'' (repr_string ''url'')) | Inr (Some url) \<Rightarrow> Inr (Online url))"

definition migration_env ::
  "bool \<Rightarrow> (string \<Rightarrow> string option) \<Rightarrow> (string \<Rightarrow> string result) \<Rightarrow> string option \<Rightarrow> migration_mode result" where
  "migration_env offline getenv names ini = (case configured_url getenv ini of Inl e \<Rightarrow> Inl e
     | Inr raw \<Rightarrow> if offline then run_migrations_offline names raw else run_migrations_online names raw)"

lemma drop_double_percent: "CHR ''%'' \<notin> set (drop_pairs (double_percent s))"
proof (induction s)
  case (Cons c s)
  show ?case
  proof (cases "c = CHR ''%''")
    case False
    then have "drop_pairs (c # t) = c # drop_pairs t" for t by (cases t) simp_all
    with Cons False show ?thesis by (simp add: double_percent_def)
  qed (use Cons in \<open>simp add: double_percent_def\<close>)
qed (simp add: double_percent_def)

lemma set_drop_references: "set (drop_references s) \<subseteq> set s"
proof (induction s rule: drop_references.induct)
  case (2 c s)
  show ?case
  proof (cases "if c = CHR ''%'' then reference s else None")
    case (Some nr)
    then obtain name r where nr: "nr = (name, r)" "reference s = Some (name, r)" by (cases nr) (auto split: if_splits)
    have "set (drop_references r) \<subseteq> set r" by (rule 2(2)) (use Some nr in auto)
    with Some reference_subset [OF nr(2)] nr(1) show ?thesis by auto
  qed (use 2 in auto)
qed simp

lemma interpolate_double_percent: "interpolate names (double_percent s) = Inr s"
  by (induction s) (simp_all add: double_percent_def)

text \<open>Alembic migrates the database that \<open>DATABASE_URL\<close> names, whatever characters it has, not that of the ini file.\<close>

lemma migrations_follow_the_environment:
  assumes "getenv ''DATABASE_URL'' = Some url" "url \<noteq> []"
  shows "migration_env offline getenv names ini = Inr (if offline then Offline (Some url) else Online url)"
proof -
  have "set_main_option (double_percent url) = Inr (double_percent url)"
    using drop_double_percent set_drop_references by (fastforce simp: set_main_option_def Let_def)
  then show ?thesis
    using assms by (cases url) (simp_all add: migration_env_def configured_url_def main_option_def
      run_migrations_offline_def run_migrations_online_def interpolate_double_percent)
qed

end
