(* ===== verification/Checkpoints.thy ===== *)
theory Checkpoints
  imports AuditChain
begin

text \<open>
  \<open>checkpoints.py\<close>: a signed statement of the head of the audit chain.  The signer and the
  Ed25519 library are parameters; base64 is the one of the standard library, and bytes are
  strings of characters below 256.
\<close>

section \<open>Base64\<close>

definition b64_alphabet :: string where
  "b64_alphabet = ''ABCDEFGHIJKLMNOPQRSTUVWXYZabcdefghijklmnopqrstuvwxyz0123456789+/''"

definition b64_char :: "nat \<Rightarrow> char" where
  "b64_char n = b64_alphabet ! n"

fun index_of :: "char \<Rightarrow> string \<Rightarrow> nat option" where
  "index_of c [] = None"
| "index_of c (x # xs) = (if c = x then Some 0 else map_option Suc (index_of c xs))"

definition b64_value :: "char \<Rightarrow> nat option" where
  "b64_value c = index_of c b64_alphabet"

definition byte :: "char \<Rightarrow> nat" where
  "byte c = of_char c"

fun b64encode :: "string \<Rightarrow> string" where
  "b64encode [] = []"
| "b64encode [a] = [b64_char (byte a div 4), b64_char (byte a mod 4 * 16), CHR ''='', CHR ''='']"
| "b64encode [a, b] = [b64_char (byte a div 4), b64_char (byte a mod 4 * 16 + byte b div 16),
     b64_char (byte b mod 16 * 4), CHR ''='']"
| "b64encode (a # b # c # r) =
     b64_char (byte a div 4) # b64_char (byte a mod 4 * 16 + byte b div 16) #
     b64_char (byte b mod 16 * 4 + byte c div 64) # b64_char (byte c mod 64) # b64encode r"

text \<open>
  \<open>binascii.a2b_base64\<close>: the position in the group of four, the bits left over, the padding
  characters in a row and whether padding has begun; \<open>strict\<close> is \<open>validate=True\<close>.  The texts of
  the errors are never shown, because every caller catches them.
\<close>

definition put :: "char \<Rightarrow> string result \<Rightarrow> string result" where
  "put c r = (case r of Inl e \<Rightarrow> Inl e | Inr s \<Rightarrow> Inr (c # s))"

fun a2b_base64 :: "bool \<Rightarrow> nat \<Rightarrow> nat \<Rightarrow> nat \<Rightarrow> bool \<Rightarrow> string \<Rightarrow> string result" where
  "a2b_base64 strict quad left pads padded [] =
     (if quad = 0 then Inr [] else Inl (ValueError ''Incorrect padding''))"
| "a2b_base64 strict quad left pads padded (c # cs) =
     (if c = CHR ''='' then
        (if 2 \<le> quad \<and> 4 \<le> quad + Suc pads then
           (if strict \<and> cs \<noteq> [] then Inl (ValueError ''Excess data after padding'') else Inr [])
         else a2b_base64 strict quad left (if 2 \<le> quad then Suc pads else pads) True cs)
      else case b64_value c of
        None \<Rightarrow> if strict then Inl (ValueError ''Only base64 data is allowed'')
                else a2b_base64 strict quad left pads padded cs
      | Some v \<Rightarrow>
          if strict \<and> padded then Inl (ValueError ''Discontinuous padding not allowed'')
          else if quad = 0 then a2b_base64 strict 1 v 0 padded cs
          else if quad = 1 then
            put (char_of (left * 4 + v div 16)) (a2b_base64 strict 2 (v mod 16) 0 padded cs)
          else if quad = 2 then
            put (char_of (left * 16 + v div 4)) (a2b_base64 strict 3 (v mod 4) 0 padded cs)
          else put (char_of (left * 64 + v)) (a2b_base64 strict 0 0 0 padded cs))"

definition b64decode :: "bool \<Rightarrow> string \<Rightarrow> string result" where
  "b64decode strict s =
     (if list_ex (\<lambda>c. 128 \<le> byte c) s
      then Inl (ValueError ''string argument should contain only ASCII characters'')
      else if strict \<and> s \<noteq> [] \<and> hd s = CHR ''=''
      then Inl (ValueError ''Leading padding not allowed'')
      else a2b_base64 strict 0 0 0 False s)"

lemma b64_char_props:
  assumes "n < 64"
  shows "b64_value (b64_char n) = Some n" "b64_char n \<noteq> CHR ''=''" "byte (b64_char n) < 128"
proof -
  have "list_all (\<lambda>n. b64_value (b64_char n) = Some n \<and> b64_char n \<noteq> CHR ''='' \<and> byte (b64_char n) < 128) [0..<64]"
    by code_simp
  then show "b64_value (b64_char n) = Some n" "b64_char n \<noteq> CHR ''=''" "byte (b64_char n) < 128"
    using assms by (simp_all add: list_all_iff)
qed

lemma byte_less: "byte c < 256"
  unfolding byte_def by (metis of_char_mod_256 mod_less_divisor zero_less_numeral)

lemma char_of_byte [simp]: "char_of (byte c) = c"
  by (simp add: byte_def)

lemma sextet_less:
  "byte a div 4 < 64" "byte a mod 4 * 16 < 64" "byte a mod 4 * 16 + byte b div 16 < 64"
  "byte a mod 16 * 4 < 64" "byte a mod 16 * 4 + byte b div 64 < 64" "byte a mod 64 < 64"
  using byte_less [of a] byte_less [of b] by linarith+

lemma byte_parts:
  "byte b div 16 div 16 = 0" "byte b div 16 mod 16 = byte b div 16"
  "byte b div 64 div 4 = 0" "byte b div 64 mod 4 = byte b div 64"
  using byte_less [of b] by (simp_all add: less_mult_imp_div_less)

lemma a2b_encode: "a2b_base64 strict 0 0 0 False (b64encode s) = Inr s"
  by (induction s rule: b64encode.induct)
    (simp_all add: b64_char_props sextet_less put_def byte_parts)

lemma b64encode_ascii: "list_all (\<lambda>c. byte c < 128) (b64encode s)"
  by (induction s rule: b64encode.induct) (simp_all add: b64_char_props sextet_less, simp_all add: byte_def)

lemma b64encode_hd: "b64encode s \<noteq> [] \<Longrightarrow> hd (b64encode s) \<noteq> CHR ''=''"
  by (cases s rule: b64encode.cases) (simp_all add: b64_char_props sextet_less)

lemma b64decode_encode: "b64decode strict (b64encode s) = Inr s"
  using b64encode_ascii [of s] b64encode_hd [of s]
  by (auto simp: b64decode_def a2b_encode list_ex_iff list_all_iff not_le)

section \<open>Bytes of a text\<close>

definition utf8_char :: "char \<Rightarrow> string" where
  "utf8_char c = (let n = byte c in
     if n < 128 then [c] else [char_of (192 + n div 64), char_of (128 + n mod 64)])"

definition utf8 :: "string \<Rightarrow> string" where
  "utf8 s = concat (map utf8_char s)"

lemma byte_char_of [simp]: "n < 256 \<Longrightarrow> byte (char_of n) = n"
  by (simp add: byte_def)

lemma byte_inject: "byte a = byte b \<longleftrightarrow> a = b"
  by (metis char_of_byte)

lemma utf8_char_prefix: "utf8_char a @ x = utf8_char b @ y \<Longrightarrow> a = b \<and> x = y"
  using byte_less [of a] byte_less [of b]
  by (auto simp: utf8_char_def Let_def byte_inject [symmetric] split: if_splits)
    (metis mod_mult_div_eq)+

lemma utf8_inject [simp]: "utf8 s = utf8 t \<longleftrightarrow> s = t"
proof
  have "utf8_char c \<noteq> []" for c by (simp add: utf8_char_def Let_def)
  then show "utf8 s = utf8 t \<Longrightarrow> s = t"
    by (induction s arbitrary: t; case_tac t) (auto simp: utf8_def dest: utf8_char_prefix)
qed simp

section \<open>Checkpoints\<close>

definition CHECKPOINT_VERSION :: string where
  "CHECKPOINT_VERSION = ''energy-flex-audit-checkpoint.v1''"

record checkpoint =
  cp_version :: string
  cp_key_id :: string
  cp_event_count :: int
  cp_head_hash :: string
  cp_issued_at :: string
  cp_signature :: string

definition signing_payload :: "checkpoint \<Rightarrow> string" where
  "signing_payload c = utf8 (canonical_json (PDict
     [(''version'', PStr (cp_version c)),
      (''key_id'', PStr (cp_key_id c)),
      (''event_count'', PInt (cp_event_count c)),
      (''head_hash'', PStr (cp_head_hash c)),
      (''issued_at'', PStr (cp_issued_at c))]))"

record signer =
  signer_key_id :: string
  signer_sign :: "string \<Rightarrow> string result"

text \<open>\<open>Ed25519SoftwareSigner\<close> over the signing function of a private key.\<close>

definition software_signer :: "string \<Rightarrow> (string \<Rightarrow> string) \<Rightarrow> signer" where
  "software_signer key private_sign =
     \<lparr>signer_key_id = key, signer_sign = (\<lambda>payload. Inr (private_sign payload))\<rparr>"

definition create_checkpoint ::
  "audit_verification \<Rightarrow> signer \<Rightarrow> datetime option \<Rightarrow> datetime \<Rightarrow> checkpoint result" where
  "create_checkpoint v sg issued clock =
     (if \<not> av_valid v then Inl (ValueError ''Cannot checkpoint an invalid audit chain.'')
      else
        let timestamp = (case issued of Some t \<Rightarrow> t | None \<Rightarrow> clock);
            unsigned = \<lparr>cp_version = CHECKPOINT_VERSION, cp_key_id = signer_key_id sg,
              cp_event_count = int (av_event_count v), cp_head_hash = av_head_hash v,
              cp_issued_at = isoformat (as_utc timestamp), cp_signature = ''''\<rparr> in
        case signer_sign sg (signing_payload unsigned) of Inl e \<Rightarrow> Inl e
        | Inr s \<Rightarrow> Inr (unsigned\<lparr>cp_signature := b64encode s\<rparr>))"

text \<open>The Ed25519 library: a public key from its bytes, and the check of a signature.\<close>

record 'k ed25519 =
  from_public_bytes :: "string \<Rightarrow> 'k result"
  verify_signature :: "'k \<Rightarrow> string \<Rightarrow> string \<Rightarrow> unit result"

definition check_signature ::
  "'k ed25519 \<Rightarrow> string \<Rightarrow> checkpoint \<Rightarrow> unit result" where
  "check_signature L encoded_key c =
     (case b64decode False encoded_key of Inl e \<Rightarrow> Inl e | Inr raw \<Rightarrow>
      case from_public_bytes L raw of Inl e \<Rightarrow> Inl e | Inr public_key \<Rightarrow>
      case b64decode True (cp_signature c) of Inl e \<Rightarrow> Inl e | Inr signature \<Rightarrow>
      verify_signature L public_key signature (signing_payload c))"

definition verify_checkpoint ::
  "'k ed25519 \<Rightarrow> checkpoint \<Rightarrow> (string \<Rightarrow> string option) \<Rightarrow> bool result" where
  "verify_checkpoint L c trusted_public_keys =
     (if cp_version c \<noteq> CHECKPOINT_VERSION then Inr False
      else case trusted_public_keys (cp_key_id c) of None \<Rightarrow> Inr False
      | Some encoded_key \<Rightarrow>
         (case check_signature L encoded_key c of
            Inr _ \<Rightarrow> Inr True
          | Inl e \<Rightarrow> if exn_name e \<in> {''ValueError'', ''InvalidSignature''} then Inr False else Inl e))"

lemma signing_payload_signature [simp]:
  "signing_payload (c\<lparr>cp_signature := x\<rparr>) = signing_payload c"
  by (simp add: signing_payload_def)

lemma signing_payload_binds:
  assumes "signing_payload c = signing_payload d"
  shows "c\<lparr>cp_signature := cp_signature d\<rparr> = d"
proof -
  let ?dict = "\<lambda>c. [(''version'', PStr (cp_version c)), (''key_id'', PStr (cp_key_id c)),
    (''event_count'', PInt (cp_event_count c)), (''head_hash'', PStr (cp_head_hash c)),
    (''issued_at'', PStr (cp_issued_at c))]"
  have eq: "map_option to_json (map_of (?dict c) k) = map_option to_json (map_of (?dict d) k)" for k
    by (rule to_json_dict_lookup)
      (use assms in \<open>simp_all del: to_json.simps add: signing_payload_def canonical_json_inject\<close>)
  show ?thesis
    using eq [of "''version''"] eq [of "''key_id''"] eq [of "''event_count''"] eq [of "''head_hash''"]
      eq [of "''issued_at''"] by (cases c; cases d) simp
qed

lemma create_checkpoint_Inr:
  assumes "create_checkpoint v sg issued clock = Inr c"
  obtains s where "av_valid v" "signer_sign sg (signing_payload c) = Inr s"
    "cp_version c = CHECKPOINT_VERSION" "cp_key_id c = signer_key_id sg"
    "cp_event_count c = int (av_event_count v)" "cp_head_hash c = av_head_hash v"
    "cp_signature c = b64encode s"
  using assms
  by (auto simp: create_checkpoint_def Let_def signing_payload_def split: if_splits sum.splits)

lemma verify_checkpoint_True:
  assumes "verify_checkpoint L c trusted = Inr True"
  obtains encoded raw k s where "cp_version c = CHECKPOINT_VERSION"
    "trusted (cp_key_id c) = Some encoded" "b64decode False encoded = Inr raw"
    "from_public_bytes L raw = Inr k" "b64decode True (cp_signature c) = Inr s"
    "verify_signature L k s (signing_payload c) = Inr ()"
  using assms
  by (auto simp: verify_checkpoint_def check_signature_def split: if_splits option.splits sum.splits)

end
