(* ===== verification/Columns.thy ===== *)
theory Columns
  imports Responses Leases Schema
begin

text \<open>
  The widths of the columns and the requests.  The widths the insertions of the model check are those
  the migrations declare, and what a validated request writes is never too long for them: the field
  bounds of \<open>schemas.py\<close> are there for the columns of \<open>models.py\<close>.  Columns of statuses and types
  hold the values of enumerations, which are all shorter than their columns.
\<close>

section \<open>The checked widths are the declared ones\<close>

lemma widths:
  "map (column_width ''assets'') [''id'', ''external_id'', ''owner_id'', ''location_code''] =
     [Some 36, Some 100, Some 100, Some 80]"
  "map (column_width ''flex_offers'') [''id'', ''created_by''] = [Some 36, Some 100]"
  "map (column_width ''reservations'') [''id'', ''requested_by''] = [Some 36, Some 100]"
  "map (column_width ''dispatches'') [''id'', ''issued_by'', ''adapter_reference''] = [Some 36, Some 100, Some 200]"
  "map (column_width ''meter_readings'') [''id'', ''source'', ''fingerprint'', ''recorded_by''] =
     [Some 36, Some 100, Some 64, Some 100]"
  "map (column_width ''settlements'') [''id'', ''evidence_hash'', ''settled_by''] = [Some 36, Some 64, Some 100]"
  by code_simp+

lemma fits_schema:
  "asset_fits a \<longleftrightarrow> admits ''assets'' ''id'' (ast_id a) \<and> admits ''assets'' ''external_id'' (ast_external_id a) \<and>
     admits ''assets'' ''owner_id'' (ast_owner_id a) \<and> admits ''assets'' ''location_code'' (ast_location_code a) \<and>
     numeric_fits (ast_capacity_kw a)"
  "offer_fits f \<longleftrightarrow> admits ''flex_offers'' ''id'' (ofr_id f) \<and> admits ''flex_offers'' ''created_by'' (ofr_created_by f) \<and>
     numeric_fits (ofr_quantity_kw f) \<and> numeric_fits (ofr_price_per_kwh f)"
  "reservation_fits r \<longleftrightarrow> admits ''reservations'' ''id'' (rsv_id r) \<and>
     admits ''reservations'' ''requested_by'' (rsv_requested_by r) \<and> numeric_fits (rsv_quantity_kw r)"
  "dispatch_fits d \<longleftrightarrow> admits ''dispatches'' ''id'' (dsp_id d) \<and> admits ''dispatches'' ''issued_by'' (dsp_issued_by d) \<and>
     pred_option (admits ''dispatches'' ''adapter_reference'') (dsp_adapter_reference d) \<and> numeric_fits (dsp_target_kw d)"
  "reading_fits g \<longleftrightarrow> admits ''meter_readings'' ''id'' (mtr_id g) \<and> admits ''meter_readings'' ''source'' (mtr_source g) \<and>
     admits ''meter_readings'' ''fingerprint'' (mtr_fingerprint g) \<and>
     admits ''meter_readings'' ''recorded_by'' (mtr_recorded_by g) \<and> numeric_fits (mtr_energy_kwh g)"
  "settlement_fits x \<longleftrightarrow> admits ''settlements'' ''id'' (stl_id x) \<and> admits ''settlements'' ''settled_by'' (stl_settled_by x) \<and>
     admits ''settlements'' ''evidence_hash'' (stl_evidence_hash x) \<and> numeric_fits (stl_delivered_kwh x) \<and>
     numeric_fits (stl_price_per_kwh x) \<and> numeric_fits (stl_amount x)"
  using widths
  by (auto simp: admits_def asset_fits_def offer_fits_def reservation_fits_def dispatch_fits_def reading_fits_def
      settlement_fits_def opt_fits_def split: option.splits)

section \<open>What a request writes fits\<close>

text \<open>What the callers bring: \<open>uuid4()\<close> has 36 characters, a SHA-256 in hexadecimal 64.\<close>

definition short_values :: "env \<Rightarrow> draws \<Rightarrow> actor \<Rightarrow> db \<Rightarrow> bool" where
  "short_values E d a s \<longleftrightarrow> (\<forall>i. length (uuid d i) \<le> 36) \<and> (\<forall>t. length (sha256 E t) \<le> 64) \<and>
     length (actor_id a) \<le> 100 \<and> fits_ok E s"

lemma short_simps:
  assumes "short_values E d a s"
  shows "length (uuid d i) \<le> 36" "length (uuid d i) \<le> 100" "length (actor_id a) \<le> 100"
    "length (request_hash E v) \<le> 64" "length (request_hash E v) \<le> 100"
proof -
  show u: "length (uuid d i) \<le> 36" and h: "length (request_hash E v) \<le> 64" and "length (actor_id a) \<le> 100"
    using assms by (simp_all add: short_values_def request_hash_def sha256_json_def)
  show "length (uuid d i) \<le> 100" "length (request_hash E v) \<le> 100" using u h by linarith+
qed

lemma latest_event_in: "latest_event s = Some e \<Longrightarrow> e \<in> set (events s)"
proof -
  assume "latest_event s = Some e"
  then obtain es where "rev (sort_key evt_sequence (events s)) = e # es"
    by (auto simp: latest_event_def split: list.splits)
  then have "e \<in> set (sort_key evt_sequence (events s))" by (metis list.set_intros(1) set_rev)
  then show ?thesis by simp
qed

lemma append_fits:
  assumes "short_values E d a s" "events t = events s"
    and "length ty \<le> 60" "length aid \<le> 36" "length et \<le> 100" "length actor \<le> 100" "length corr \<le> 100"
  shows "append_event E d i ty aid et actor corr payload t \<noteq> Inl (DataError tab)"
proof
  assume e: "append_event E d i ty aid et actor corr payload t = Inl (DataError tab)"
  then have st: "strict_widths E"
    by (auto simp: append_event_def append_after_def Let_def insert_event_def constrained_def split: sum.splits if_splits)
  have "length (evt_hash l) \<le> 64" if "latest_event (seen_events E d t) = Some l" for l
    using latest_event_in [OF that] assms(1,2) st
    by (auto simp: seen_events_def short_values_def fits_ok_def event_fits_def split: if_splits dest!: in_set_takeD)
  then have "length (case latest_event (seen_events E d t) of Some l \<Rightarrow> evt_hash l | None \<Rightarrow> GENESIS_HASH) \<le> 64"
    by (simp add: GENESIS_HASH_def split: option.split)
  with e assms show False
    by (auto simp: append_event_def append_after_def Let_def insert_event_def constrained_def event_fits_def
        short_values_def calculate_event_hash_def sha256_json_def split: sum.splits if_splits)
qed

lemma numeric_fits_stored: "digits_18_6 d \<Longrightarrow> numeric_fits (numeric6 d)"
  using digits_numeric6 [of d] by (simp add: digits_18_6_def numeric_fits_def)

lemma constrained_fits: "constrained E tab fits clash refs s = Inl (DataError tab') \<Longrightarrow> \<not> fits"
  by (auto simp: constrained_def split: if_splits)

lemma idem_insert_fits:
  "short_values E d a s \<Longrightarrow> length operation \<le> 80 \<Longrightarrow> length key \<le> 100 \<Longrightarrow> length ty \<le> 60 \<Longrightarrow> length rid \<le> 36 \<Longrightarrow>
     store_idempotency E d i operation key (request_hash E v) ty rid t \<noteq> Inl (DataError tab)"
  by (auto simp: store_idempotency_def insert_idem_def idem_fits_def short_values_def request_hash_def
      sha256_json_def dest!: constrained_fits)

lemma register_asset_fits:
  assumes "short_values E d a s" "validate_asset c0 = Inr c"
  shows "fst (register_asset E d c a s) \<noteq> Inl (DataError tab)"
proof
  assume e: "fst (register_asset E d c a s) = Inl (DataError tab)"
  have v: "digits_18_6 (ac_capacity_kw c)" "length (ac_external_id c) \<le> 100" "length (ac_owner_id c) \<le> 100"
    "length (ac_location_code c) \<le> 80"
    using assms(2) by (auto simp: validate_asset_def positive_field_def text_field_def split: if_splits)
  have ap: "append_event E d i ''asset'' (uuid d j) ''asset.registered'' (actor_id a) (uuid d k) payload t \<noteq> Inl (DataError tab)"
    if "insert_asset E x s = Inr t" for i j k payload t x
    by (rule append_fits [OF assms(1) insert_events(1) [OF that]]) (simp_all add: short_simps [OF assms(1)])
  show False
    using e v ap
    by (auto simp: register_asset_def register_asset_tx_def transaction_def require_role_def Let_def
        split: sum.splits option.splits if_splits prod.splits)
      (auto simp: insert_asset_def asset_fits_def store_asset_def short_simps [OF assms(1)] numeric_fits_stored
        dest!: constrained_fits)
qed

lemma create_offer_fits:
  assumes "short_values E d a s" "validate_offer c0 = Inr c"
  shows "fst (create_offer E d c a s) \<noteq> Inl (DataError tab)"
proof
  assume e: "fst (create_offer E d c a s) = Inl (DataError tab)"
  have v: "digits_18_6 (oc_quantity_kw c)" "digits_18_6 (oc_price_per_kwh c)"
    using assms(2) by (auto simp: validate_offer_def positive_field_def nonneg_field_def validate_window_ok split: if_splits)
  have ap: "append_event E d i ''offer'' (uuid d j) ''offer.created'' (actor_id a) (uuid d k) payload t \<noteq> Inl (DataError tab)"
    if "insert_offer E x s = Inr t" for i j k payload t x
    by (rule append_fits [OF assms(1) insert_events(2) [OF that]]) (simp_all add: short_simps [OF assms(1)])
  show False
    using e v ap
    by (auto simp: create_offer_def create_offer_tx_def transaction_def require_role_def Let_def find_asset_def
        not_found_def split: sum.splits option.splits if_splits prod.splits)
      (auto simp: insert_offer_def offer_fits_def store_offer_def short_simps [OF assms(1)] numeric_fits_stored
        dest!: constrained_fits)
qed

lemma reserve_offer_fits:
  assumes "short_values E d a s" "validate_reservation c0 = Inr c" "length key \<le> 100"
  shows "fst (reserve_offer E d oid c a key s) \<noteq> Inl (DataError tab)"
proof
  assume e: "fst (reserve_offer E d oid c a key s) = Inl (DataError tab)"
  have v: "digits_18_6 (rc_quantity_kw c)"
    using assms(2) by (auto simp: validate_reservation_def positive_field_def split: if_splits)
  have ap: "append_event E d i ''reservation'' (uuid d j) ''offer.reserved'' (actor_id a) key payload t \<noteq> Inl (DataError tab)"
    if "insert_reservation E x (set_offer k f s) = Inr t" for i j k payload t x f
    by (rule append_fits [OF assms(1)])
      (use insert_events(3) [OF that] assms(3) in \<open>simp_all add: short_simps [OF assms(1)] set_defs\<close>)
  have id: "store_idempotency E d i ''reserve_offer'' key (request_hash E v) ''reservation'' (uuid d j) t \<noteq> Inl (DataError tab)"
    for i v j t using assms(1) by (rule idem_insert_fits) (simp_all add: short_simps [OF assms(1)] assms(3))
  show False
    using e v ap id
    by (auto simp: reserve_offer_def reserve_offer_tx_def transaction_def require_role_def Let_def find_offer_def
        idempotent_resource_def not_found_def split: sum.splits option.splits if_splits prod.splits)
      (auto simp: insert_reservation_def reservation_fits_def store_reservation_def short_simps [OF assms(1)]
        numeric_fits_stored dest!: constrained_fits)
qed

lemma enqueue_fits:
  assumes "short_values E d a s" "length key \<le> 100" "length (sig_dispatch_id sg) \<le> 36"
  shows "enqueue_dispatch E d i sg key t \<noteq> Inl (DataError tab)"
  using assms(2,3) short_simps(1) [OF assms(1)]
  by (auto simp: enqueue_dispatch_def Let_def insert_message_def message_fits_def opt_fits_def DISPATCH_TOPIC_def
      split: sum.splits if_splits dest!: constrained_fits)

lemma enqueue_events: "enqueue_dispatch E d i sg key t = Inr (m, u) \<Longrightarrow> events u = events t"
  by (auto simp: enqueue_dispatch_def Let_def dest: insert_events(8) split: sum.splits if_splits)

lemma issue_dispatch_fits:
  assumes "short_values E d a s" "validate_dispatch c0 = Inr c" "length key \<le> 100"
  shows "fst (issue_dispatch E d rid c a key s) \<noteq> Inl (DataError tab)"
proof
  assume e: "fst (issue_dispatch E d rid c a key s) = Inl (DataError tab)"
  have v: "digits_18_6 (dc_target_kw c)"
    using assms(2) by (auto simp: validate_dispatch_def positive_field_def validate_window_ok split: if_splits)
  have en: "enqueue_dispatch E d i sg key t \<noteq> Inl (DataError tab)" if "sig_dispatch_id sg = uuid d j" for i sg t j
    using assms(1,3) by (rule enqueue_fits) (simp add: that short_simps [OF assms(1)])
  have ap: "append_event E d i ''dispatch'' (uuid d j) ''dispatch.queued'' (actor_id a) key payload
      (set_reservation q h (set_dispatch k f u)) \<noteq> Inl (DataError tab)"
    if "insert_dispatch E x s = Inr t" "enqueue_dispatch E d n sg key t = Inr (m, u)" for i j k payload t x f n sg m u q h
    by (rule append_fits [OF assms(1)])
      (use insert_events(4) [OF that(1)] enqueue_events [OF that(2)] assms(3) in
        \<open>simp_all add: short_simps [OF assms(1)] set_defs\<close>)
  have id: "store_idempotency E d i ''issue_dispatch'' key (request_hash E v) ''dispatch'' (uuid d j) t \<noteq> Inl (DataError tab)"
    for i v j t using assms(1) by (rule idem_insert_fits) (simp_all add: short_simps [OF assms(1)] assms(3))
  show False
    using e v ap id en
    by (auto simp: issue_dispatch_def issue_dispatch_tx_def transaction_def require_role_def Let_def find_offer_def
        find_reservation_def find_asset_def idempotent_resource_def not_found_def
        split: sum.splits option.splits if_splits prod.splits)
      (auto simp: insert_dispatch_def dispatch_fits_def store_dispatch_def opt_fits_def short_simps [OF assms(1)]
        numeric_fits_stored dest!: constrained_fits)
qed

lemma record_meter_reading_fits:
  assumes "short_values E d a s" "validate_meter_reading c0 = Inr c"
  shows "fst (record_meter_reading E d c a s) \<noteq> Inl (DataError tab)"
proof
  assume e: "fst (record_meter_reading E d c a s) = Inl (DataError tab)"
  have v: "digits_18_6 (mc_energy_kwh c)" "length (mc_source c) \<le> 100"
    using assms(2)
    by (auto simp: validate_meter_reading_def nonneg_field_def text_field_def validate_window_ok split: if_splits)
  have ap: "append_event E d i ''meter_reading'' (uuid d j) ''meter_reading.recorded'' (actor_id a) (request_hash E w)
      payload t \<noteq> Inl (DataError tab)"
    if "insert_reading E x s = Inr t" for i j payload t x w
    by (rule append_fits [OF assms(1) insert_events(5) [OF that]]) (simp_all add: short_simps [OF assms(1)])
  show False
    using e v ap
    by (auto simp: record_meter_reading_def record_meter_reading_tx_def transaction_def require_role_def Let_def
        find_asset_def not_found_def split: sum.splits option.splits if_splits prod.splits)
      (auto simp: insert_reading_def reading_fits_def store_reading_def short_simps [OF assms(1)] numeric_fits_stored
        dest!: constrained_fits)
qed

text \<open>A settlement can only fail on its own amounts, which are sums and products.\<close>

lemma quantize_error: "dec_quantize m q x \<noteq> Inl (DataError tab)"
  by (simp add: dec_quantize_def Let_def)

lemma settle_reservation_fits:
  assumes "short_values E d a s" "length key \<le> 100" "fst (settle_reservation E d rid a key s) = Inl (DataError tab)"
  shows "tab = ''settlements''"
proof (rule ccontr)
  assume n: "tab \<noteq> ''settlements''"
  have i: "insert_settlement E x s \<noteq> Inl (DataError tab)" for x
    using n by (auto simp: insert_settlement_def constrained_def)
  have ap: "append_event E d i ''settlement'' (uuid d j) ''settlement.calculated'' (actor_id a) key payload t \<noteq> Inl (DataError tab)"
    if "insert_settlement E x s = Inr t" for i j payload t x
    by (rule append_fits [OF assms(1) insert_events(6) [OF that]]) (simp_all add: short_simps [OF assms(1)] assms(2))
  have id: "store_idempotency E d i ''settle_reservation'' key (request_hash E v) ''settlement'' (uuid d j) t \<noteq> Inl (DataError tab)"
    for i v j t using assms(1) by (rule idem_insert_fits) (simp_all add: short_simps [OF assms(1)] assms(2))
  show False
    using assms(3) i ap id
    by (auto simp: settle_reservation_def settle_reservation_tx_def transaction_def require_role_def Let_def find_offer_def
        find_reservation_def idempotent_resource_def not_found_def delivered_energy_def settlement_amount_def quantize_error
        split: sum.splits option.splits if_splits prod.splits)
qed

end
