(* ===== verification/PropertiesDeployment.thy ===== *)
theory PropertiesDeployment
  imports Startup Checkpoints Columns PropertiesData PropertiesService
begin

text \<open>
  What is promised around the running platform: by the migrations and the check of the schema, by
  the worker and recovery processes, by signed checkpoints and by the recovery drill.
\<close>

section \<open>The schema\<close>

text \<open>C33: The two migrations build the schema the models declare.  Applied in order to an empty
  database they succeed and leave exactly the tables, columns, types, keys, unique constraints,
  foreign keys and indexes that \<open>create_all\<close> creates from \<open>models.py\<close>; the schema check of a managed
  process accepts the result, refuses the database after the first migration alone, and refuses
  the tables of \<open>create_all\<close> without a revision.  The second downgrade leads back to what the first
  migration builds, and both downgrades to an empty database.\<close>

theorem migrations_match_models:
  "run_ops (upgrade_0001 @ upgrade_0002) [] = Inr (declared_schema declared_models) \<and>
   cat_schema (create_all \<lparr>cat_schema = [], cat_version = None\<rparr>) = declared_schema declared_models \<and>
   verify_managed_schema \<lparr>cat_schema = declared_schema declared_models, cat_version = Some [''0002_reliable_outbox'']\<rparr> = Inr () \<and>
   (case half_migrated of Inl e \<Rightarrow> Inl e | Inr c \<Rightarrow> verify_managed_schema c) =
     Inl (RuntimeError ''Managed database is missing required tables: outbox_messages.'') \<and>
   verify_managed_schema (create_all \<lparr>cat_schema = [], cat_version = None\<rparr>) =
     Inl (RuntimeError (''Managed database has no Alembic revision. Run '' @ squote @ ''alembic upgrade head'' @
       squote @ ''.'')) \<and>
   run_ops downgrade_0002 (declared_schema declared_models) = run_ops upgrade_0001 [] \<and>
   run_ops (downgrade_0002 @ downgrade_0001) (declared_schema declared_models) = Inr []"
proof (intro conjI)
  show "run_ops downgrade_0002 (declared_schema declared_models) = run_ops upgrade_0001 []" by code_simp
  show "run_ops (downgrade_0002 @ downgrade_0001) (declared_schema declared_models) = Inr []" by code_simp
  show "run_ops (upgrade_0001 @ upgrade_0002) [] = Inr (declared_schema declared_models)" by code_simp
  show "cat_schema (create_all \<lparr>cat_schema = [], cat_version = None\<rparr>) = declared_schema declared_models"
    by (simp add: create_all_def table_names_def)
  show "verify_managed_schema \<lparr>cat_schema = declared_schema declared_models, cat_version = Some [''0002_reliable_outbox'']\<rparr> = Inr ()"
    by code_simp
  show "(case half_migrated of Inl e \<Rightarrow> Inl e | Inr c \<Rightarrow> verify_managed_schema c) =
     Inl (RuntimeError ''Managed database is missing required tables: outbox_messages.'')"
    by (rule verify_half_migrated)
  show "verify_managed_schema (create_all \<lparr>cat_schema = [], cat_version = None\<rparr>) =
     Inl (RuntimeError (''Managed database has no Alembic revision. Run '' @ squote @ ''alembic upgrade head'' @
       squote @ ''.''))"
    by code_simp
qed

text \<open>C34: A validated request never breaks a column.  In every reachable state, on a backend that enforces
  the declared widths, a command that its model accepted makes the service write only rows that fit:
  registering, offering, reserving, dispatching and metering never end in a data error, and a
  settlement only on its own amounts, which are sums and products of what was stored.  The caller
  brings identifiers of 36 characters, hashes of 64, and an actor and a key of at most 100 each.\<close>

theorem validated_requests_fit:
  assumes "reach (step E) start p"
    and "\<forall>i. length (uuid d i) \<le> 36" "\<forall>t. length (sha256 E t) \<le> 64"
    and "length (actor_id a) \<le> 100" "length key \<le> 100"
  shows "(\<forall>c. validate_asset c = Inr c \<longrightarrow> fst (register_asset E d c a (store p)) \<noteq> Inl (DataError tab)) \<and>
     (\<forall>c. validate_offer c = Inr c \<longrightarrow> fst (create_offer E d c a (store p)) \<noteq> Inl (DataError tab)) \<and>
     (\<forall>c. validate_reservation c = Inr c \<longrightarrow> fst (reserve_offer E d oid c a key (store p)) \<noteq> Inl (DataError tab)) \<and>
     (\<forall>c. validate_dispatch c = Inr c \<longrightarrow> fst (issue_dispatch E d rid c a key (store p)) \<noteq> Inl (DataError tab)) \<and>
     (\<forall>c. validate_meter_reading c = Inr c \<longrightarrow> fst (record_meter_reading E d c a (store p)) \<noteq> Inl (DataError tab)) \<and>
     (fst (settle_reservation E d rid a key (store p)) = Inl (DataError tab) \<longrightarrow> tab = ''settlements'')"
proof -
  have s: "short_values E d a (store p)"
    using assms(2-4) reach_fits [OF assms(1)] by (simp add: short_values_def)
  show ?thesis
    using register_asset_fits [OF s] create_offer_fits [OF s] reserve_offer_fits [OF s _ assms(5)]
      issue_dispatch_fits [OF s _ assms(5)] record_meter_reading_fits [OF s] settle_reservation_fits [OF s assms(5)]
    by blast
qed

text \<open>The bound is needed: the service itself would write a location code of 81 characters.\<close>

theorem validated_requests_fit_witness:
  "(\<forall>tab. fst (register_asset strict_env (D 1) asset_cmd owner empty_db) \<noteq> Inl (DataError tab)) \<and>
   fst (register_asset strict_env (D 1) (asset_cmd\<lparr>ac_location_code := replicate 81 (CHR ''x'')\<rparr>) owner empty_db) =
     Inl (DataError ''assets'')"
proof
  have w: "\<forall>i. length (uuid (D 1) i) \<le> 36" "\<forall>t. length (sha256 strict_env t) \<le> 64" "length (actor_id owner) \<le> 100"
    by (simp_all add: D_def strict_env_def recovery_owner_def)
  show "\<forall>tab. fst (register_asset strict_env (D 1) asset_cmd owner empty_db) \<noteq> Inl (DataError tab)"
    using validated_requests_fit [OF reach_refl w, of "[]"] valid_commands(1) by (simp add: start_def)
  show "fst (register_asset strict_env (D 1) (asset_cmd\<lparr>ac_location_code := replicate 81 (CHR ''x'')\<rparr>) owner empty_db) =
      Inl (DataError ''assets'')"
    by (simp add: register_asset_def register_asset_tx_def require_role_def transaction_def insert_asset_def constrained_def
        Let_def empty_db_def asset_fits_def store_asset_def strict_env_def lookup_Nil recovery_owner_def fixture_asset_def)
qed

section \<open>The processes\<close>

text \<open>C35: Managed processes fail closed.  Outside development and test a worker that was given no
  adapter, or that finds a required table missing or another revision than the one it was built
  for, raises before it touches the database or an adapter, and the API does not start on such a
  schema.  The recovery command does so without
  the acknowledgement, without a database URL of its own, or on such a schema.\<close>

theorem managed_processes_fail_closed:
  assumes "environment c \<notin> set SAFE_ENVIRONMENTS"
    and bad: "\<And>vs. set expected_tables \<subseteq> set (map tbl_name (cat_schema cat)) \<Longrightarrow>
      cat_version cat \<noteq> Some (EXPECTED_SCHEMA_REVISION # vs)"
  shows "(\<exists>e. worker_run_once E c limit given ds cat s p = (Inl e, s, p)) \<and>
    (\<exists>e. worker_run_once E c limit None ds good s p = (Inl e, s, p)) \<and>
    (\<exists>e. create_app_start c cat = Inl e) \<and>
    (\<exists>e. recovery_main E d getenv args cat s = (Inl e, s)) \<and>
    (\<exists>e. recovery_main E d (getenv(''DATABASE_URL'' := None)) args good s = (Inl e, s)) \<and>
    (\<exists>e. recovery_main E d getenv (args\<lparr>arg_acknowledged := False\<rparr>) good s = (Inl e, s))"
proof -
  have "''alembic_version'' \<notin> set expected_tables" by (rule expected_names)
  then have "\<exists>e. verify_managed_schema cat = Inl e"
    using bad verify_managed_schema_Inr [of cat "()"] by (cases "verify_managed_schema cat") auto
  then obtain e where e: "initialize_database True cat = Inl e"
    by (auto simp: initialize_database_def)
  have w: "\<exists>e. worker_run_once E c limit g ds ca s p = (Inl e, s, p)"
    if "g = None \<or> initialize_database True ca = Inl e" for g ca
    using that assms(1)
    by (auto simp: worker_run_once_def resolve_publisher_def split: sum.split option.split)
  then show ?thesis
    using e assms(1)
    by (auto simp: recovery_main_def recovery_database_url_def strip_def create_app_start_def split: sum.split)
qed

theorem managed_processes_fail_closed_witness:
  "(\<exists>e. worker_run_once E0 prod 10 (Some noop_publish) drill_draws
      \<lparr>cat_schema = declared_schema declared_models, cat_version = Some [''0001_initial_schema'']\<rparr> (S4 []) () =
      (Inl e, S4 [], ())) \<and>
   (\<exists>e. worker_run_once E0 prod 10 None drill_draws head_catalogue (S4 []) () = (Inl e, S4 [], ()))"
proof -
  have p: "environment prod \<notin> set SAFE_ENVIRONMENTS"
    by (simp add: prod_def from_environment_def getenv_default_def SAFE_ENVIRONMENTS_def)
  show ?thesis
    using managed_processes_fail_closed [OF p, of "\<lparr>cat_schema = declared_schema declared_models,
      cat_version = Some [''0001_initial_schema'']\<rparr>" E0 10 "Some noop_publish" drill_draws "S4 []" "()" head_catalogue]
    by (auto simp: EXPECTED_SCHEMA_REVISION_def)
qed

section \<open>Checkpoints\<close>

text \<open>C32: A created checkpoint verifies.  A checkpoint made of a verification carries its event count
  and head, is made only when that verification was valid, and is accepted by everyone who trusts
  the signer's public key under its key id, provided the key accepts what the signer signs.\<close>

theorem checkpoint_round_trip:
  assumes "create_checkpoint v sg issued clock = Inr c"
    and "trusted (signer_key_id sg) = Some (b64encode raw)" "from_public_bytes L raw = Inr k"
    and "\<And>payload x. signer_sign sg payload = Inr x \<Longrightarrow> verify_signature L k x payload = Inr ()"
  shows "verify_checkpoint L c trusted = Inr True \<and> av_valid v \<and>
    cp_event_count c = int (av_event_count v) \<and> cp_head_hash c = av_head_hash v"
  using assms(1)
proof (rule create_checkpoint_Inr, goal_cases)
  case (1 s)
  then show ?case
    using assms(2-4) by (simp add: verify_checkpoint_def check_signature_def b64decode_encode)
qed

definition toy_key :: string where
  "toy_key = replicate 32 (CHR ''k'')"

definition toy_signer :: signer where
  "toy_signer = software_signer ''checkpoint-key-1'' (\<lambda>payload. toy_key @ payload)"

definition toy_ed25519 :: "string ed25519" where
  "toy_ed25519 = \<lparr>from_public_bytes = (\<lambda>b. if length b = 32 then Inr b else Inl (ValueError ''key'')),
     verify_signature = (\<lambda>k x payload. if x = k @ payload then Inr ()
       else Inl (OtherError ''InvalidSignature'' []))\<rparr>"

definition toy_trust :: "string \<Rightarrow> string option" where
  "toy_trust = [''checkpoint-key-1'' \<mapsto> b64encode toy_key]"

definition seven :: audit_verification where
  "seven = \<lparr>av_valid = True, av_event_count = 7, av_head_hash = replicate 64 (CHR ''a''), av_broken_sequence = None\<rparr>"

theorem checkpoint_round_trip_witness:
  "\<exists>c. create_checkpoint seven toy_signer None (clock_at 1) = Inr c \<and>
     verify_checkpoint toy_ed25519 c toy_trust = Inr True \<and> cp_event_count c = 7"
proof -
  obtain c where c: "create_checkpoint seven toy_signer None (clock_at 1) = Inr c"
    by (simp add: create_checkpoint_def seven_def toy_signer_def software_signer_def Let_def)
  have t: "toy_trust (signer_key_id toy_signer) = Some (b64encode toy_key)"
    "from_public_bytes toy_ed25519 toy_key = Inr toy_key"
    by (simp_all add: toy_trust_def toy_signer_def software_signer_def toy_ed25519_def toy_key_def)
  have "verify_signature toy_ed25519 toy_key x payload = Inr ()"
    if "signer_sign toy_signer payload = Inr x" for payload x
    using that by (simp add: toy_ed25519_def toy_signer_def software_signer_def)
  from checkpoint_round_trip [OF c, where L = toy_ed25519 and trusted = toy_trust, OF t] this c
  show ?thesis by (auto simp: seven_def)
qed

text \<open>C31: A verified checkpoint fixes the history.  Let every payload the trusted key accepts have been
  signed for a verification of one of the databases \<open>past\<close>.  If a checkpoint verifies, and a
  database verifies with the event count and the head the checkpoint names, then that database holds
  the events of one of those past databases, in the same order and with the same contents, unless
  the hash collides on two of the texts involved.\<close>

theorem checkpoint_fixes_history:
  assumes "verify_checkpoint L c trusted = Inr True"
    and "\<And>encoded raw k x payload. trusted (cp_key_id c) = Some encoded \<Longrightarrow>
      b64decode False encoded = Inr raw \<Longrightarrow> from_public_bytes L raw = Inr k \<Longrightarrow>
      verify_signature L k x payload = Inr () \<Longrightarrow>
      \<exists>s\<in>past. \<exists>issued clock c'. create_checkpoint (verify_chain E s) sg issued clock = Inr c' \<and>
        signing_payload c' = payload"
    and "av_valid (verify_chain E t)" "int (length (events t)) = cp_event_count c"
    and "av_head_hash (verify_chain E t) = cp_head_hash c"
    and "\<And>s e f. s \<in> past \<Longrightarrow> e \<in> set (events s) \<Longrightarrow> f \<in> set (events t) \<Longrightarrow>
      sha256 E (event_text e) = sha256 E (event_text f) \<Longrightarrow> event_text e = event_text f"
  shows "\<exists>s\<in>past. list_all2 same_content (history s) (history t)"
  using assms(1)
proof (rule verify_checkpoint_True, goal_cases)
  case (1 encoded raw k x)
  then obtain s issued clock c' where s: "s \<in> past"
      "create_checkpoint (verify_chain E s) sg issued clock = Inr c'" "signing_payload c' = signing_payload c"
    using assms(2) by blast
  have "c'\<lparr>cp_signature := cp_signature c\<rparr> = c" using s(3) by (rule signing_payload_binds)
  then have eq: "cp_event_count c' = cp_event_count c" "cp_head_hash c' = cp_head_hash c"
    by (cases c', cases c, simp)+
  from s(2) have "av_valid (verify_chain E s)" "length (events s) = length (events t)"
    "av_head_hash (verify_chain E s) = av_head_hash (verify_chain E t)"
    by (rule create_checkpoint_Inr, use eq assms(4,5) in simp)+
  with s(1) assms(3,6) show ?case
    by (intro bexI [of _ s] verify_chain_binds [where E = E]) simp_all
qed

definition only_signed :: "checkpoint \<Rightarrow> string ed25519" where
  "only_signed c = toy_ed25519\<lparr>verify_signature := (\<lambda>k x payload.
     if x = toy_key @ signing_payload c \<and> payload = signing_payload c then Inr ()
     else Inl (OtherError ''InvalidSignature'' []))\<rparr>"

theorem checkpoint_fixes_history_witness:
  "\<exists>c. create_checkpoint (verify_chain E0 (sample_log ''alice'')) toy_signer None (clock_at 2) = Inr c \<and>
     verify_checkpoint (only_signed c) c toy_trust = Inr True \<and>
     list_all2 same_content (history (sample_log ''alice'')) (history ((sample_log ''alice'')\<lparr>assets := [a1]\<rparr>))"
proof -
  let ?s = "sample_log ''alice''" and ?t = "(sample_log ''alice'')\<lparr>assets := [a1]\<rparr>"
  have valid: "verify_chain E0 ?t = verify_chain E0 ?s" "av_valid (verify_chain E0 ?s)" "events ?t = events ?s"
    by (simp_all add: verify_chain_def sample_log_def sample_event_seal)
  obtain c where c: "create_checkpoint (verify_chain E0 ?s) toy_signer None (clock_at 2) = Inr c"
    using valid(2) by (simp add: create_checkpoint_def toy_signer_def software_signer_def Let_def)
  then have f: "cp_version c = CHECKPOINT_VERSION" "cp_key_id c = ''checkpoint-key-1''"
      "cp_event_count c = int (length (events ?s))" "cp_head_hash c = av_head_hash (verify_chain E0 ?s)"
      "cp_signature c = b64encode (toy_key @ signing_payload c)"
    by (auto elim!: create_checkpoint_Inr simp: toy_signer_def software_signer_def)
  have v: "verify_checkpoint (only_signed c) c toy_trust = Inr True"
    by (simp add: verify_checkpoint_def f check_signature_def toy_trust_def b64decode_encode only_signed_def
        toy_ed25519_def) (simp add: toy_key_def)
  have "\<exists>s\<in>{?s}. list_all2 same_content (history s) (history ?t)"
  proof (rule checkpoint_fixes_history [OF v, where E = E0 and sg = toy_signer])
    show "\<exists>s\<in>{?s}. \<exists>issued clock c'. create_checkpoint (verify_chain E0 s) toy_signer issued clock = Inr c' \<and>
        signing_payload c' = payload" if "verify_signature (only_signed c) k x payload = Inr ()" for k x payload
      using that c by (auto simp: only_signed_def split: if_splits)
  qed (use valid f in \<open>simp_all add: E0_def\<close>)
  with c v show ?thesis by blast
qed

section \<open>The recovery drill\<close>

text \<open>C36: What the drill seeds, the drill accepts.  When seeding a database the platform has reached
  succeeds, the database it leaves is again one the platform reaches, and the \<open>verify\<close> command accepts
  it with the file the \<open>seed\<close> command wrote and changes nothing: the amount in memory and the stored one
  print alike.\<close>

theorem seeded_fixture_verifies:
  assumes "reach (step E) start p" "drill_main E ds getenv cat Seed (store p) = (Inr (Some written), t)"
  shows "reach (step E) start (p\<lparr>store := t\<rparr>) \<and> drill_main E ds' getenv cat (Verify written) t = (Inr None, t)"
  using assms(1) assms(2) [unfolded drill_main_Seed] seed_fixture_accepted seed_fixture_moves [of E "store p" ds getenv cat]
  by (auto simp: drill_main_Verify intro: reach_trans [OF moves_reach])

theorem seeded_fixture_verifies_witness:
  "\<exists>written t. drill_main E0 drill_draws drill_env head_catalogue Seed empty_db = (Inr (Some written), t) \<and>
     drill_main E0 drill_draws drill_env head_catalogue (Verify written) t = (Inr None, t)"
proof -
  obtain written es where r: "drill_main E0 drill_draws drill_env head_catalogue Seed (store start) = (Inr (Some written), S8 es)"
    unfolding drill_main_Seed using seed_run by (auto simp: start_def)
  from seeded_fixture_verifies [OF reach_refl r] r show ?thesis by (auto simp: start_def)
qed

text \<open>C37: The drill tells databases apart.  Two databases that pass it with one report, the one that
  was dumped and the one that was restored, hold the same audit history, the same evidence and the
  same printed amount of the settlement, and as many published messages, unless the hash collides
  on two of the texts involved.\<close>

theorem restored_database_is_the_same:
  assumes "verify_fixture E getenv cat expected s = Inr ()" "verify_fixture E getenv' cat' expected t = Inr ()"
    and "\<And>e f. e \<in> set (events s) \<Longrightarrow> f \<in> set (events t) \<Longrightarrow>
      sha256 E (event_text e) = sha256 E (event_text f) \<Longrightarrow> event_text e = event_text f"
    and "\<And>x y. x \<in> set (settlements s) \<Longrightarrow> y \<in> set (settlements t) \<Longrightarrow>
      sha256_json E (stl_evidence_manifest x) = sha256_json E (stl_evidence_manifest y) \<Longrightarrow>
      canonical_json (stl_evidence_manifest x) = canonical_json (stl_evidence_manifest y)"
  shows "list_all2 same_content (history s) (history t) \<and> published_count s = published_count t \<and>
    (\<exists>x\<in>set (settlements s). \<exists>y\<in>set (settlements t). stl_id x = stl_id y \<and>
       dec_format (stl_amount x) = dec_format (stl_amount y) \<and>
       to_json (stl_evidence_manifest x) = to_json (stl_evidence_manifest y))"
  using assms(1)
proof (rule verify_fixture_Inr, goal_cases)
  case (1 v x)
  note s = 1
  from assms(2) show ?case
  proof (rule verify_fixture_Inr, goal_cases)
    case (1 v' y)
    have eq: "length (events s) = length (events t)" "published_count s = published_count t"
      "av_head_hash (verify_chain E s) = av_head_hash (verify_chain E t)"
      "stl_evidence_hash x = stl_evidence_hash y" "dec_format (stl_amount x) = dec_format (stl_amount y)"
      using py_eq_unique [OF s(3) 1(3)] py_eq_unique [OF s(4) 1(4)] py_eq_unique [OF s(7) 1(7)]
        py_eq_unique [OF s(8) 1(8)] py_eq_unique [OF s(9) 1(9)] by simp_all
    have "list_all2 same_content (history s) (history t)"
      by (rule verify_chain_binds [where E = E]) (use s(6) 1(6) eq assms(3) in simp_all)
    moreover have "x \<in> set (settlements s)" "y \<in> set (settlements t)" "stl_id x = stl_id y"
      using lookup_Some [OF s(2)] lookup_Some [OF 1(2)] s(1) 1(1) by simp_all
    moreover from this have "to_json (stl_evidence_manifest x) = to_json (stl_evidence_manifest y)"
      using assms(4) [of x y] s(5) 1(5) eq(4) by (simp add: canonical_json_inject)
    ultimately show ?case using eq by blast
  qed
qed

theorem restored_database_is_the_same_witness:
  "\<exists>s. events s \<noteq> [] \<and> length (settlements s) = 1 \<and> idem s \<noteq> [] \<and>
     list_all2 same_content (history s) (history (s\<lparr>idem := []\<rparr>))"
proof -
  obtain fx es where r: "seed_fixture E0 drill_draws drill_env head_catalogue (store start) = (Inr fx, S8 es)" "es \<noteq> []"
    using seed_run by (auto simp: start_def)
  have a: "verify_fixture E0 drill_env head_catalogue (report_json fx) (S8 es) = Inr ()"
    by (rule seed_fixture_accepted [OF reach_refl r(1)])
  then have "verify_fixture E0 drill_env head_catalogue (report_json fx) ((S8 es)\<lparr>idem := []\<rparr>) = Inr ()"
    by (simp add: verify_fixture_idem)
  from restored_database_is_the_same [OF a this] r(2) show ?thesis
    by (intro exI [of _ "S8 es"]) (auto simp: E0_def sha256_json_def S8_def)
qed

end
