(* ===== verification/ReleaseChecks.thy ===== *)
theory ReleaseChecks
  imports Models PyValues
begin

text \<open>
  The release scripts: \<open>verify_advisory_exceptions.py\<close>, \<open>generate_sbom.py\<close> and
  \<open>verify_db_privileges.py\<close>.  What they read from outside is a parameter: the decoded exception
  file, the syntax trees of the sources, the clock and the installed distributions; and,
  for each role, a connection that answers PostgreSQL's privilege questions.
\<close>

section \<open>Advisory exceptions\<close>

text \<open>\<open>str(item.get(key, ""))\<close>\<close>

definition text_of :: "(string \<times> json) list \<Rightarrow> string \<Rightarrow> string" where
  "text_of item key = (case map_of item key of None \<Rightarrow> '''' | Some v \<Rightarrow> py_str v)"

definition advisory_id :: "(string \<times> json) list \<Rightarrow> string" where
  "advisory_id item = strip (text_of item ''id'')"

text \<open>The names of an entry that the sources use, sorted.\<close>

definition forbidden_names :: "string set \<Rightarrow> json list \<Rightarrow> string list" where
  "forbidden_names symbols names =
     sort (remdups (filter (\<lambda>n. n \<in> symbols) (map py_str names)))"

text \<open>The failures an entry with a new identifier adds after its expiry was read.\<close>

definition scope_failures :: "string set \<Rightarrow> (string \<times> json) list \<Rightarrow> string list" where
  "scope_failures symbols item =
     (case map_of item ''affected_api'' of
        Some (JArr (name # names)) \<Rightarrow>
          (let forbidden = forbidden_names symbols (name # names) in
           (if forbidden \<noteq> [] then [advisory_id item @ '' affected APIs are now used by source: '' @
              py_repr (JArr (map JStr forbidden))] else []) @
           (if blank (text_of item ''upstream_fix'') then [advisory_id item @ '' has no upstream_fix''] else []) @
           (if length (strip (text_of item ''reason'')) < 40
            then [advisory_id item @ '' exception reason is insufficient''] else []))
      | _ \<Rightarrow> [advisory_id item @ '' has no affected_api scope''])"

fun exception_failures ::
  "string set \<Rightarrow> int \<Rightarrow> string set \<Rightarrow> json list \<Rightarrow> string list \<Rightarrow> string list result" where
  "exception_failures symbols today seen [] failures = Inr failures"
| "exception_failures symbols today seen (entry # items) failures =
     (case entry of
        JObj item \<Rightarrow>
          if advisory_id item = [] \<or> advisory_id item \<in> seen
          then exception_failures symbols today seen items
            (failures @ [''invalid or duplicate advisory id: '' @ repr_string (advisory_id item)])
          else (case date_fromisoformat (text_of item ''expires_on'') of
              Inl e \<Rightarrow> Inl e
            | Inr expires_on \<Rightarrow>
                exception_failures symbols today (insert (advisory_id item) seen) items
                  (failures @
                   (if expires_on < today then [advisory_id item @ '' exception expired on '' @
                      date_isoformat expires_on] else []) @
                   scope_failures symbols item))
      | _ \<Rightarrow> exception_failures symbols today seen items
          (failures @ [''exception entry is not an object'']))"

definition validate_exceptions :: "json \<Rightarrow> string set \<Rightarrow> int \<Rightarrow> unit result" where
  "validate_exceptions document symbols today =
     (case document of
        JObj kvs \<Rightarrow>
          (case map_of kvs ''exceptions'' of
             Some (JArr items) \<Rightarrow>
               (case exception_failures symbols today {} items [] of
                  Inl e \<Rightarrow> Inl e
                | Inr failures \<Rightarrow>
                    if failures \<noteq> [] then Inl (RuntimeError (join ''; '' failures)) else Inr ())
           | _ \<Rightarrow> Inl (RuntimeError ''Security exception document must contain an exceptions list.''))
      | _ \<Rightarrow> Inl (OtherError ''AttributeError'' ''get''))"

text \<open>
  \<open>_source_symbols\<close>: a syntax tree of \<open>ast\<close>, of which \<open>walk\<close> visits every node; parsing a file is a
  parameter.  An alias is bound to its \<open>asname\<close> or else to the last part of its name.
\<close>

datatype ast_node =
    AstName string
  | AstAttribute string "ast_node list"
  | AstAlias string "string option"
  | AstOther "ast_node list"

fun node_symbols :: "ast_node \<Rightarrow> string list" where
  "node_symbols (AstName i) = [i]"
| "node_symbols (AstAttribute attr parts) = attr # concat (map node_symbols parts)"
| "node_symbols (AstAlias name asname) = [case asname of
     Some (c # cs) \<Rightarrow> c # cs | _ \<Rightarrow> rev (takeWhile (\<lambda>c. c \<noteq> CHR ''.'') (rev name))]"
| "node_symbols (AstOther parts) = concat (map node_symbols parts)"

definition source_symbols :: "ast_node list \<Rightarrow> string set" where
  "source_symbols trees = set (concat (map node_symbols trees))"

text \<open>The script, on a clock in UTC.\<close>

definition verify_exceptions :: "json \<Rightarrow> ast_node list \<Rightarrow> datetime \<Rightarrow> unit result" where
  "verify_exceptions document trees clock =
     validate_exceptions document (source_symbols trees) (wall clock div DAY)"

section \<open>The bill of materials\<close>

definition PROJECT_NAME :: string where
  "PROJECT_NAME = ''energy-flex-trust-platform''"

definition SPDX_VERSION :: string where
  "SPDX_VERSION = ''SPDX-2.3''"

definition is_alnum :: "char \<Rightarrow> bool" where
  "is_alnum c = (let n = (of_char c :: nat) in
     (48 \<le> n \<and> n \<le> 57) \<or> (65 \<le> n \<and> n \<le> 90) \<or> (97 \<le> n \<and> n \<le> 122))"

definition spdx_id :: "string \<Rightarrow> string \<Rightarrow> string" where
  "spdx_id name version = ''SPDXRef-Package-'' @ strip_char (CHR ''-'')
     (dash_runs (\<lambda>c. \<not> (is_alnum c \<or> c = CHR ''.'' \<or> c = CHR ''-'')) False (name @ ''-'' @ version))"

definition normalized_name :: "string \<Rightarrow> string" where
  "normalized_name name =
     str_lower (dash_runs (\<lambda>c. c = CHR ''-'' \<or> c = CHR ''_'' \<or> c = CHR ''.'') False name)"

text \<open>A distribution is its \<open>Name\<close> field, if any, and its version; the rows are sorted as tuples.\<close>

definition installed :: "(string option \<times> string) list \<Rightarrow> (string \<times> string) list" where
  "installed dists = filter (\<lambda>(name, version). name \<noteq> [] \<and> version \<noteq> [])
     (map (\<lambda>(name, version). (strip (case name of None \<Rightarrow> '''' | Some n \<Rightarrow> n), strip version)) dists)"

definition sorted_rows :: "(string option \<times> string) list \<Rightarrow> (string \<times> string \<times> string) list" where
  "sorted_rows dists = sort (map (\<lambda>(name, version). (normalized_name name, name, version)) (installed dists))"

definition sbom_package :: "string \<times> string \<times> string \<Rightarrow> (string \<times> json) list" where
  "sbom_package row = (case row of (normalized, name, version) \<Rightarrow>
     [(''SPDXID'', JStr (spdx_id normalized version)),
      (''name'', JStr name),
      (''versionInfo'', JStr version),
      (''downloadLocation'', JStr ''NOASSERTION''),
      (''filesAnalyzed'', JBool False),
      (''licenseConcluded'', JStr ''NOASSERTION''),
      (''licenseDeclared'', JStr ''NOASSERTION''),
      (''supplier'', JStr ''NOASSERTION''),
      (''externalRefs'', JArr [JObj
        [(''referenceCategory'', JStr ''PACKAGE-MANAGER''),
         (''referenceType'', JStr ''purl''),
         (''referenceLocator'', JStr (''pkg:pypi/'' @ normalized @ ''@'' @ version))]])])"

definition relationship :: "string \<Rightarrow> string \<Rightarrow> string \<Rightarrow> json" where
  "relationship element kind related = JObj
     [(''spdxElementId'', JStr element), (''relationshipType'', JStr kind),
      (''relatedSpdxElement'', JStr related)]"

text \<open>The loop leaves the identifier of the last row of the project, \<open>next\<close> takes the version of the first.\<close>

definition build_document ::
  "(string \<Rightarrow> string) \<Rightarrow> string \<Rightarrow> (string option \<times> string) list \<Rightarrow> (string \<times> json) list result" where
  "build_document sha created dists =
     (let rows = sorted_rows dists;
          digest = sha (join [CHR 0x0A] (map (\<lambda>(normalized, _, version). normalized @ ''=='' @ version) rows));
          project = filter (\<lambda>(normalized, _, _). normalized = PROJECT_NAME) rows in
      if project = []
      then Inl (RuntimeError ''The active environment does not contain energy-flex-trust-platform.'')
      else
        let project_id = (case last project of (normalized, _, version) \<Rightarrow> spdx_id normalized version);
            project_version = snd (snd (hd project));
            ids = map (\<lambda>(normalized, _, version). spdx_id normalized version) rows in
        Inr
          [(''spdxVersion'', JStr SPDX_VERSION),
           (''dataLicense'', JStr ''CC0-1.0''),
           (''SPDXID'', JStr ''SPDXRef-DOCUMENT''),
           (''name'', JStr (PROJECT_NAME @ ''-'' @ project_version @ ''-runtime'')),
           (''documentNamespace'', JStr (''https://spdx.org/spdxdocs/'' @ PROJECT_NAME @ ''-'' @
              project_version @ ''-'' @ digest)),
           (''creationInfo'', JObj [(''created'', JStr created),
              (''creators'', JArr [JStr ''Tool: energy-flex-trust scripts/generate_sbom.py''])]),
           (''packages'', JArr (map (\<lambda>row. JObj (sbom_package row)) rows)),
           (''relationships'', JArr
              (relationship ''SPDXRef-DOCUMENT'' ''DESCRIBES'' project_id #
               map (relationship project_id ''DEPENDS_ON'') (filter (\<lambda>i. i \<noteq> project_id) ids)))])"

definition names_project :: "json \<Rightarrow> bool" where
  "names_project package = (case package of
     JObj kvs \<Rightarrow> str_lower (text_of kvs ''name'') = PROJECT_NAME | _ \<Rightarrow> False)"

definition validate_document :: "(string \<times> json) list \<Rightarrow> unit result" where
  "validate_document document =
     (if map_of document ''spdxVersion'' \<noteq> Some (JStr SPDX_VERSION)
      then Inl (ValueError ''Unexpected SPDX version.'')
      else case map_of document ''packages'' of
        Some (JArr (p # ps)) \<Rightarrow>
          if list_ex names_project (p # ps) then Inr ()
          else Inl (ValueError ''SBOM does not describe the Energy Flex Trust package.'')
      | _ \<Rightarrow> Inl (ValueError ''SBOM contains no packages.''))"

text \<open>\<open>datetime.fromtimestamp(n, tz=UTC)\<close>; the text of its range error is shortened.\<close>

definition from_timestamp :: "int \<Rightarrow> datetime result" where
  "from_timestamp n = (let t = \<lparr>wall = ymd_to_days 1970 1 1 * DAY + n * SECOND, tzoff = Some 0\<rparr> in
     if dt_ok t then Inr t else Inl (ValueError ''year is out of range''))"

text \<open>\<open>s.replace("+00:00", "Z")\<close>\<close>

fun zulu :: "string \<Rightarrow> string" where
  "zulu [] = []"
| "zulu (c # s) = (if prefix ''+00:00'' (c # s) then CHR ''Z'' # zulu (drop 5 s) else c # zulu s)"

definition created_at :: "(string \<Rightarrow> string option) \<Rightarrow> datetime \<Rightarrow> string result" where
  "created_at getenv clock =
     (case (case getenv ''SOURCE_DATE_EPOCH'' of
         Some (c # cs) \<Rightarrow> (case py_int (c # cs) of Inl e \<Rightarrow> Inl e | Inr n \<Rightarrow> from_timestamp n)
       | _ \<Rightarrow> Inr clock) of
        Inl e \<Rightarrow> Inl e
      | Inr t \<Rightarrow> Inr (zulu (isoformat (t\<lparr>wall := wall t - wall t mod SECOND\<rparr>))))"

text \<open>The script up to the file it writes; the time is asked for once the project was found.\<close>

definition sbom_main ::
  "(string \<Rightarrow> string) \<Rightarrow> (string \<Rightarrow> string option) \<Rightarrow> datetime \<Rightarrow> (string option \<times> string) list \<Rightarrow>
    (string \<times> json) list result" where
  "sbom_main sha getenv clock dists =
     (case created_at getenv clock of
        Inl e \<Rightarrow> (case build_document sha [] dists of Inl e' \<Rightarrow> Inl e' | Inr _ \<Rightarrow> Inl e)
      | Inr created \<Rightarrow>
        (case build_document sha created dists of Inl e \<Rightarrow> Inl e | Inr document \<Rightarrow>
         (case validate_document document of Inl e \<Rightarrow> Inl e | Inr _ \<Rightarrow> Inr document)))"

section \<open>Database privileges\<close>

record role_expectation =
  rx_role :: string
  rx_password :: string
  rx_grants :: "(string \<times> string) list"
  rx_denies :: "(string \<times> string) list"

definition EXPECTATIONS :: "role_expectation list" where
  "EXPECTATIONS =
    [\<lparr>rx_role = ''flextrust_api'', rx_password = ''api-ci-only'',
      rx_grants = [(''assets'', ''SELECT''), (''outbox_messages'', ''INSERT'')],
      rx_denies = [(''assets'', ''DELETE''), (''public'', ''CREATE'')]\<rparr>,
     \<lparr>rx_role = ''flextrust_worker'', rx_password = ''worker-ci-only'',
      rx_grants = [(''outbox_messages'', ''UPDATE''), (''audit_events'', ''INSERT'')],
      rx_denies = [(''assets'', ''INSERT''), (''settlements'', ''INSERT'')]\<rparr>,
     \<lparr>rx_role = ''flextrust_recovery'', rx_password = ''recovery-ci-only'',
      rx_grants = [(''outbox_messages'', ''UPDATE''), (''audit_events'', ''INSERT'')],
      rx_denies = [(''assets'', ''UPDATE''), (''settlements'', ''INSERT'')]\<rparr>,
     \<lparr>rx_role = ''flextrust_auditor'', rx_password = ''auditor-ci-only'',
      rx_grants = [(''assets'', ''SELECT''), (''alembic_version'', ''SELECT'')],
      rx_denies = [(''assets'', ''UPDATE''), (''audit_events'', ''INSERT'')]\<rparr>]"

text \<open>A connection: \<open>has_table_privilege\<close> and \<open>has_schema_privilege\<close> for the connected role.\<close>

record privileges =
  table_privilege :: "string \<Rightarrow> string \<Rightarrow> bool result"
  schema_create :: "bool result"

definition role_url :: "role_expectation \<Rightarrow> string \<Rightarrow> int \<Rightarrow> string \<Rightarrow> string" where
  "role_url x host port database = ''postgresql+psycopg://'' @ rx_role x @ '':'' @ rx_password x @
     ''@'' @ host @ '':'' @ show_int port @ ''/'' @ database"

definition observed_privilege :: "privileges \<Rightarrow> string \<times> string \<Rightarrow> bool result" where
  "observed_privilege c rp = (case rp of (resource, privilege) \<Rightarrow>
     if resource = ''public'' \<and> privilege = ''CREATE'' then schema_create c
     else table_privilege c resource privilege)"

fun check_privileges ::
  "(string \<times> string \<Rightarrow> bool result) \<Rightarrow> (string \<times> string \<Rightarrow> bool \<Rightarrow> string list) \<Rightarrow>
    (string \<times> string) list \<Rightarrow> string list result" where
  "check_privileges ask fail [] = Inr []"
| "check_privileges ask fail (rp # rest) = (case ask rp of Inl e \<Rightarrow> Inl e | Inr observed \<Rightarrow>
     (case check_privileges ask fail rest of Inl e \<Rightarrow> Inl e
      | Inr failures \<Rightarrow> Inr (fail rp observed @ failures)))"

definition role_failures :: "privileges \<Rightarrow> role_expectation \<Rightarrow> string list result" where
  "role_failures c x =
     (case check_privileges (\<lambda>(t, p). table_privilege c t p)
        (\<lambda>(t, p) observed. if observed then [] else [rx_role x @ '' missing '' @ p @ '' on '' @ t]) (rx_grants x) of
        Inl e \<Rightarrow> Inl e
      | Inr missing \<Rightarrow>
        (case check_privileges (observed_privilege c)
           (\<lambda>(t, p) observed. if observed then [rx_role x @ '' unexpectedly has '' @ p @ '' on '' @ t] else [])
           (rx_denies x) of
           Inl e \<Rightarrow> Inl e | Inr excess \<Rightarrow> Inr (missing @ excess)))"

fun expectation_failures ::
  "(string \<Rightarrow> privileges result) \<Rightarrow> (role_expectation \<Rightarrow> string) \<Rightarrow> role_expectation list \<Rightarrow> string list result" where
  "expectation_failures connect url [] = Inr []"
| "expectation_failures connect url (x # xs) = (case connect (url x) of Inl e \<Rightarrow> Inl e | Inr c \<Rightarrow>
     (case role_failures c x of Inl e \<Rightarrow> Inl e | Inr fs \<Rightarrow>
     (case expectation_failures connect url xs of Inl e \<Rightarrow> Inl e | Inr gs \<Rightarrow> Inr (fs @ gs))))"

definition verify_privileges ::
  "(string \<Rightarrow> privileges result) \<Rightarrow> string \<Rightarrow> int \<Rightarrow> string \<Rightarrow> unit result" where
  "verify_privileges connect host port database =
     (case expectation_failures connect (\<lambda>x. role_url x host port database) EXPECTATIONS of
        Inl e \<Rightarrow> Inl e
      | Inr failures \<Rightarrow> if failures \<noteq> [] then Inl (RuntimeError (join ''; '' failures)) else Inr ())"

section \<open>What the checks establish\<close>

text \<open>An entry the check has nothing to say about.\<close>

definition exception_ok :: "string set \<Rightarrow> int \<Rightarrow> json \<Rightarrow> bool" where
  "exception_ok symbols today entry = (case entry of
     JObj item \<Rightarrow> advisory_id item \<noteq> [] \<and>
       (case date_fromisoformat (text_of item ''expires_on'') of Inl _ \<Rightarrow> False | Inr day \<Rightarrow> today \<le> day) \<and>
       (case map_of item ''affected_api'' of
          Some (JArr names) \<Rightarrow> names \<noteq> [] \<and> py_str ` set names \<inter> symbols = {}
        | _ \<Rightarrow> False) \<and>
       \<not> blank (text_of item ''upstream_fix'') \<and> 40 \<le> length (strip (text_of item ''reason''))
   | _ \<Rightarrow> False)"

definition entry_id :: "json \<Rightarrow> string" where
  "entry_id entry = (case entry of JObj item \<Rightarrow> advisory_id item | _ \<Rightarrow> [])"

lemma forbidden_names_Nil: "forbidden_names symbols names = [] \<longleftrightarrow> py_str ` set names \<inter> symbols = {}"
proof -
  have "set (forbidden_names symbols names) = py_str ` set names \<inter> symbols"
    by (auto simp: forbidden_names_def)
  then show ?thesis by (metis set_empty)
qed

lemma scope_failures_Nil:
  "scope_failures symbols item = [] \<longleftrightarrow>
     (case map_of item ''affected_api'' of
        Some (JArr names) \<Rightarrow> names \<noteq> [] \<and> py_str ` set names \<inter> symbols = {}
      | _ \<Rightarrow> False) \<and>
     \<not> blank (text_of item ''upstream_fix'') \<and> 40 \<le> length (strip (text_of item ''reason''))"
  by (auto simp: scope_failures_def Let_def forbidden_names_Nil not_less
      split: option.splits json.splits list.splits)

lemma exception_failures_prefix:
  "exception_failures symbols today seen items fs = Inr gs \<Longrightarrow> prefix fs gs"
proof (induction items arbitrary: seen fs)
  case (Cons entry items)
  from Cons.prems obtain seen' more where "exception_failures symbols today seen' items (fs @ more) = Inr gs"
    by (auto split: json.splits if_splits sum.splits)
  then show ?case by (rule append_prefixD [OF Cons.IH])
qed simp

lemma exception_failures_Nil:
  "exception_failures symbols today seen items [] = Inr [] \<longleftrightarrow>
     (\<forall>entry\<in>set items. exception_ok symbols today entry) \<and> distinct (map entry_id items) \<and>
     entry_id ` set items \<inter> seen = {}"
proof (induction items arbitrary: seen)
  case (Cons entry items)
  have no: "exception_failures symbols today s items (f # fs) \<noteq> Inr []" for s f fs
    using exception_failures_prefix [of symbols today s items "f # fs" "[]"] by auto
  show ?case
  proof (cases entry)
    case (JObj item)
    show ?thesis
    proof (cases "date_fromisoformat (text_of item ''expires_on'')")
      case (Inr day)
      have "exception_failures symbols today s items (xs @ scope_failures symbols item) = Inr [] \<longleftrightarrow>
          xs = [] \<and> scope_failures symbols item = [] \<and> exception_failures symbols today s items [] = Inr []" for s xs
        using no by (cases "xs @ scope_failures symbols item") auto
      then show ?thesis
        using no by (auto simp: JObj Inr exception_ok_def entry_id_def scope_failures_Nil Cons.IH not_less)
    qed (use no in \<open>auto simp: JObj exception_ok_def entry_id_def\<close>)
  qed (use no in \<open>simp_all add: exception_ok_def\<close>)
qed simp

text \<open>Both scripts end in the same gate: any failure raises.\<close>

lemma gate_Inr:
  "(case r of Inl e \<Rightarrow> Inl e | Inr fs \<Rightarrow> if fs \<noteq> [] then Inl (err fs) else Inr ()) = Inr () \<longleftrightarrow> r = Inr []"
  by (auto split: sum.splits)

lemma validate_exceptions_Inr:
  "validate_exceptions document symbols today = Inr () \<longleftrightarrow>
     (\<exists>kvs items. document = JObj kvs \<and> map_of kvs ''exceptions'' = Some (JArr items) \<and>
        (\<forall>entry\<in>set items. exception_ok symbols today entry) \<and> distinct (map entry_id items))"
  by (auto simp: validate_exceptions_def gate_Inr exception_failures_Nil split: json.splits option.splits)

lemma check_privileges_Nil:
  assumes "\<And>rp. fail rp wanted = []" "\<And>rp. fail rp (\<not> wanted) \<noteq> []"
  shows "check_privileges ask fail rps = Inr [] \<longleftrightarrow> (\<forall>rp\<in>set rps. ask rp = Inr wanted)"
proof (induction rps)
  case (Cons rp rps)
  show ?case
  proof (cases "ask rp")
    case (Inr b)
    show ?thesis
      using assms [of rp] Cons
      by (cases "b = wanted"; cases "check_privileges ask fail rps") (auto simp: Inr)
  qed simp
qed simp

lemma role_failures_Nil:
  "role_failures c x = Inr [] \<longleftrightarrow>
     (\<forall>(t, p)\<in>set (rx_grants x). table_privilege c t p = Inr True) \<and>
     (\<forall>rp\<in>set (rx_denies x). observed_privilege c rp = Inr False)"
proof -
  have 1: "check_privileges (\<lambda>(t, p). table_privilege c t p)
      (\<lambda>(t, p) observed. if observed then [] else [rx_role x @ '' missing '' @ p @ '' on '' @ t]) (rx_grants x) = Inr [] \<longleftrightarrow>
      (\<forall>(t, p)\<in>set (rx_grants x). table_privilege c t p = Inr True)"
    by (subst check_privileges_Nil [where wanted = True]) auto
  have 2: "check_privileges (observed_privilege c)
      (\<lambda>(t, p) observed. if observed then [rx_role x @ '' unexpectedly has '' @ p @ '' on '' @ t] else [])
      (rx_denies x) = Inr [] \<longleftrightarrow> (\<forall>rp\<in>set (rx_denies x). observed_privilege c rp = Inr False)"
    by (subst check_privileges_Nil [where wanted = False]) auto
  show ?thesis unfolding role_failures_def 1 [symmetric] 2 [symmetric] by (auto split: sum.splits)
qed

lemma verify_privileges_Inr:
  "verify_privileges connect host port database = Inr () \<longleftrightarrow>
     (\<forall>x\<in>set EXPECTATIONS. \<exists>c. connect (role_url x host port database) = Inr c \<and>
        (\<forall>(t, p)\<in>set (rx_grants x). table_privilege c t p = Inr True) \<and>
        (\<forall>rp\<in>set (rx_denies x). observed_privilege c rp = Inr False))"
proof -
  have "expectation_failures connect url xs = Inr [] \<longleftrightarrow>
      (\<forall>x\<in>set xs. \<exists>c. connect (url x) = Inr c \<and> role_failures c x = Inr [])" for url xs
    by (induction xs) (auto split: sum.splits)
  then show ?thesis
    unfolding verify_privileges_def gate_Inr role_failures_Nil [symmetric] by simp
qed

text \<open>What a package shows of its row, and the relationships of a document.\<close>

lemma sbom_fields:
  "text_of (sbom_package (n, m, v)) ''name'' = m" "text_of (sbom_package (n, m, v)) ''versionInfo'' = v"
  "text_of (sbom_package (n, m, v)) ''SPDXID'' = spdx_id n v"
  by (simp_all add: text_of_def sbom_package_def py_str_def)

lemma sbom_id: "text_of (sbom_package row) ''SPDXID'' = (case row of (n, _, v) \<Rightarrow> spdx_id n v)"
  by (cases row) (simp add: sbom_fields)

lemma dependents:
  "r \<in> set (x # map g (filter (\<lambda>i. i \<noteq> k) (map f xs))) \<longleftrightarrow> r = x \<or> (\<exists>y\<in>set xs. f y \<noteq> k \<and> r = g (f y))"
  by auto

text \<open>With \<open>SOURCE_DATE_EPOCH\<close> set the document does not depend on the clock.\<close>

lemma sbom_reproducible:
  "getenv ''SOURCE_DATE_EPOCH'' = Some (c # cs) \<Longrightarrow> sbom_main sha getenv t dists = sbom_main sha getenv t' dists"
  by (simp add: sbom_main_def created_at_def)

lemma created_example: "created_at (map_of [(''SOURCE_DATE_EPOCH'', '' 6_1 '')]) t = Inr ''1970-01-01T00:01:01Z''"
proof -
  have "py_int '' 6_1 '' = Inr 61" by code_simp
  moreover have "wall u = 62135596861 * SECOND" "tzoff u = Some 0" "dt_ok u"
    if "u = \<lparr>wall = ymd_to_days 1970 1 1 * DAY + 61 * SECOND, tzoff = Some 0\<rparr>" for u
    unfolding that by (simp_all add: ymd_to_days_def days_before_year_def days_before_month_def dt_ok_def DAY_def SECOND_def)
  moreover have "zulu (isoformat \<lparr>wall = 62135596861 * SECOND, tzoff = Some 0\<rparr>) = ''1970-01-01T00:01:01Z''"
    by (simp add: isoformat_def days_to_ymd_def leap_def month_lengths_def DAY_def SECOND_def iso_time_def iso_micros_def
        iso_offset_def two_def pad_def eval_simps Let_def)
  ultimately show ?thesis by (simp add: created_at_def from_timestamp_def Let_def SECOND_def)
qed

text \<open>A name that occurs anywhere in a source is found, and no entry may list it.\<close>

fun subnodes :: "ast_node \<Rightarrow> ast_node list" where
  "subnodes (AstAttribute attr parts) = AstAttribute attr parts # concat (map subnodes parts)"
| "subnodes (AstOther parts) = AstOther parts # concat (map subnodes parts)"
| "subnodes n = [n]"

lemma walk_finds: "n \<in> set (subnodes t) \<Longrightarrow> set (node_symbols n) \<subseteq> set (node_symbols t)"
  by (induction t rule: subnodes.induct) auto

lemma used_names_refused:
  assumes "AstName i \<in> set (subnodes t) \<or> (\<exists>parts. AstAttribute i parts \<in> set (subnodes t))" "t \<in> set trees"
    and "map_of kvs ''exceptions'' = Some (JArr items)" "JObj item \<in> set items"
    and "map_of item ''affected_api'' = Some (JArr names)" "JStr i \<in> set names"
  shows "verify_exceptions (JObj kvs) trees clock \<noteq> Inr ()"
proof -
  from assms(1) have "i \<in> set (node_symbols t)" by (auto dest: walk_finds)
  with assms(2) have "i \<in> source_symbols trees" by (auto simp: source_symbols_def)
  moreover have "i \<in> py_str ` set names" using assms(6) by (force simp: py_str_def)
  ultimately have "\<not> exception_ok (source_symbols trees) d (JObj item)" for d
    using assms(5) by (auto simp: exception_ok_def)
  with assms(3,4) show ?thesis by (auto simp: verify_exceptions_def validate_exceptions_Inr)
qed

end
