(* ===== verification/PropertiesRelease.thy ===== *)
theory PropertiesRelease
  imports ReleaseChecks
begin

text \<open>What the release scripts guarantee when they pass.\<close>

text \<open>C38: Accepted exceptions are bounded.  The check passes exactly when the document lists exceptions
  with distinct identifiers, each of which has not expired on the day of the check, names at least one
  affected interface and none that the sources use, and states a fix and a reason of at least
  forty characters.\<close>

theorem accepted_exceptions_are_bounded:
  "validate_exceptions document symbols today = Inr () \<longleftrightarrow>
     (\<exists>kvs items. document = JObj kvs \<and> map_of kvs ''exceptions'' = Some (JArr (map JObj items)) \<and>
        distinct (map advisory_id items) \<and>
        (\<forall>item\<in>set items. advisory_id item \<noteq> [] \<and>
          (\<exists>day. date_fromisoformat (text_of item ''expires_on'') = Inr day \<and> today \<le> day) \<and>
          (\<exists>names. map_of item ''affected_api'' = Some (JArr names) \<and> names \<noteq> [] \<and>
             py_str ` set names \<inter> symbols = {}) \<and>
          strip (text_of item ''upstream_fix'') \<noteq> [] \<and> 40 \<le> length (strip (text_of item ''reason''))))"
proof -
  let ?obj = "\<lambda>entry. case entry of JObj item \<Rightarrow> item | _ \<Rightarrow> []"
  have objects: "(\<forall>entry\<in>set items. exception_ok symbols today entry) \<longleftrightarrow>
      (\<exists>xs. items = map JObj xs \<and> (\<forall>x\<in>set xs. exception_ok symbols today (JObj x)))" (is "?all \<longleftrightarrow> ?ex") for items
  proof
    assume all: ?all
    have "JObj (?obj entry) = entry" if "exception_ok symbols today entry" for entry
      using that by (cases entry) (simp_all add: exception_ok_def)
    with all have "items = map JObj (map ?obj items)" by (simp add: map_idI)
    moreover from all this have "\<forall>x\<in>set (map ?obj items). exception_ok symbols today (JObj x)"
      by (metis imageI list.set_map)
    ultimately show ?ex by blast
  qed auto
  have ids: "map entry_id (map JObj xs) = map advisory_id xs" for xs by (simp add: entry_id_def)
  have ok: "exception_ok symbols today (JObj item) \<longleftrightarrow> advisory_id item \<noteq> [] \<and>
      (\<exists>day. date_fromisoformat (text_of item ''expires_on'') = Inr day \<and> today \<le> day) \<and>
      (\<exists>names. map_of item ''affected_api'' = Some (JArr names) \<and> names \<noteq> [] \<and> py_str ` set names \<inter> symbols = {}) \<and>
      strip (text_of item ''upstream_fix'') \<noteq> [] \<and> 40 \<le> length (strip (text_of item ''reason''))" for item
    by (auto simp: exception_ok_def blank_def split: sum.splits option.splits json.splits)
  show ?thesis unfolding validate_exceptions_Inr objects ok [symmetric] using ids by metis
qed

definition sample_item :: "string \<Rightarrow> (string \<times> json) list" where
  "sample_item name = [(''id'', JStr ''GHSA-1''), (''expires_on'', JStr ''2026-12-31''),
     (''affected_api'', JArr [JStr name]), (''upstream_fix'', JStr ''2.0''),
     (''reason'', JStr ''The affected parser is never reached from this code base.'')]"

definition sample_exceptions :: "string \<Rightarrow> json" where
  "sample_exceptions name = JObj [(''exceptions'', JArr [JObj (sample_item name)])]"

text \<open>An entry is accepted while its interface is unused, and refused once a source names it.\<close>

theorem accepted_exceptions_are_bounded_witness:
  "validate_exceptions (sample_exceptions ''parse'') {''loads''} (ymd_to_days 2026 8 10) = Inr () \<and>
   validate_exceptions (sample_exceptions ''parse'') {''parse''} (ymd_to_days 2026 8 10) \<noteq> Inr ()"
proof -
  have facts: "advisory_id (sample_item ''parse'') \<noteq> []"
    "date_fromisoformat (text_of (sample_item ''parse'') ''expires_on'') = Inr (ymd_to_days 2026 12 31)"
    "ymd_to_days 2026 8 10 \<le> ymd_to_days 2026 12 31" "strip (text_of (sample_item ''parse'') ''upstream_fix'') \<noteq> []"
    "40 \<le> length (strip (text_of (sample_item ''parse'') ''reason''))"
    by code_simp+
  have api: "map_of (sample_item ''parse'') ''affected_api'' = Some (JArr [JStr ''parse''])"
    by (simp add: sample_item_def)
  have one: "(\<exists>kvs items. sample_exceptions ''parse'' = JObj kvs \<and>
      map_of kvs ''exceptions'' = Some (JArr (map JObj items)) \<and> Q items) \<longleftrightarrow> Q [sample_item ''parse'']" for Q
    by (auto simp: sample_exceptions_def map_eq_Cons_conv Cons_eq_map_conv)
  show ?thesis
    unfolding accepted_exceptions_are_bounded one using facts by (simp add: api py_str_def)
qed

text \<open>C39: The bill of materials lists what is installed.  It has one package for each distribution that
  has a name and a version, in whatever order they were found; the document describes one of the
  project's packages and that one depends on every package with another identifier, and no
  relationship points outside the document.  The final validation accepts it exactly when some
  distribution is named like the project up to case, so a spelling with an underscore or a dot
  is built and then refused.\<close>

theorem bill_lists_installed:
  assumes "build_document sha created dists = Inr doc"
  shows "\<exists>ps p rels. map_of doc ''packages'' = Some (JArr (map JObj ps)) \<and>
     map_of doc ''relationships'' = Some (JArr rels) \<and>
     mset (map (\<lambda>q. (text_of q ''name'', text_of q ''versionInfo'')) ps) = mset (installed dists) \<and>
     p \<in> set ps \<and> normalized_name (text_of p ''name'') = PROJECT_NAME \<and>
     (\<forall>r. r \<in> set rels \<longleftrightarrow> r = relationship ''SPDXRef-DOCUMENT'' ''DESCRIBES'' (text_of p ''SPDXID'') \<or>
        (\<exists>q\<in>set ps. text_of q ''SPDXID'' \<noteq> text_of p ''SPDXID'' \<and>
           r = relationship (text_of p ''SPDXID'') ''DEPENDS_ON'' (text_of q ''SPDXID''))) \<and>
     (validate_document doc = Inr () \<longleftrightarrow> (\<exists>(name, _)\<in>set (installed dists). str_lower name = PROJECT_NAME))"
proof -
  let ?rows = "sorted_rows dists" and ?mine = "\<lambda>(n :: string, _ :: string, _ :: string). n = PROJECT_NAME"
  let ?id = "\<lambda>(n, _ :: string, v). spdx_id n v" and ?last = "last (filter ?mine ?rows)"
  have mine: "filter ?mine ?rows \<noteq> []" using assms by (auto simp: build_document_def Let_def)
  then have l: "?last \<in> set ?rows" "?mine ?last" using last_in_set [OF mine] by auto
  have rows: "mset ?rows = mset (map (\<lambda>(n, v). (normalized_name n, n, v)) (installed dists))"
    by (simp add: sorted_rows_def)
  have doc: "map_of doc ''packages'' = Some (JArr (map JObj (map sbom_package ?rows)))"
    "map_of doc ''spdxVersion'' = Some (JStr SPDX_VERSION)"
    "map_of doc ''relationships'' = Some (JArr (relationship ''SPDXRef-DOCUMENT'' ''DESCRIBES'' (?id ?last) #
       map (relationship (?id ?last) ''DEPENDS_ON'') (filter (\<lambda>i. i \<noteq> ?id ?last) (map ?id ?rows))))"
    using assms mine by (auto simp: build_document_def Let_def split_beta)
  have "mset (map (\<lambda>q. (text_of q ''name'', text_of q ''versionInfo'')) (map sbom_package ?rows)) =
      image_mset (\<lambda>(_, n, v). (n, v)) (mset ?rows)"
    unfolding map_map mset_map [symmetric] comp_def
    by (intro arg_cong [where f = mset] map_cong) (auto simp: sbom_fields)
  also have "\<dots> = mset (installed dists)" unfolding rows by (simp add: multiset.map_comp comp_def split_beta)
  finally have m: "mset (map (\<lambda>q. (text_of q ''name'', text_of q ''versionInfo'')) (map sbom_package ?rows)) =
      mset (installed dists)" .
  have set: "set ?rows = (\<lambda>(n, v). (normalized_name n, n, v)) ` set (installed dists)"
    using arg_cong [OF rows, of set_mset] by simp
  have "validate_document doc = Inr () \<longleftrightarrow> (\<exists>r\<in>set ?rows. names_project (JObj (sbom_package r)))"
    using l(1) by (cases ?rows) (auto simp: validate_document_def doc(1,2) list_ex_iff)
  also have "\<dots> \<longleftrightarrow> (\<exists>(name, _)\<in>set (installed dists). str_lower name = PROJECT_NAME)"
  proof -
    have "names_project (JObj (sbom_package (k, r))) \<longleftrightarrow> str_lower (fst r) = PROJECT_NAME" for k r
      by (cases r) (simp add: names_project_def sbom_fields)
    then show ?thesis unfolding set by (simp add: split_beta)
  qed
  finally have valid: "validate_document doc = Inr () \<longleftrightarrow>
      (\<exists>(name, _)\<in>set (installed dists). str_lower name = PROJECT_NAME)" .
  show ?thesis
  proof (intro exI conjI, rule doc(1), rule doc(3), rule m)
    show "sbom_package ?last \<in> set (map sbom_package ?rows)" using l by simp
    show "normalized_name (text_of (sbom_package ?last) ''name'') = PROJECT_NAME"
      using l unfolding set by (auto simp: sbom_fields split_beta)
    show "\<forall>r. r \<in> set (relationship ''SPDXRef-DOCUMENT'' ''DESCRIBES'' (?id ?last) #
        map (relationship (?id ?last) ''DEPENDS_ON'') (filter (\<lambda>i. i \<noteq> ?id ?last) (map ?id ?rows))) \<longleftrightarrow>
      r = relationship ''SPDXRef-DOCUMENT'' ''DESCRIBES'' (text_of (sbom_package ?last) ''SPDXID'') \<or>
      (\<exists>q\<in>set (map sbom_package ?rows). text_of q ''SPDXID'' \<noteq> text_of (sbom_package ?last) ''SPDXID'' \<and>
         r = relationship (text_of (sbom_package ?last) ''SPDXID'') ''DEPENDS_ON'' (text_of q ''SPDXID''))"
      unfolding dependents set_map bex_simps sbom_id by blast
  qed (rule valid)
qed

definition sample_environment :: "string \<Rightarrow> (string option \<times> string) list" where
  "sample_environment name = [(Some ''PyJWT'', ''2.10''), (None, ''1''), (Some name, ''0.9'')]"

theorem bill_lists_installed_witness:
  "\<exists>doc doc'. build_document (\<lambda>_. ''0'') ''2026-08-10T00:00:00Z'' (sample_environment ''Energy-Flex-Trust-Platform'') = Inr doc \<and>
     validate_document doc = Inr () \<and>
     build_document (\<lambda>_. ''0'') ''2026-08-10T00:00:00Z'' (sample_environment ''energy_flex_trust_platform'') = Inr doc' \<and>
     validate_document doc' \<noteq> Inr ()"
proof -
  let ?build = "\<lambda>name. build_document (\<lambda>_. ''0'') ''2026-08-10T00:00:00Z'' (sample_environment name)"
  have i: "installed (sample_environment ''Energy-Flex-Trust-Platform'') = [(''PyJWT'', ''2.10''), (''Energy-Flex-Trust-Platform'', ''0.9'')]"
    "installed (sample_environment ''energy_flex_trust_platform'') = [(''PyJWT'', ''2.10''), (''energy_flex_trust_platform'', ''0.9'')]"
    by code_simp+
  have n: "str_lower ''Energy-Flex-Trust-Platform'' = PROJECT_NAME" "str_lower ''energy_flex_trust_platform'' \<noteq> PROJECT_NAME"
    "str_lower ''PyJWT'' \<noteq> PROJECT_NAME"
    by code_simp+
  have b: "?build ''Energy-Flex-Trust-Platform'' \<noteq> Inl e" "?build ''energy_flex_trust_platform'' \<noteq> Inl e" for e
  proof -
    have "list_ex (\<lambda>(n, _, _). n = PROJECT_NAME) (sorted_rows (sample_environment ''Energy-Flex-Trust-Platform''))"
      "list_ex (\<lambda>(n, _, _). n = PROJECT_NAME) (sorted_rows (sample_environment ''energy_flex_trust_platform''))"
      by code_simp+
    then show "?build ''Energy-Flex-Trust-Platform'' \<noteq> Inl e" "?build ''energy_flex_trust_platform'' \<noteq> Inl e"
      by (auto simp: build_document_def Let_def filter_empty_conv list_ex_iff)
  qed
  obtain doc doc' where d: "?build ''Energy-Flex-Trust-Platform'' = Inr doc" "?build ''energy_flex_trust_platform'' = Inr doc'"
    using b by (metis sum.exhaust)
  from bill_lists_installed [OF d(1)] bill_lists_installed [OF d(2)] d n show ?thesis by (auto simp: i)
qed

end
