(* ===== verification/Floats.thy ===== *)
theory Floats
  imports PyValues
begin

text \<open>
  Python's \<open>float\<close>: binary64 numbers as sign and exact magnitude, with infinities and one NaN.  An
  operation computes exactly and rounds once, to nearest and ties to even; \<open>format\<close>, \<open>repr\<close>, \<open>float()\<close>
  of a text and \<open>sum\<close> follow CPython.
\<close>

datatype pyfloat = Fin bool rat | PInf bool | NaN

section \<open>Rounding\<close>

text \<open>The number of binary digits.\<close>

function bits :: "int \<Rightarrow> int" where
  "bits n = (if n \<le> 0 then 0 else 1 + bits (n div 2))"
  by auto
termination by (relation "measure nat") auto

declare bits.simps [simp del]

text \<open>The exponent of a positive number: its integer logarithm.\<close>

definition ilog2 :: "rat \<Rightarrow> int" where
  "ilog2 q = (let (a, b) = quotient_of q; k = bits a - bits b in
     if 2 powi k \<le> q then k else k - 1)"

definition round_even :: "rat \<Rightarrow> int" where
  "round_even x = (let n = \<lfloor>x\<rfloor>; d = x - of_int n in
     if d < 1 / 2 then n else if 1 / 2 < d then n + 1 else if even n then n else n + 1)"

text \<open>The exponent of the last place: 53 significant bits, and none below \<open>2 powi -1074\<close>.\<close>

definition ulp_exp :: "rat \<Rightarrow> int" where
  "ulp_exp q = max (ilog2 q - 52) (- 1074)"

definition rnd :: "rat \<Rightarrow> rat" where
  "rnd q = (if q = 0 then 0 else of_int (round_even (q / 2 powi ulp_exp q)) * 2 powi ulp_exp q)"

definition to_float :: "bool \<Rightarrow> rat \<Rightarrow> pyfloat" where
  "to_float neg q = (let r = rnd q in if 2 ^ 1024 \<le> r then PInf neg else Fin neg r)"

text \<open>The nearest float of an exact result; \<open>z\<close> is the sign of an exact zero.\<close>

definition nearest :: "bool \<Rightarrow> rat \<Rightarrow> pyfloat" where
  "nearest z x = (if x = 0 then Fin z 0 else to_float (x < 0) \<bar>x\<bar>)"

section \<open>Arithmetic and comparison\<close>

fun fval :: "pyfloat \<Rightarrow> rat" where
  "fval (Fin s q) = (if s then - q else q)"
| "fval _ = 0"

fun fneg :: "pyfloat \<Rightarrow> pyfloat" where
  "fneg (Fin s q) = Fin (\<not> s) q"
| "fneg (PInf s) = PInf (\<not> s)"
| "fneg NaN = NaN"

fun fabs :: "pyfloat \<Rightarrow> pyfloat" where
  "fabs (Fin s q) = Fin False q"
| "fabs (PInf s) = PInf False"
| "fabs NaN = NaN"

fun fadd :: "pyfloat \<Rightarrow> pyfloat \<Rightarrow> pyfloat" where
  "fadd NaN y = NaN"
| "fadd x NaN = NaN"
| "fadd (PInf s) (PInf t) = (if s = t then PInf s else NaN)"
| "fadd (PInf s) (Fin t b) = PInf s"
| "fadd (Fin s a) (PInf t) = PInf t"
| "fadd (Fin s a) (Fin t b) = nearest (s \<and> t) (fval (Fin s a) + fval (Fin t b))"

definition fsub :: "pyfloat \<Rightarrow> pyfloat \<Rightarrow> pyfloat" where
  "fsub x y = fadd x (fneg y)"

fun fmul :: "pyfloat \<Rightarrow> pyfloat \<Rightarrow> pyfloat" where
  "fmul NaN y = NaN"
| "fmul x NaN = NaN"
| "fmul (PInf s) (PInf t) = PInf (s \<noteq> t)"
| "fmul (PInf s) (Fin t b) = (if b = 0 then NaN else PInf (s \<noteq> t))"
| "fmul (Fin s a) (PInf t) = (if a = 0 then NaN else PInf (s \<noteq> t))"
| "fmul (Fin s a) (Fin t b) = (if a * b = 0 then Fin (s \<noteq> t) 0 else to_float (s \<noteq> t) (a * b))"

text \<open>Division by a zero raises, whatever the dividend.\<close>

fun fdiv :: "pyfloat \<Rightarrow> pyfloat \<Rightarrow> pyfloat result" where
  "fdiv x (Fin t b) = (if b = 0 then Inl (OtherError ''ZeroDivisionError'' ''float division by zero'') else
     Inr (case x of NaN \<Rightarrow> NaN | PInf s \<Rightarrow> PInf (s \<noteq> t)
       | Fin s a \<Rightarrow> if a = 0 then Fin (s \<noteq> t) 0 else to_float (s \<noteq> t) (a / b)))"
| "fdiv x (PInf t) = Inr (case x of Fin s a \<Rightarrow> Fin (s \<noteq> t) 0 | _ \<Rightarrow> NaN)"
| "fdiv x NaN = Inr NaN"

fun fless :: "pyfloat \<Rightarrow> pyfloat \<Rightarrow> bool" where
  "fless NaN y = False"
| "fless x NaN = False"
| "fless (PInf s) y = (s \<and> y \<noteq> PInf True)"
| "fless x (PInf t) = (\<not> t)"
| "fless (Fin s a) (Fin t b) = (fval (Fin s a) < fval (Fin t b))"

fun fequal :: "pyfloat \<Rightarrow> pyfloat \<Rightarrow> bool" where
  "fequal NaN y = False"
| "fequal x NaN = False"
| "fequal (Fin s a) (Fin t b) = (fval (Fin s a) = fval (Fin t b))"
| "fequal x y = (x = y)"

definition fle :: "pyfloat \<Rightarrow> pyfloat \<Rightarrow> bool" where
  "fle x y = (fless x y \<or> fequal x y)"

text \<open>\<open>float(i)\<close>\<close>

definition float_of_int :: "int \<Rightarrow> pyfloat result" where
  "float_of_int i = (case nearest False (of_int i) of
     PInf _ \<Rightarrow> Inl (OtherError ''OverflowError'' ''int too large to convert to float'') | x \<Rightarrow> Inr x)"

text \<open>
  \<open>sum\<close> of floats from the integer 0: naive up to CPython 3.11, and with Neumaier's compensation
  since 3.12.
\<close>

definition compensation :: "pyfloat \<Rightarrow> pyfloat \<Rightarrow> pyfloat" where
  "compensation t x = (let u = fadd t x in
     if fle (fabs x) (fabs t) then fadd (fsub t u) x else fadd (fsub x u) t)"

fun float_sum :: "bool \<Rightarrow> pyfloat \<Rightarrow> pyfloat \<Rightarrow> pyfloat list \<Rightarrow> pyfloat" where
  "float_sum compensated t c [] =
     (case c of Fin s q \<Rightarrow> if compensated \<and> q \<noteq> 0 then fadd t c else t | _ \<Rightarrow> t)"
| "float_sum compensated t c (x # xs) =
     float_sum compensated (fadd t x) (fadd c (compensation t x)) xs"

definition py_sum :: "bool \<Rightarrow> pyfloat list \<Rightarrow> pyfloat" where
  "py_sum compensated xs = (case xs of [] \<Rightarrow> Fin False 0
     | x # rest \<Rightarrow> float_sum compensated (fadd (Fin False 0) x) (Fin False 0) rest)"

section \<open>Texts\<close>

definition decimal_text :: "string \<Rightarrow> rat option" where
  "decimal_text s =
     (let whole = takeWhile is_digit s; r1 = dropWhile is_digit s;
          point = (r1 \<noteq> [] \<and> hd r1 = CHR ''.'');
          frac = (if point then takeWhile is_digit (tl r1) else []);
          r2 = (if point then dropWhile is_digit (tl r1) else r1);
          mantissa = of_nat (read_nat (whole @ frac)) * 10 powi (- int (length frac)) in
      if whole @ frac = [] then None
      else if r2 = [] then Some mantissa
      else if hd r2 \<in> {CHR ''e'', CHR ''E''} then
        (let neg = (tl r2 \<noteq> [] \<and> hd (tl r2) = CHR ''-'');
             ds = (if tl r2 \<noteq> [] \<and> hd (tl r2) \<in> {CHR ''-'', CHR ''+''} then tl (tl r2) else tl r2) in
         if ds \<noteq> [] \<and> list_all is_digit ds
         then Some (mantissa * 10 powi (if neg then - int (read_nat ds) else int (read_nat ds)))
         else None)
      else None)"

definition float_of_text :: "string \<Rightarrow> pyfloat result" where
  "float_of_text text =
     (let bad = Inl (ValueError (''could not convert string to float: '' @ repr_string text)) in
      case drop_underscores (CHR '' '') (strip text) of None \<Rightarrow> bad
      | Some s \<Rightarrow>
        (let neg = (s \<noteq> [] \<and> hd s = CHR ''-'');
             body = (if s \<noteq> [] \<and> hd s \<in> {CHR ''-'', CHR ''+''} then tl s else s) in
         if str_lower body \<in> {''inf'', ''infinity''} then Inr (PInf neg)
         else if str_lower body = ''nan'' then Inr NaN
         else case decimal_text body of None \<Rightarrow> bad
         | Some q \<Rightarrow> Inr (if q = 0 then Fin neg 0 else to_float neg q)))"

text \<open>\<open>format(x, ".kf")\<close> and, with thousands separators, \<open>format(x, ",.kf")\<close>.\<close>

fun grouped :: "string \<Rightarrow> string" where
  "grouped (a # b # c # d # r) =
     (let s = grouped (b # c # d # r) in
      if length (a # b # c # d # r) mod 3 = 1 then a # CHR '','' # s else a # s)"
| "grouped s = s"

fun format_fixed :: "bool \<Rightarrow> nat \<Rightarrow> pyfloat \<Rightarrow> string" where
  "format_fixed commas k (Fin s q) =
     (let n = nat (round_even (q * 10 ^ k)); whole = show_nat (n div 10 ^ k) in
      (if s then ''-'' else '''') @ (if commas then grouped whole else whole) @ ''.'' @
      pad k (show_nat (n mod 10 ^ k)))"
| "format_fixed commas k (PInf s) = (if s then ''-inf'' else ''inf'')"
| "format_fixed commas k NaN = ''nan''"

text \<open>
  \<open>repr(x)\<close>: the shortest decimal that rounds to the number, and of these the closest.  \<open>m\<close> digits
  are tried in order; \<open>p\<close> is the decimal exponent, 17 digits always suffice.
\<close>

definition digits_of :: "rat \<Rightarrow> int \<Rightarrow> nat \<Rightarrow> int option" where
  "digits_of q p m =
     (let x = q * 10 powi (int m - p); lo = \<lfloor>x\<rfloor>; hi = lo + 1;
          ok = (\<lambda>n. rnd (of_int n * 10 powi (p - int m)) = q) in
      if ok lo \<and> (\<not> ok hi \<or> round_even x = lo) then Some lo
      else if ok hi then Some hi else None)"

fun shortest :: "rat \<Rightarrow> int \<Rightarrow> nat list \<Rightarrow> nat \<times> int" where
  "shortest q p [] = (0, 0)"
| "shortest q p (m # ms) = (case digits_of q p m of Some n \<Rightarrow> (m, n) | None \<Rightarrow> shortest q p ms)"

text \<open>The decimal exponent: \<open>10 powi (p - 1) \<le> q < 10 powi p\<close>.\<close>

definition dec_exp :: "rat \<Rightarrow> int" where
  "dec_exp q = (let (a, b) = quotient_of q;
       k = int (length (show_nat (nat a))) - int (length (show_nat (nat b))) in
     if 10 powi k \<le> q then k + 1 else k)"

fun float_repr :: "pyfloat \<Rightarrow> string" where
  "float_repr (Fin s q) =
     (if s then ''-'' else '''') @
     (if q = 0 then ''0.0'' else
      (let (m, n) = shortest q (dec_exp q) [1..<18];
           ds = rev (dropWhile (\<lambda>c. c = CHR ''0'') (rev (show_nat (nat n))));
           p = dec_exp q - int m + int (length (show_nat (nat n))); l = int (length ds) in
       if p \<le> - 4 \<or> 16 < p then
         hd ds # (if l = 1 then [] else CHR ''.'' # tl ds) @ ''e'' @ (if p - 1 < 0 then ''-'' else ''+'') @
         pad 2 (show_nat (nat \<bar>p - 1\<bar>))
       else if p \<le> 0 then ''0.'' @ replicate (nat (- p)) (CHR ''0'') @ ds
       else if l \<le> p then ds @ replicate (nat (p - l)) (CHR ''0'') @ ''.0''
       else take (nat p) ds @ ''.'' @ drop (nat p) ds))"
| "float_repr (PInf s) = (if s then ''-inf'' else ''inf'')"
| "float_repr NaN = ''nan''"

section \<open>Rounding is monotone\<close>

lemma bits_pos: "0 < n \<Longrightarrow> 1 \<le> bits n \<and> 2 ^ nat (bits n - 1) \<le> n \<and> n < 2 ^ nat (bits n)"
proof (induction n rule: bits.induct)
  case (1 n)
  show ?case
  proof (cases "n = 1")
    case False
    with "1.prems" have half: "0 < n div 2" by linarith
    from "1.IH" [OF _ half] "1.prems"
    have h: "1 \<le> bits (n div 2)" "2 ^ nat (bits (n div 2) - 1) \<le> n div 2" "n div 2 < 2 ^ nat (bits (n div 2))"
      by simp_all
    have b: "bits n = 1 + bits (n div 2)" using "1.prems" by (simp add: bits.simps [of n])
    have e: "nat (bits (n div 2)) = Suc (nat (bits (n div 2) - 1))" "nat (bits n) = Suc (nat (bits (n div 2)))"
      "nat (bits n - 1) = nat (bits (n div 2))"
      using h(1) b by linarith+
    have "2 ^ nat (bits (n div 2)) \<le> 2 * (n div 2)" using h(2) unfolding e(1) power_Suc by linarith
    moreover have "2 * (n div 2) \<le> n" "n < 2 * (n div 2) + 2" by linarith+
    moreover have "2 * (n div 2) + 2 \<le> 2 * 2 ^ nat (bits (n div 2))" using h(3) by linarith
    ultimately show ?thesis using h(1) b unfolding e by simp
  qed (simp add: bits.simps [of 1] bits.simps [of 0])
qed

lemma ilog2:
  assumes "0 < q"
  shows "2 powi ilog2 q \<le> q" "q < 2 powi (ilog2 q + 1)"
proof -
  obtain a b where q: "quotient_of q = (a, b)" by fastforce
  have b: "0 < b" using quotient_of_denom_pos [OF q] .
  have ab: "q = of_int a / of_int b" using quotient_of_div [OF q] .
  have a: "0 < a" using assms b ab by (simp add: zero_less_divide_iff)
  have of: "(of_int (2 ^ n) :: rat) = 2 powi int n" for n :: nat by simp
  have bound: "2 powi (bits n - 1) \<le> (of_int n :: rat)" "(of_int n :: rat) < 2 powi bits n" if "0 < n" for n
  proof -
    note p = bits_pos [OF that]
    have "(of_int (2 ^ nat (bits n - 1)) :: rat) \<le> of_int n" "(of_int n :: rat) < of_int (2 ^ nat (bits n))"
      using p of_int_le_iff of_int_less_iff by blast+
    then show "2 powi (bits n - 1) \<le> (of_int n :: rat)" "(of_int n :: rat) < 2 powi bits n"
      using p unfolding of by simp_all
  qed
  let ?k = "bits a - bits b"
  have 1: "q < 2 powi (?k + 1)"
  proof -
    have "q * 2 powi (bits b - 1) \<le> q * of_int b" using bound(1) [OF b] assms by (intro mult_left_mono) simp_all
    also have "\<dots> = of_int a" using ab b by simp
    also have "\<dots> < 2 powi bits a" by (rule bound(2) [OF a])
    finally show ?thesis by (simp add: power_int_diff power_int_add field_simps)
  qed
  have 2: "2 powi (?k - 1) < q"
  proof -
    have "2 powi (bits a - 1) \<le> (of_int a :: rat)" by (rule bound(1) [OF a])
    also have "\<dots> = q * of_int b" using ab b by simp
    also have "\<dots> < q * 2 powi bits b" using bound(2) [OF b] assms by simp
    finally show ?thesis by (simp add: power_int_diff power_int_add field_simps)
  qed
  show "2 powi ilog2 q \<le> q" "q < 2 powi (ilog2 q + 1)"
    using 1 2 by (simp_all add: ilog2_def q Let_def)
qed

lemma round_even_bounds: "\<lfloor>x\<rfloor> \<le> round_even x" "round_even x \<le> \<lfloor>x\<rfloor> + 1"
  by (simp_all add: round_even_def Let_def)

lemma round_even_int [simp]: "round_even (of_int n) = n"
  by (simp add: round_even_def)

lemma round_even_mono: "x \<le> y \<Longrightarrow> round_even x \<le> round_even y"
proof (cases "\<lfloor>x\<rfloor> = \<lfloor>y\<rfloor>")
  case True
  then show "x \<le> y \<Longrightarrow> round_even x \<le> round_even y" by (auto simp: round_even_def Let_def)
next
  case False
  assume "x \<le> y"
  with False have "\<lfloor>x\<rfloor> + 1 \<le> \<lfloor>y\<rfloor>" using floor_mono [of x y] by linarith
  with round_even_bounds [of x] round_even_bounds [of y] show ?thesis by linarith
qed

lemma round_even_le: "x \<le> of_int n \<Longrightarrow> round_even x \<le> n"
  using round_even_mono [of x "of_int n"] by simp

lemma round_even_ge: "of_int n \<le> x \<Longrightarrow> n \<le> round_even x"
  using round_even_mono [of "of_int n" x] by simp

lemma ilog2_mono: "0 < x \<Longrightarrow> x \<le> y \<Longrightarrow> ilog2 x \<le> ilog2 y"
proof (rule ccontr)
  assume "0 < x" "x \<le> y" "\<not> ilog2 x \<le> ilog2 y"
  then have "(2 :: rat) powi (ilog2 y + 1) \<le> 2 powi ilog2 x" by (intro power_int_increasing) simp_all
  with ilog2(2) [of y] ilog2(1) [of x] \<open>0 < x\<close> \<open>x \<le> y\<close> show False by simp
qed

lemma rnd_nonneg: "0 \<le> q \<Longrightarrow> 0 \<le> rnd q"
  using round_even_ge [of 0 "q / 2 powi ulp_exp q"] by (simp add: rnd_def)

lemma rnd_mono:
  assumes "0 \<le> x" "x \<le> y"
  shows "rnd x \<le> rnd y"
proof (cases "x = 0")
  case True
  then show ?thesis using rnd_nonneg [of y] assms by (simp add: rnd_def)
next
  case False
  with assms have pos: "0 < x" "0 < y" by simp_all
  let ?e = "ulp_exp x" and ?f = "ulp_exp y"
  have le: "?e \<le> ?f" using ilog2_mono [OF pos(1) assms(2)] by (simp add: ulp_exp_def)
  show ?thesis
  proof (cases "?e = ?f")
    case True
    have "round_even (x / 2 powi ?e) \<le> round_even (y / 2 powi ?e)"
      using assms by (intro round_even_mono divide_right_mono) simp_all
    then show ?thesis using pos True by (simp add: rnd_def)
  next
    case ne: False
    have f: "?f = ilog2 y - 52" and e: "ilog2 x - 52 \<le> ?e" using le ne by (auto simp: ulp_exp_def max_def split: if_splits)
    have "x < 2 powi (ilog2 x + 1)" by (rule ilog2(2) [OF pos(1)])
    also have "\<dots> \<le> 2 powi (?e + 53)" using e by (intro power_int_increasing) simp_all
    finally have "x / 2 powi ?e \<le> of_int (2 ^ 53)" by (simp add: power_int_add field_simps)
    then have "round_even (x / 2 powi ?e) \<le> 2 ^ 53" by (rule round_even_le)
    then have "(of_int (round_even (x / 2 powi ?e)) :: rat) \<le> of_int (2 ^ 53)" by (simp only: of_int_le_iff)
    then have "rnd x \<le> of_int (2 ^ 53) * 2 powi ?e" using pos by (simp add: rnd_def)
    also have "\<dots> = 2 powi (?e + 53)" by (simp add: power_int_add)
    also have "\<dots> \<le> 2 powi (?f + 52)" using le ne by (intro power_int_increasing) simp_all
    also have "\<dots> = of_int (2 ^ 52) * 2 powi ?f" by (simp add: power_int_add)
    also have "\<dots> \<le> rnd y"
    proof -
      have "of_int (2 ^ 52) \<le> y / 2 powi ?f"
        using ilog2(1) [OF pos(2)] by (simp add: f power_int_diff field_simps)
      then have "2 ^ 52 \<le> round_even (y / 2 powi ?f)" by (rule round_even_ge)
      then have "(of_int (2 ^ 52) :: rat) \<le> of_int (round_even (y / 2 powi ?f))" by (simp only: of_int_le_iff)
      then show ?thesis using pos by (simp add: rnd_def)
    qed
    finally show ?thesis .
  qed
qed

text \<open>A number with at most 53 significant bits is not rounded.\<close>

lemma rnd_exact:
  assumes "0 \<le> n" "n \<le> 2 ^ 53" "- 1074 \<le> e"
  shows "rnd (of_int n * 2 powi e) = of_int n * 2 powi e"
proof (cases "n = 0")
  case False
  let ?q = "of_int n * 2 powi e :: rat"
  have q: "0 < ?q" using False assms(1) by simp
  show ?thesis
  proof (cases "n = 2 ^ 53")
    case True
    have q': "?q = 2 powi (e + 53)" by (simp add: True power_int_add)
    have "ilog2 ?q = e + 53"
    proof (rule antisym)
      have "(2 :: rat) powi ilog2 ?q \<le> 2 powi (e + 53)" using ilog2(1) [OF q] q' by simp
      then show "ilog2 ?q \<le> e + 53" by (metis not_less one_less_numeral_iff power_int_strict_increasing semiring_norm(76) leD)
      have "(2 :: rat) powi (e + 53) < 2 powi (ilog2 ?q + 1)" using ilog2(2) [OF q] q' by simp
      then have "e + 53 < ilog2 ?q + 1"
        by (metis not_less one_le_numeral power_int_increasing)
      then show "e + 53 \<le> ilog2 ?q" by simp
    qed
    then have u: "ulp_exp ?q = e + 1" using assms(3) by (simp add: ulp_exp_def)
    have "?q / 2 powi (e + 1) = of_int (2 ^ 52)"
      unfolding q' by (simp add: power_int_diff [symmetric]) 
    then have "round_even (?q / 2 powi (e + 1)) = 2 ^ 52" by (metis round_even_int)
    then show ?thesis using q q' unfolding rnd_def u by (simp add: power_int_add)
  next
    case ne: False
    have "ilog2 ?q < e + 53"
    proof (rule ccontr)
      assume "\<not> ilog2 ?q < e + 53"
      then have "(2 :: rat) powi (e + 53) \<le> 2 powi ilog2 ?q" by (intro power_int_increasing) simp_all
      also have "\<dots> \<le> ?q" by (rule ilog2(1) [OF q])
      finally have "(of_int (2 ^ 53) :: rat) \<le> of_int n" by (simp add: power_int_add)
      then have "2 ^ 53 \<le> n" by (simp only: of_int_le_iff)
      with assms(2) ne show False by simp
    qed
    then have u: "ulp_exp ?q \<le> e" using assms(3) by (simp add: ulp_exp_def)
    have "?q / 2 powi ulp_exp ?q = of_int (n * 2 ^ nat (e - ulp_exp ?q))"
      using u by (simp add: power_int_diff flip: power_int_of_nat)
    then have "of_int (round_even (?q / 2 powi ulp_exp ?q)) = ?q / 2 powi ulp_exp ?q"
      by (metis round_even_int)
    then show ?thesis using q by (simp add: rnd_def)
  qed
qed (simp add: rnd_def)

lemma rnd_int: "0 \<le> n \<Longrightarrow> n \<le> 2 ^ 53 \<Longrightarrow> rnd (of_int n) = of_int n"
  using rnd_exact [of n 0] by simp

end
