(* ===== verification/Dashboard.thy ===== *)
theory Dashboard
  imports Floats
begin

text \<open>
  \<open>dashboard.py\<close>: loading and checking the bundled scenarios, and the texts a scenario is shown as.  The
  decoded file is a parameter; of \<open>build_dashboard\<close> only what it shows first is modelled, not the layout.
  A decoded JSON value has floats here.  Texts of the data have code points below 256; the two
  Markdown texts use others, so they are lists of code points.  \<open>compensated\<close> says whether \<open>sum\<close> is the one
  of CPython 3.12 and later.
\<close>

section \<open>Decoded values\<close>

datatype djson =
    DNull | DBool bool | DInt int | DFloat pyfloat | DStr string
  | DArr "djson list" | DObj "(string \<times> djson) list"

fun type_name :: "djson \<Rightarrow> string" where
  "type_name DNull = ''NoneType''"
| "type_name (DBool _) = ''bool''"
| "type_name (DInt _) = ''int''"
| "type_name (DFloat _) = ''float''"
| "type_name (DStr _) = ''str''"
| "type_name (DArr _) = ''list''"
| "type_name (DObj _) = ''dict''"

definition type_error :: "string \<Rightarrow> pyexn" where
  "type_error text = OtherError ''TypeError'' text"

fun d_repr :: "djson \<Rightarrow> string" where
  "d_repr DNull = ''None''"
| "d_repr (DBool b) = (if b then ''True'' else ''False'')"
| "d_repr (DInt i) = show_int i"
| "d_repr (DFloat x) = float_repr x"
| "d_repr (DStr s) = repr_string s"
| "d_repr (DArr xs) = ''['' @ join '', '' (map d_repr xs) @ '']''"
| "d_repr (DObj kvs) =
     ''{'' @ join '', '' (map (\<lambda>(k, v). repr_string k @ '': '' @ d_repr v) kvs) @ ''}''"

definition d_str :: "djson \<Rightarrow> string" where
  "d_str v = (case v of DStr s \<Rightarrow> s | _ \<Rightarrow> d_repr v)"

definition rbind :: "'a result \<Rightarrow> ('a \<Rightarrow> 'b result) \<Rightarrow> 'b result" where
  "rbind r f = (case r of Inl e \<Rightarrow> Inl e | Inr x \<Rightarrow> f x)"

fun each :: "('a \<Rightarrow> 'b result) \<Rightarrow> 'a list \<Rightarrow> 'b list result" where
  "each f [] = Inr []"
| "each f (x # xs) = rbind (f x) (\<lambda>y. rbind (each f xs) (\<lambda>ys. Inr (y # ys)))"

text \<open>\<open>v.get(key, default)\<close>, \<open>v[key]\<close>, \<open>for x in v\<close>, \<open>len(v)\<close>, \<open>bool(v)\<close>, \<open>v in {...}\<close> and \<open>float(v)\<close>.\<close>

definition get_or :: "djson \<Rightarrow> djson \<Rightarrow> string \<Rightarrow> djson result" where
  "get_or dflt v key = (case v of
     DObj kvs \<Rightarrow> Inr (case map_of kvs key of None \<Rightarrow> dflt | Some x \<Rightarrow> x)
   | _ \<Rightarrow> Inl (OtherError ''AttributeError'' (squote @ type_name v @ squote @ '' object has no attribute '' @
       squote @ ''get'' @ squote)))"

definition index :: "djson \<Rightarrow> string \<Rightarrow> djson result" where
  "index v key = (case v of
     DObj kvs \<Rightarrow> (case map_of kvs key of None \<Rightarrow> Inl (OtherError ''KeyError'' (repr_string key)) | Some x \<Rightarrow> Inr x)
   | DArr _ \<Rightarrow> Inl (type_error ''list indices must be integers or slices, not str'')
   | DStr _ \<Rightarrow> Inl (type_error (''string indices must be integers, not '' @ squote @ ''str'' @ squote))
   | _ \<Rightarrow> Inl (type_error (squote @ type_name v @ squote @ '' object is not subscriptable'')))"

definition elements :: "djson \<Rightarrow> djson list result" where
  "elements v = (case v of
     DArr xs \<Rightarrow> Inr xs
   | DObj kvs \<Rightarrow> Inr (map (\<lambda>(k, _). DStr k) kvs)
   | DStr s \<Rightarrow> Inr (map (\<lambda>c. DStr [c]) s)
   | _ \<Rightarrow> Inl (type_error (squote @ type_name v @ squote @ '' object is not iterable'')))"

definition size_of :: "djson \<Rightarrow> int result" where
  "size_of v = (case elements v of Inr xs \<Rightarrow> Inr (int (length xs))
     | Inl _ \<Rightarrow> Inl (type_error (''object of type '' @ squote @ type_name v @ squote @ '' has no len()'')))"

definition truthy :: "djson \<Rightarrow> bool" where
  "truthy v = (case v of DNull \<Rightarrow> False | DBool b \<Rightarrow> b | DInt i \<Rightarrow> i \<noteq> 0
     | DFloat x \<Rightarrow> \<not> fequal x (Fin False 0) | DStr s \<Rightarrow> s \<noteq> [] | DArr xs \<Rightarrow> xs \<noteq> [] | DObj kvs \<Rightarrow> kvs \<noteq> [])"

definition one_of :: "string list \<Rightarrow> djson \<Rightarrow> bool result" where
  "one_of texts v = (case v of
     DStr s \<Rightarrow> Inr (s \<in> set texts)
   | DArr _ \<Rightarrow> Inl (type_error (''unhashable type: '' @ squote @ ''list'' @ squote))
   | DObj _ \<Rightarrow> Inl (type_error (''unhashable type: '' @ squote @ ''dict'' @ squote))
   | _ \<Rightarrow> Inr False)"

definition as_float :: "djson \<Rightarrow> pyfloat result" where
  "as_float v = (case v of
     DBool b \<Rightarrow> Inr (Fin False (if b then 1 else 0))
   | DInt i \<Rightarrow> float_of_int i
   | DFloat x \<Rightarrow> Inr x
   | DStr s \<Rightarrow> float_of_text s
   | _ \<Rightarrow> Inl (type_error (''float() argument must be a string or a real number, not '' @
       squote @ type_name v @ squote)))"

definition figure :: "djson \<Rightarrow> string \<Rightarrow> pyfloat result" where
  "figure v key = rbind (index v key) as_float"

section \<open>Loading and checking\<close>

definition DISPOSITIONS :: "string list" where
  "DISPOSITIONS = [''normal'', ''review'', ''block'']"

definition CONTROL_STATUSES :: "string list" where
  "CONTROL_STATUSES = [''pass'', ''warn'', ''fail'']"

definition ASSET_FIELDS :: "string list" where
  "ASSET_FIELDS = [''capacity_kw'', ''offered_kw'', ''reserved_kw'', ''dispatched_kw'', ''delivered_kwh'']"

definition check_figures :: "string \<Rightarrow> string \<Rightarrow> pyfloat list \<Rightarrow> unit result" where
  "check_figures name asset_id figures =
     (if list_ex (\<lambda>x. fless x (Fin False 0)) figures
      then Inl (ValueError (''Scenario '' @ name @ '' contains a negative asset value.''))
      else case figures of
        [capacity, offered, reserved, dispatched, delivered] \<Rightarrow>
          if fequal capacity (Fin False 0)
          then Inl (ValueError (''Scenario '' @ name @ '' requires positive capacity for '' @ asset_id @ ''.''))
          else if \<not> (fle offered capacity \<and> fle reserved offered \<and> fle dispatched reserved)
          then Inl (ValueError (''Scenario '' @ name @ '' violates capacity ordering for '' @ asset_id @ ''.''))
          else Inr ()
      | _ \<Rightarrow> Inl (ValueError ''unpack''))"

definition check_asset :: "string \<Rightarrow> string list \<Rightarrow> djson \<Rightarrow> string result" where
  "check_asset name seen asset = rbind (get_or DNull asset ''asset_id'') (\<lambda>v.
     case v of
       DStr (c # cs) \<Rightarrow>
         if c # cs \<in> set seen
         then Inl (ValueError (''Scenario '' @ name @ '' repeats asset '' @ (c # cs) @ ''.''))
         else rbind (each (figure asset) ASSET_FIELDS) (\<lambda>figures.
           rbind (check_figures name (c # cs) figures) (\<lambda>_. Inr (c # cs)))
     | _ \<Rightarrow> Inl (ValueError (''Scenario '' @ name @ '' has an asset without an ID.'')))"

fun check_assets :: "string \<Rightarrow> string list \<Rightarrow> djson list \<Rightarrow> unit result" where
  "check_assets name seen [] = Inr ()"
| "check_assets name seen (asset # assets) =
     rbind (check_asset name seen asset) (\<lambda>i. check_assets name (i # seen) assets)"

definition check_control :: "string \<Rightarrow> djson \<Rightarrow> unit result" where
  "check_control name control = rbind (get_or DNull control ''status'') (\<lambda>v.
     rbind (one_of CONTROL_STATUSES v) (\<lambda>known.
     if known then Inr () else Inl (ValueError (''Scenario '' @ name @ '' has an invalid control status.''))))"

definition validate_scenario :: "djson \<Rightarrow> unit result" where
  "validate_scenario scenario = rbind (get_or DNull scenario ''name'') (\<lambda>v.
     case v of
       DStr name \<Rightarrow>
         if blank name then Inl (ValueError ''Every scenario requires a non-empty name.'')
         else rbind (get_or DNull scenario ''disposition'') (\<lambda>d.
           rbind (one_of DISPOSITIONS d) (\<lambda>known.
           if \<not> known then Inl (ValueError (''Scenario '' @ name @ '' has an invalid disposition.''))
           else rbind (get_or DNull scenario ''assets'') (\<lambda>a.
             case a of
               DArr (asset # assets) \<Rightarrow>
                 rbind (check_assets name [] (asset # assets)) (\<lambda>_.
                 rbind (get_or (DArr []) scenario ''controls'') (\<lambda>c.
                 rbind (elements c) (\<lambda>controls.
                 rbind (each (check_control name) controls) (\<lambda>_. Inr ()))))
             | _ \<Rightarrow> Inl (ValueError (''Scenario '' @ name @ '' requires at least one asset.'')))))
     | _ \<Rightarrow> Inl (ValueError ''Every scenario requires a non-empty name.''))"

fun index_scenarios :: "(string \<times> djson) list \<Rightarrow> djson list \<Rightarrow> (string \<times> djson) list result" where
  "index_scenarios indexed [] = Inr indexed"
| "index_scenarios indexed (scenario # rest) =
     rbind (validate_scenario scenario) (\<lambda>_. rbind (index scenario ''name'') (\<lambda>v.
       if d_str v \<in> set (map fst indexed)
       then Inl (ValueError (''Duplicate dashboard scenario: '' @ d_str v))
       else index_scenarios (indexed @ [(d_str v, scenario)]) rest))"

definition load_scenarios :: "djson \<Rightarrow> (string \<times> djson) list result" where
  "load_scenarios payload = rbind (get_or DNull payload ''synthetic_data'') (\<lambda>synthetic.
     if synthetic \<noteq> DBool True
     then Inl (ValueError ''Dashboard data must be explicitly marked as synthetic.'')
     else rbind (get_or DNull payload ''scenarios'') (\<lambda>v. case v of
       DArr (s # ss) \<Rightarrow> index_scenarios [] (s # ss)
     | _ \<Rightarrow> Inl (ValueError ''Dashboard data must contain at least one scenario.'')))"

definition scenario_names :: "djson \<Rightarrow> string list result" where
  "scenario_names payload = rbind (load_scenarios payload) (\<lambda>indexed. Inr (map fst indexed))"

section \<open>Figures and HTML\<close>

definition rstrip :: "char \<Rightarrow> string \<Rightarrow> string" where
  "rstrip x s = rev (dropWhile (\<lambda>c. c = x) (rev s))"

definition number :: "pyfloat \<Rightarrow> string" where
  "number x = rstrip (CHR ''.'') (rstrip (CHR ''0'') (format_fixed True 1 x))"

definition escape_char :: "char \<Rightarrow> string" where
  "escape_char c =
     (if c = CHR ''&'' then ''&amp;'' else if c = CHR ''<'' then ''&lt;'' else if c = CHR ''>'' then ''&gt;''
      else if c = CHR 0x22 then ''&quot;'' else if c = CHR 0x27 then ''&#x27;'' else [c])"

definition html_escape :: "string \<Rightarrow> string" where
  "html_escape s = concat (map escape_char s)"

text \<open>An attribute in double quotes.\<close>

definition quoted :: "string \<Rightarrow> string" where
  "quoted s = CHR 0x22 # s @ [CHR 0x22]"

definition kpi_card :: "string \<Rightarrow> string \<Rightarrow> string \<Rightarrow> string \<Rightarrow> string" where
  "kpi_card label value detail tone =
     ''<div class='' @ quoted (''eft-kpi '' @ html_escape tone) @ ''>'' @
     ''<span class='' @ quoted ''eft-kpi-label'' @ ''>'' @ html_escape label @ ''</span>'' @
     ''<strong>'' @ html_escape value @ ''</strong>'' @
     ''<small>'' @ html_escape detail @ ''</small></div>''"

definition total :: "bool \<Rightarrow> djson list \<Rightarrow> string \<Rightarrow> pyfloat result" where
  "total compensated assets key =
     rbind (each (\<lambda>asset. figure asset key) assets) (\<lambda>xs. Inr (py_sum compensated xs))"

definition kpi_cards :: "pyfloat \<Rightarrow> pyfloat \<Rightarrow> pyfloat \<Rightarrow> pyfloat \<Rightarrow> pyfloat \<Rightarrow> pyfloat \<Rightarrow> bool \<Rightarrow> int \<Rightarrow> string list" where
  "kpi_cards capacity reserved dispatched delivered evidence amount ready signals =
     [kpi_card ''Fleet capacity'' (number capacity @ '' kW'') ''registered'' ''blue'',
      kpi_card ''Reserved'' (number reserved @ '' kW'') (number (fsub capacity reserved) @ '' kW headroom'') ''amber'',
      kpi_card ''Dispatched'' (number dispatched @ '' kW'') (number delivered @ '' kWh delivered'') ''green'',
      kpi_card ''Evidence'' (number evidence @ ''%'') ''interval coverage'' ''violet'',
      kpi_card ''Settlement'' (CHR 0xA3 # number amount) (if ready then ''ready'' else ''held'')
        (if ready then ''green'' else ''red''),
      kpi_card ''Risk signals'' (show_int signals) (if signals \<noteq> 0 then ''requires review'' else ''none detected'')
        (if signals \<noteq> 0 then ''red'' else ''green'')]"

definition render_kpis :: "bool \<Rightarrow> djson \<Rightarrow> string result" where
  "render_kpis compensated scenario =
     rbind (rbind (index scenario ''assets'') elements) (\<lambda>assets.
     rbind (total compensated assets ''capacity_kw'') (\<lambda>capacity.
     rbind (total compensated assets ''reserved_kw'') (\<lambda>reserved.
     rbind (total compensated assets ''dispatched_kw'') (\<lambda>dispatched.
     rbind (total compensated assets ''delivered_kwh'') (\<lambda>delivered.
     rbind (index scenario ''settlement'') (\<lambda>settlement.
     rbind (index settlement ''ready'') (\<lambda>ready.
     rbind (figure settlement ''evidence_coverage_percent'') (\<lambda>evidence.
     rbind (rbind (get_or (DArr []) scenario ''signals'') size_of) (\<lambda>signals.
     rbind (figure settlement ''amount_gbp'') (\<lambda>amount.
     Inr (''<div class='' @ quoted ''eft-kpi-grid'' @ ''>'' @
       concat (kpi_cards capacity reserved dispatched delivered evidence amount (truthy ready) signals) @
       ''</div>'')))))))))))"

text \<open>The share of the capacity in per cent.\<close>

definition share :: "pyfloat \<Rightarrow> pyfloat \<Rightarrow> pyfloat result" where
  "share x capacity = rbind (fdiv x capacity) (\<lambda>q. Inr (fmul q (Fin False 100)))"

definition bar_widths :: "djson \<Rightarrow> (pyfloat \<times> pyfloat list) result" where
  "bar_widths asset = rbind (figure asset ''capacity_kw'') (\<lambda>capacity.
     rbind (each (\<lambda>key. rbind (figure asset key) (\<lambda>x. share x capacity))
       [''offered_kw'', ''reserved_kw'', ''dispatched_kw'']) (\<lambda>widths. Inr (capacity, widths)))"

definition bar :: "string \<times> pyfloat \<Rightarrow> string" where
  "bar kw = (case kw of (kind, width) \<Rightarrow> ''<span class='' @ quoted kind @ '' style='' @
     quoted (''width:'' @ format_fixed False 2 width @ ''%'') @ ''></span>'')"

definition capacity_row :: "string \<Rightarrow> pyfloat \<Rightarrow> pyfloat list \<Rightarrow> string" where
  "capacity_row asset_id capacity widths =
     ''<div class='' @ quoted ''eft-capacity-row'' @ ''>'' @
     ''<div class='' @ quoted ''eft-capacity-label'' @ ''><strong>'' @ html_escape asset_id @ ''</strong>'' @
     ''<span>'' @ number capacity @ '' kW</span></div>'' @
     ''<div class='' @ quoted ''eft-track'' @ ''>'' @
     concat (map bar (zip [''offered'', ''reserved'', ''dispatched''] widths)) @ ''</div></div>''"

definition legend :: string where
  "legend = ''<div class='' @ quoted ''eft-legend'' @ ''><span class='' @ quoted ''l-offered'' @ ''>Offered</span>'' @
     ''<span class='' @ quoted ''l-reserved'' @ ''>Reserved</span>'' @
     ''<span class='' @ quoted ''l-dispatched'' @ ''>Dispatched</span></div>''"

text \<open>\<open>html.escape\<close> of a value that is no text has no \<open>replace\<close>.\<close>

definition text_field_of :: "djson \<Rightarrow> string result" where
  "text_field_of v = (case v of DStr s \<Rightarrow> Inr s | _ \<Rightarrow>
     Inl (OtherError ''AttributeError'' (squote @ type_name v @ squote @ '' object has no attribute '' @
       squote @ ''replace'' @ squote)))"

definition asset_row :: "djson \<Rightarrow> string result" where
  "asset_row asset = rbind (bar_widths asset) (\<lambda>(capacity, widths).
     rbind (rbind (index asset ''asset_id'') text_field_of) (\<lambda>asset_id.
     Inr (capacity_row asset_id capacity widths)))"

definition render_capacity :: "djson \<Rightarrow> string result" where
  "render_capacity scenario =
     rbind (rbind (index scenario ''assets'') elements) (\<lambda>assets.
     rbind (each asset_row assets) (\<lambda>rows.
     Inr (''<div class='' @ quoted ''eft-capacity'' @ ''>'' @ concat rows @ legend @ ''</div>'')))"

section \<open>Markdown and tables\<close>

definition code_points :: "string \<Rightarrow> nat list" where
  "code_points s = map of_char s"

text \<open>\<open>s.upper()\<close>: three letters leave Latin-1.\<close>

definition upper_char :: "char \<Rightarrow> nat list" where
  "upper_char c = (let n = (of_char c :: nat) in
     if n = 181 then [924] else if n = 223 then [83, 83] else if n = 255 then [376]
     else if (97 \<le> n \<and> n \<le> 122) \<or> (224 \<le> n \<and> n \<le> 254 \<and> n \<noteq> 247) then [n - 32] else [n])"

definition upper :: "string \<Rightarrow> nat list" where
  "upper s = concat (map upper_char s)"

definition BLANK_LINE :: "nat list" where
  "BLANK_LINE = [10, 10]"

definition disposition_label :: "djson \<Rightarrow> (nat list \<times> string) result" where
  "disposition_label v = rbind (one_of DISPOSITIONS v) (\<lambda>known.
     if \<not> known then Inl (OtherError ''KeyError'' (d_repr v))
     else if v = DStr ''normal''
     then Inr (9989 # code_points '' NORMAL'', ''Configured controls report no blocking signal.'')
     else if v = DStr ''review''
     then Inr (9888 # 65039 # code_points '' REVIEW'', ''An authorized operator should review the evidence.'')
     else Inr (128721 # code_points '' BLOCK'', ''Evidence-dependent settlement remains stopped.''))"

definition status_markdown :: "djson \<Rightarrow> nat list result" where
  "status_markdown scenario =
     rbind (rbind (index scenario ''disposition'') disposition_label) (\<lambda>(title, guidance).
     rbind (index scenario ''description'') (\<lambda>description.
     rbind (index scenario ''as_of'') (\<lambda>as_of.
     Inr (code_points ''## '' @ title @ BLANK_LINE @ code_points (d_str description) @ BLANK_LINE @
       code_points (''**Snapshot:** '' @ [CHR 0x60] @ d_str as_of @ [CHR 0x60] @ '' '' @ [CHR 0xB7] @ '' '' @ guidance)))))"

definition signal_line :: "djson \<Rightarrow> nat list result" where
  "signal_line signal =
     rbind (index signal ''severity'') (\<lambda>severity.
     rbind (index signal ''title'') (\<lambda>title.
     rbind (index signal ''action'') (\<lambda>action.
     Inr (code_points ''- **'' @ upper (d_str severity) @ code_points '' '' @ [8212] @
       code_points ('' '' @ d_str title @ '':** '' @ d_str action)))))"

definition signals_markdown :: "djson \<Rightarrow> nat list result" where
  "signals_markdown scenario = rbind (get_or (DArr []) scenario ''signals'') (\<lambda>signals.
     if \<not> truthy signals
     then Inr (code_points ''### Review signals'' @ BLANK_LINE @
       code_points (''No signal is present in this synthetic snapshot. '' @
         ''A clean view is not authorization to dispatch or settle.''))
     else rbind (elements signals) (\<lambda>xs. rbind (each signal_line xs) (\<lambda>lines.
       Inr (concat (code_points ''### Review signals'' # map ((@) BLANK_LINE) lines)))))"

text \<open>A cell is a value of the data or a text made from it.\<close>

datatype cell = Value djson | Shown "nat list"

definition control_row :: "djson \<Rightarrow> cell list result" where
  "control_row control =
     rbind (index control ''name'') (\<lambda>name.
     rbind (index control ''status'') (\<lambda>status.
     rbind (case status of DStr s \<Rightarrow> Inr (upper s) | _ \<Rightarrow>
       Inl (OtherError ''AttributeError'' (squote @ type_name status @ squote @ '' object has no attribute '' @
         squote @ ''upper'' @ squote))) (\<lambda>shown.
     rbind (index control ''evidence'') (\<lambda>evidence.
     Inr [Value name, Shown shown, Value evidence]))))"

definition asset_cells :: "djson \<Rightarrow> cell list result" where
  "asset_cells asset =
     rbind (each (index asset) [''asset_id'', ''asset_type'', ''location'']) (\<lambda>texts.
     rbind (each (figure asset) [''capacity_kw'', ''reserved_kw'', ''dispatched_kw'', ''delivered_kwh'']) (\<lambda>figures.
     rbind (index asset ''status'') (\<lambda>status.
     Inr (map Value texts @ map (\<lambda>x. Shown (code_points (number x))) figures @ [Value status]))))"

definition event_cells :: "djson \<Rightarrow> cell list result" where
  "event_cells event =
     rbind (each (index event) [''time'', ''event'', ''actor'', ''resource'', ''status'']) (\<lambda>xs. Inr (map Value xs))"

definition table :: "djson \<Rightarrow> string \<Rightarrow> (djson \<Rightarrow> cell list result) \<Rightarrow> cell list list result" where
  "table scenario key row = rbind (rbind (index scenario key) elements) (each row)"

record presentation =
  pr_status :: "nat list"
  pr_kpis :: string
  pr_capacity :: string
  pr_controls :: "cell list list"
  pr_assets :: "cell list list"
  pr_events :: "cell list list"
  pr_signals :: "nat list"

definition render_scenario :: "bool \<Rightarrow> djson \<Rightarrow> string \<Rightarrow> presentation result" where
  "render_scenario compensated payload scenario_name = rbind (load_scenarios payload) (\<lambda>scenarios.
     case map_of scenarios scenario_name of
       None \<Rightarrow> Inl (ValueError (''Unknown dashboard scenario: '' @ scenario_name))
     | Some scenario \<Rightarrow>
         rbind (table scenario ''controls'' control_row) (\<lambda>controls.
         rbind (table scenario ''assets'' asset_cells) (\<lambda>assets.
         rbind (table scenario ''events'' event_cells) (\<lambda>events.
         rbind (status_markdown scenario) (\<lambda>status.
         rbind (render_kpis compensated scenario) (\<lambda>kpis.
         rbind (render_capacity scenario) (\<lambda>capacity.
         rbind (signals_markdown scenario) (\<lambda>signals.
         Inr \<lparr>pr_status = status, pr_kpis = kpis, pr_capacity = capacity, pr_controls = controls,
           pr_assets = assets, pr_events = events, pr_signals = signals\<rparr>))))))))"

text \<open>What \<open>build_dashboard\<close> shows first: the names to choose from and the first scenario.\<close>

definition first_view :: "bool \<Rightarrow> djson \<Rightarrow> (string list \<times> presentation) result" where
  "first_view compensated payload = rbind (scenario_names payload) (\<lambda>names.
     rbind (render_scenario compensated payload (hd names)) (\<lambda>initial. Inr (names, initial)))"

section \<open>Accepted scenarios\<close>

lemma rbind_Inr [simp]: "rbind r f = Inr y \<longleftrightarrow> (\<exists>x. r = Inr x \<and> f x = Inr y)"
  by (cases r) (simp_all add: rbind_def)

lemma each_Inr: "each f xs = Inr ys \<longleftrightarrow> list_all2 (\<lambda>x y. f x = Inr y) xs ys"
  by (induction f xs arbitrary: ys rule: each.induct) (auto simp: list_all2_Cons1)

lemma case_DStr_Inr [simp]: "(case v of DStr s \<Rightarrow> f s | _ \<Rightarrow> Inl e) = Inr y \<longleftrightarrow> (\<exists>s. v = DStr s \<and> f s = Inr y)"
  by (cases v) simp_all

lemma case_DArr_Inr [simp]: "(case v of DArr xs \<Rightarrow> f xs | _ \<Rightarrow> Inl e) = Inr y \<longleftrightarrow> (\<exists>xs. v = DArr xs \<and> f xs = Inr y)"
  by (cases v) simp_all

lemma case_Cons_Inr [simp]: "(case s of [] \<Rightarrow> Inl e | c # cs \<Rightarrow> f c cs) = Inr y \<longleftrightarrow> (\<exists>c cs. s = c # cs \<and> f c cs = Inr y)"
  by (cases s) simp_all

lemma get_or_index: "get_or DNull v key = Inr x \<Longrightarrow> x \<noteq> DNull \<Longrightarrow> index v key = Inr x"
  by (auto simp: get_or_def index_def split: djson.splits option.splits)

definition asset_ok :: "djson \<Rightarrow> bool" where
  "asset_ok asset = (\<exists>i c off r d e name. index asset ''asset_id'' = Inr (DStr i) \<and>
     each (figure asset) ASSET_FIELDS = Inr [c, off, r, d, e] \<and> check_figures name i [c, off, r, d, e] = Inr ())"

lemma check_asset_ok: "check_asset name seen asset = Inr i \<Longrightarrow> asset_ok asset"
  by (auto simp: check_asset_def asset_ok_def ASSET_FIELDS_def each_Inr list_all2_Cons1
      dest!: get_or_index split: if_splits)

lemma check_assets_ok: "check_assets name seen assets = Inr () \<Longrightarrow> \<forall>asset\<in>set assets. asset_ok asset"
  by (induction name seen assets rule: check_assets.induct) (auto dest: check_asset_ok)

lemma validate_assets:
  assumes "validate_scenario scenario = Inr ()"
  obtains assets where "index scenario ''assets'' = Inr (DArr assets)" "assets \<noteq> []" "\<forall>asset\<in>set assets. asset_ok asset"
proof -
  from assms obtain name x xs where a: "get_or DNull scenario ''assets'' = Inr (DArr (x # xs))"
    and c: "check_assets name [] (x # xs) = Inr ()"
    by (auto simp: validate_scenario_def simp del: check_assets.simps split: if_splits)
  with that [of "x # xs"] get_or_index [OF a] check_assets_ok [OF c] show thesis by simp
qed

lemma index_scenarios_valid:
  "index_scenarios indexed scenarios = Inr ys \<Longrightarrow> (n, s) \<in> set ys \<Longrightarrow>
     (n, s) \<in> set indexed \<or> s \<in> set scenarios \<and> validate_scenario s = Inr ()"
  by (induction indexed scenarios rule: index_scenarios.induct) (auto split: if_splits)

text \<open>Every magnitude of a decoded file is non-negative: the sign is a component of its own.\<close>

fun proper :: "pyfloat \<Rightarrow> bool" where
  "proper (Fin s q) = (0 \<le> q)"
| "proper _ = True"

fun floats_ok :: "djson \<Rightarrow> bool" where
  "floats_ok (DFloat x) = proper x"
| "floats_ok (DArr xs) = list_all floats_ok xs"
| "floats_ok (DObj kvs) = list_all (\<lambda>(_, v). floats_ok v) kvs"
| "floats_ok _ = True"

lemma floats_ok_field: "floats_ok v \<Longrightarrow> index v key = Inr x \<Longrightarrow> floats_ok x"
  by (auto simp: index_def list_all_iff dest!: map_of_SomeD split: djson.splits option.splits)

lemma proper_to_float: "0 \<le> q \<Longrightarrow> proper (to_float s q)"
  by (simp add: to_float_def Let_def rnd_nonneg)

lemma decimal_text_nonneg: "decimal_text s = Some q \<Longrightarrow> 0 \<le> q"
  by (auto simp: decimal_text_def Let_def split: if_splits)

lemma proper_as_float: "floats_ok v \<Longrightarrow> as_float v = Inr x \<Longrightarrow> proper x"
  by (auto simp: as_float_def float_of_int_def float_of_text_def nearest_def Let_def proper_to_float
      dest: decimal_text_nonneg intro!: proper_to_float split: djson.splits option.splits if_splits pyfloat.splits)

lemma proper_figure: "floats_ok v \<Longrightarrow> figure v key = Inr x \<Longrightarrow> proper x"
  by (auto simp: figure_def dest: floats_ok_field proper_as_float)

lemma load_scenarios_valid:
  assumes "load_scenarios payload = Inr scenarios" "map_of scenarios name = Some scenario" "floats_ok payload"
  shows "validate_scenario scenario = Inr ()" "floats_ok scenario"
proof -
  from assms(1) obtain ss where ss: "get_or DNull payload ''scenarios'' = Inr (DArr ss)" "index_scenarios [] ss = Inr scenarios"
    by (auto simp: load_scenarios_def simp del: index_scenarios.simps split: if_splits)
  from index_scenarios_valid [OF ss(2) map_of_SomeD [OF assms(2)]]
  have s: "scenario \<in> set ss" "validate_scenario scenario = Inr ()" by simp_all
  from floats_ok_field [OF assms(3) get_or_index [OF ss(1)]] s(1) show "floats_ok scenario"
    by (auto simp: list_all_iff)
  show "validate_scenario scenario = Inr ()" by (rule s)
qed

section \<open>The bars\<close>

lemma check_figures_bars:
  assumes "check_figures name i [c, off, r, d, e] = Inr ()" "proper c" "proper off" "proper r" "proper d"
  shows "c = PInf False \<or> (\<exists>q. c = Fin False q \<and> 0 < q \<and> (\<exists>s a t b u v. off = Fin s a \<and> r = Fin t b \<and> d = Fin u v \<and>
     0 \<le> fval d \<and> fval d \<le> fval r \<and> fval r \<le> fval off \<and> fval off \<le> q))"
  using assms
  by (cases c; cases off; cases r; cases d) (auto simp: check_figures_def fle_def split: if_splits)

lemma rnd_le_int: "0 \<le> x \<Longrightarrow> x \<le> of_int n \<Longrightarrow> n \<le> 2 ^ 53 \<Longrightarrow> rnd x \<le> of_int n"
  by (metis of_int_0_le_iff order_trans rnd_int rnd_mono)

lemma share_fin:
  assumes "proper (Fin s a)" "0 \<le> fval (Fin s a)" "fval (Fin s a) \<le> q" "0 < q"
  shows "\<exists>z. share (Fin s a) (Fin False q) = Inr (Fin z (rnd (100 * rnd (fval (Fin s a) / q)))) \<and>
     (z \<longrightarrow> rnd (100 * rnd (fval (Fin s a) / q)) = 0)"
proof (cases "a = 0")
  case True
  then show ?thesis using assms by (simp add: share_def rbind_def rnd_def)
next
  case False
  with assms have s: "\<not> s" and a: "0 < a" by (auto split: if_splits)
  have 1: "0 \<le> rnd (a / q)" "rnd (a / q) \<le> 1"
    using rnd_le_int [of "a / q" 1] assms s a by (simp_all add: rnd_nonneg)
  then have 2: "rnd (100 * rnd (a / q)) \<le> 100" using rnd_le_int [of "100 * rnd (a / q)" 100] by simp
  show ?thesis using assms s a 1 2 by (auto simp: share_def rbind_def to_float_def Let_def mult.commute rnd_def [of 0])
qed

lemma fle_Fin: "(s \<longrightarrow> x = 0) \<Longrightarrow> (t \<longrightarrow> y = 0) \<Longrightarrow> x \<le> y \<Longrightarrow> fle (Fin s x) (Fin t y)"
  by (auto simp: fle_def)

definition WIDEST :: pyfloat where
  "WIDEST = Fin False 100"

lemma bar_widths_ordered:
  assumes "asset_ok asset" "floats_ok asset"
  shows "\<exists>c off r d. bar_widths asset = Inr (c, [off, r, d]) \<and> fless (Fin False 0) c \<and>
     (c = PInf False \<or> fle (Fin False 0) d \<and> fle d r \<and> fle r off \<and> fle off WIDEST)"
proof -
  from assms(1) obtain i name c off r d e where f: "check_figures name i [c, off, r, d, e] = Inr ()"
    "figure asset ''capacity_kw'' = Inr c" "figure asset ''offered_kw'' = Inr off"
    "figure asset ''reserved_kw'' = Inr r" "figure asset ''dispatched_kw'' = Inr d"
    by (auto simp: asset_ok_def ASSET_FIELDS_def each_Inr)
  note proper = f(2-5) [THEN proper_figure [OF assms(2)]]
  have w: "bar_widths asset = Inr (c, [x, y, z])"
    if "share off c = Inr x" "share r c = Inr y" "share d c = Inr z" for x y z
    using that f by (simp add: bar_widths_def rbind_def)
  from check_figures_bars [OF f(1) proper] show ?thesis
  proof (elim disjE exE conjE)
    assume c: "c = PInf False"
    obtain x y z where "share off c = Inr x" "share r c = Inr y" "share d c = Inr z"
      by (simp add: c share_def rbind_def)
    from w [OF this] c show ?thesis by simp
  next
    fix q s a t b u v
    assume c: "c = Fin False q" "0 < q" and x: "off = Fin s a" "r = Fin t b" "d = Fin u v"
      and le: "0 \<le> fval d" "fval d \<le> fval r" "fval r \<le> fval off" "fval off \<le> q"
    let ?w = "\<lambda>x. rnd (100 * rnd (fval x / q))"
    have m: "?w x \<le> ?w y" if "0 \<le> fval x" "fval x \<le> fval y" for x y
      using that c(2) by (intro rnd_mono mult_left_mono mult_nonneg_nonneg rnd_nonneg divide_right_mono) simp_all
    have "rnd (fval off / q) \<le> 1" using rnd_le_int [of "fval off / q" 1] le c(2) by simp
    then have top: "?w off \<le> 100" using rnd_le_int [of "100 * rnd (fval off / q)" 100] le c(2) by (simp add: rnd_nonneg)
    have low: "0 \<le> ?w d" using le c(2) by (simp add: rnd_nonneg)
    have sh: "\<exists>z. share x c = Inr (Fin z (?w x)) \<and> (z \<longrightarrow> ?w x = 0)"
      if "x \<in> {off, r, d}" for x
      using that le c(2) proper share_fin [of _ _ q] unfolding c(1) x by auto
    then obtain z1 z2 z3 where z: "share off c = Inr (Fin z1 (?w off))" "z1 \<longrightarrow> ?w off = 0"
      "share r c = Inr (Fin z2 (?w r))" "z2 \<longrightarrow> ?w r = 0" "share d c = Inr (Fin z3 (?w d))" "z3 \<longrightarrow> ?w d = 0"
      by (metis insert_iff)
    have "fless (Fin False 0) c" using c by simp
    moreover have "fle (Fin False 0) (Fin z3 (?w d))" by (rule fle_Fin [OF _ z(6) low]) simp
    moreover have "fle (Fin z1 (?w off)) WIDEST" unfolding WIDEST_def by (rule fle_Fin [OF z(2) _ top]) simp
    moreover have "fle (Fin z3 (?w d)) (Fin z2 (?w r))" by (rule fle_Fin [OF z(6,4) m [OF le(1,2)]])
    moreover have "fle (Fin z2 (?w r)) (Fin z1 (?w off))"
      by (rule fle_Fin [OF z(4,2) m [OF order_trans [OF le(1,2)] le(3)]])
    ultimately show ?thesis using w [OF z(1,3,5)] by blast
  qed
qed

section \<open>Markup\<close>

text \<open>A text without a bracket or a quotation mark.\<close>

definition plain :: "string \<Rightarrow> bool" where
  "plain s = (CHR ''<'' \<notin> set s \<and> CHR 0x22 \<notin> set s)"

lemma plain_append: "plain (s @ t) \<longleftrightarrow> plain s \<and> plain t"
  by (auto simp: plain_def)

lemma plain_digits: "list_all is_digit s \<Longrightarrow> plain s"
  by (auto simp: plain_def list_all_iff is_digit_def)

lemma plain_escape: "plain (html_escape s)"
  by (induction s) (auto simp: html_escape_def plain_def escape_char_def)

lemma plain_grouped: "plain (grouped s) \<longleftrightarrow> plain s"
  by (induction s rule: grouped.induct) (auto simp: plain_def Let_def)

lemma plain_fixed: "plain (format_fixed commas k x)"
proof -
  have "plain (show_nat n)" "plain (pad k (show_nat n))" for n
    using pad_show_digits show_nat_digits by (auto intro!: plain_digits simp: list_all_iff)
  then show ?thesis
    by (cases x) (simp_all add: Let_def plain_append plain_grouped, auto simp: plain_def)
qed

lemma plain_number: "plain (number x)"
proof -
  have "plain s \<Longrightarrow> plain (rstrip c s)" for c s
    by (auto simp: plain_def rstrip_def dest: set_dropWhileD)
  then show ?thesis by (simp add: number_def plain_fixed)
qed

lemma plain_count: "plain s \<Longrightarrow> count_list s (CHR ''<'') = 0" "plain s \<Longrightarrow> count_list s (CHR 0x22) = 0"
  by (simp_all add: plain_def count_notin)

definition marks :: "string \<Rightarrow> nat \<times> nat" where
  "marks s = (count_list s (CHR ''<''), count_list s (CHR 0x22))"

lemmas count_plain [simp] = plain_escape [THEN plain_count(1)] plain_escape [THEN plain_count(2)]
  plain_number [THEN plain_count(1)] plain_number [THEN plain_count(2)]
  plain_fixed [THEN plain_count(1)] plain_fixed [THEN plain_count(2)]

lemma marks_kpi_card: "marks (kpi_card label value detail tone) = (8, 4)"
  by (simp add: marks_def kpi_card_def quoted_def)

lemma marks_row: "length widths = 3 \<Longrightarrow> marks (capacity_row i c widths) = (16, 18)"
  by (auto simp: marks_def capacity_row_def quoted_def bar_def numeral_3_eq_3 length_Suc_conv)

lemma count_concat: "count_list (concat xss) c = sum_list (map (\<lambda>xs. count_list xs c) xss)"
  by (induction xss) simp_all

lemma marks_concat:
  "\<forall>s\<in>set rows. marks s = (a, b) \<Longrightarrow> marks (concat rows) = (a * length rows, b * length rows)"
  by (induction rows) (auto simp: marks_def count_concat)

lemma asset_row_marks:
  assumes "asset_ok asset" "floats_ok asset"
  shows "\<exists>row. asset_row asset = Inr row \<and> marks row = (16, 18)"
proof -
  obtain c off r d where "bar_widths asset = Inr (c, [off, r, d])" using bar_widths_ordered [OF assms] by blast
  moreover obtain i where "index asset ''asset_id'' = Inr (DStr i)" using assms(1) by (auto simp: asset_ok_def)
  ultimately show ?thesis by (simp add: asset_row_def rbind_def text_field_of_def marks_row)
qed

lemma each_total: "\<forall>x\<in>set xs. \<exists>y. f x = Inr y \<and> P y \<Longrightarrow> \<exists>ys. each f xs = Inr ys \<and> length ys = length xs \<and> (\<forall>y\<in>set ys. P y)"
  by (induction xs) (auto simp: rbind_def)

lemma render_capacity_marks:
  assumes "index scenario ''assets'' = Inr (DArr assets)" "\<forall>asset\<in>set assets. asset_ok asset" "floats_ok scenario"
  shows "\<exists>html. render_capacity scenario = Inr html \<and> marks html = (16 * length assets + 10, 18 * length assets + 10)"
proof -
  have "\<forall>asset\<in>set assets. floats_ok asset" using floats_ok_field [OF assms(3,1)] by (simp add: list_all_iff)
  with assms(2) each_total [of assets asset_row "\<lambda>row. marks row = (16, 18)"] asset_row_marks
  obtain rows where rows: "each asset_row assets = Inr rows" "length rows = length assets" "\<forall>row\<in>set rows. marks row = (16, 18)"
    by blast
  from marks_concat [OF rows(3)] show ?thesis
    by (simp add: render_capacity_def assms(1) elements_def rows(1,2) rbind_def marks_def quoted_def legend_def)
qed

lemma render_kpis_marks: "render_kpis compensated scenario = Inr html \<Longrightarrow> marks html = (50, 26)"
proof -
  have "marks (concat (kpi_cards c r d e v a k s)) = (48, 24)" for c r d e v a k s
    using marks_concat [of "kpi_cards c r d e v a k s" 8 4] by (simp add: kpi_cards_def marks_kpi_card)
  then show "render_kpis compensated scenario = Inr html \<Longrightarrow> marks html = (50, 26)"
    by (auto simp: render_kpis_def marks_def quoted_def)
qed

end
