(* ===== verification/PropertiesDashboard.thy ===== *)
theory PropertiesDashboard
  imports Dashboard
begin

text \<open>What the dashboard shows of the scenarios it accepts.\<close>

text \<open>C40: The capacity chart is faithful and inert.  For every scenario of a file that \<open>load_scenarios\<close>
  accepts the chart is rendered, with three bars for each asset.  Compared as floats, after
  their division and multiplication were rounded, the widths are ordered as the figures are, from zero over
  dispatched, reserved and offered to one hundred per cent, unless the capacity is infinite,
  which the checks let pass.  The number of tags and of quotation marks in the chart depends on
  the number of assets only, and in the cards on nothing: no text of the data can open a tag or leave an attribute.\<close>

theorem capacity_chart_is_faithful:
  assumes "load_scenarios payload = Inr scenarios" "map_of scenarios name = Some scenario" "floats_ok payload"
  shows "\<exists>assets html. index scenario ''assets'' = Inr (DArr assets) \<and> assets \<noteq> [] \<and> render_capacity scenario = Inr html \<and>
     marks html = (16 * length assets + 10, 18 * length assets + 10) \<and>
     (\<forall>asset\<in>set assets. \<exists>c off r d. bar_widths asset = Inr (c, [off, r, d]) \<and> fless (Fin False 0) c \<and>
        (c = PInf False \<or> fle (Fin False 0) d \<and> fle d r \<and> fle r off \<and> fle off (Fin False 100))) \<and>
     (\<forall>compensated cards. render_kpis compensated scenario = Inr cards \<longrightarrow> marks cards = (50, 26))"
proof -
  note valid = load_scenarios_valid [OF assms]
  obtain assets where a: "index scenario ''assets'' = Inr (DArr assets)" "assets \<noteq> []" "\<forall>asset\<in>set assets. asset_ok asset"
    using valid(1) by (rule validate_assets)
  obtain html where html: "render_capacity scenario = Inr html"
    "marks html = (16 * length assets + 10, 18 * length assets + 10)"
    using render_capacity_marks [OF a(1,3) valid(2)] by blast
  have "\<forall>asset\<in>set assets. floats_ok asset" using floats_ok_field [OF valid(2) a(1)] by (simp add: list_all_iff)
  with a(3) bar_widths_ordered have "\<forall>asset\<in>set assets. \<exists>c off r d. bar_widths asset = Inr (c, [off, r, d]) \<and>
      fless (Fin False 0) c \<and> (c = PInf False \<or> fle (Fin False 0) d \<and> fle d r \<and> fle r off \<and> fle off (Fin False 100))"
    unfolding WIDEST_def by blast
  with a html render_kpis_marks show ?thesis by blast
qed

text \<open>A scenario whose asset is named like a tag, and that has no controls.\<close>

definition sample_asset :: "pyfloat \<Rightarrow> pyfloat \<Rightarrow> djson" where
  "sample_asset capacity delivered = DObj [(''asset_id'', DStr ''<b>''), (''capacity_kw'', DFloat capacity),
     (''offered_kw'', DFloat (Fin False 90)), (''reserved_kw'', DFloat (Fin False 70)),
     (''dispatched_kw'', DFloat (Fin False 60)), (''delivered_kwh'', DFloat delivered)]"

definition sample_scenario :: "pyfloat \<Rightarrow> pyfloat \<Rightarrow> djson" where
  "sample_scenario capacity delivered = DObj [(''name'', DStr ''Peak''), (''disposition'', DStr ''normal''),
     (''assets'', DArr [sample_asset capacity delivered])]"

definition sample_file :: "pyfloat \<Rightarrow> pyfloat \<Rightarrow> djson" where
  "sample_file capacity delivered = DObj [(''synthetic_data'', DBool True),
     (''scenarios'', DArr [sample_scenario capacity delivered])]"

lemma sample_accepted:
  "load_scenarios (sample_file (Fin False 120) (Fin False 58)) = Inr [(''Peak'', sample_scenario (Fin False 120) (Fin False 58))]"
  by code_simp

theorem capacity_chart_is_faithful_witness:
  "\<exists>html off r d. render_capacity (sample_scenario (Fin False 120) (Fin False 58)) = Inr html \<and> marks html = (26, 28) \<and>
     bar_widths (sample_asset (Fin False 120) (Fin False 58)) = Inr (Fin False 120, [off, r, d]) \<and>
     fle d r \<and> fle r off \<and> fle off (Fin False 100)"
proof -
  have w: "bar_widths (sample_asset (Fin False 120) (Fin False 58)) = Inr (c, ws) \<Longrightarrow> c = Fin False 120" for c ws
    by (auto simp: bar_widths_def sample_asset_def figure_def index_def as_float_def)
  show ?thesis
    using capacity_chart_is_faithful [OF sample_accepted, of "''Peak''" "sample_scenario (Fin False 120) (Fin False 58)"] w
    by (auto simp: sample_file_def sample_scenario_def sample_asset_def index_def)
qed

text \<open>
  Two gaps of the checks: a figure that is no number, or an infinite capacity, is accepted and
  shown as such; and a scenario without controls is accepted but cannot be rendered.
\<close>

lemma odd_figures_accepted:
  "load_scenarios (sample_file (PInf False) NaN) = Inr [(''Peak'', sample_scenario (PInf False) NaN)] \<and>
   number NaN = ''nan'' \<and> number (PInf False) = ''inf''"
  by code_simp

lemma missing_controls_crash:
  "render_scenario compensated (sample_file (Fin False 120) (Fin False 58)) ''Peak'' =
     Inl (OtherError ''KeyError'' (repr_string ''controls''))"
  "first_view compensated (sample_file (Fin False 120) (Fin False 58)) =
     Inl (OtherError ''KeyError'' (repr_string ''controls''))"
  by (simp_all add: first_view_def scenario_names_def render_scenario_def rbind_def sample_accepted table_def index_def
      sample_scenario_def)

end
