(* ===== verification/Spec2Isabelle.thy ===== *)
theory Spec2Isabelle
  imports PropertiesData PropertiesOutbox PropertiesService PropertiesDeployment PropertiesRelease
    PropertiesDashboard
begin

text \<open>
  Energy Flex Trust Platform: a verification library of its coordination service, audit chain,
  outbox worker, API and authentication (the Python package under
  src/src/energy_flex_trust), and of what surrounds it: the migrations, the worker and recovery
  processes, signed checkpoints, the recovery drill, the release checks and the dashboard.

  \<^bold>\<open>The program.\<close>  Asset owners register assets and offer flexibility; market operators
  reserve an offer and dispatch the reservation; a dispatch is queued in an outbox table in the
  same transaction, and a worker process claims the message, publishes it outside any transaction
  and records the outcome; meter readings arrive; a settlement analyst, who must not be the
  operator, settles the delivered reservation; every change appends an event to a hash chain; a
  recovery operator can re-drive a message that was given up.  Processes share nothing but the
  database, and each of their operations is one transaction.

  \<^bold>\<open>How the code is modelled.\<close>  A table is a list of records and the database
  a record of nine tables (Models); an insert checks the declared unique keys, foreign keys and,
  when \<open>strict_widths\<close> is set (PostgreSQL; SQLite does not check), the column widths.  An operation
  maps a database to a result and a database, an exception is the left value of the result and
  undoes its transaction.  SHA-256, pydantic's two JSON serializers, PyJWT and the Ed25519
  operations are parameters; the identifiers, clock readings and sequence gaps an operation draws are a parameter \<open>draws\<close> of each
  call, so every theorem holds for every clock and every choice of identifiers.

  The theories, in order, and what they model:
    \<^item> Prelude: exceptions, Python strings, keyed tables, the codec interface.
    \<^item> Decimals, Datetimes, CanonicalJson: the parts of the standard library the code relies on
      (decimal arithmetic in the default context, \<open>isoformat\<close> and its inverse, \<open>json.dumps\<close> with
      sorted keys and \<open>json.loads\<close>), and \<open>canonical_json\<close> of audit.py.
    \<^item> PyValues: how Python prints and compares decoded JSON values, \<open>date.fromisoformat\<close>.
    \<^item> DomainTypes (domain.py, errors.py), Models (models.py).
    \<^item> Schema (models.py as SQLAlchemy declares it, migrations/versions): tables, columns, keys and
      indexes as data, the migration operations and their effect on a schema, and when a stored value
      fits a column.
    \<^item> AuditChain (audit.py): the hash of an event, \<open>append_event\<close>, \<open>verify_chain\<close>; the interface
      \<open>hash_chain\<close>.
    \<^item> Store: attribute assignment on loaded rows, and the interface \<open>store_invariant\<close> of properties
      every write keeps, interpreted for keys, references, the chain and append-only tables.
    \<^item> Ports (ports.py, openadr.py): the publishers and their contract, the interface \<open>publisher\<close>.
    \<^item> Outbox (outbox.py): payload format, enqueueing, the worker, the snapshot.
    \<^item> Schemas (schemas.py), Service (service.py), Redrive (redrive.py), Auth (config.py, auth.py),
      Api (api.py); the interfaces \<open>validated\<close> and \<open>atomic_operation\<close>.
    \<^item> Checkpoints (checkpoints.py): base64, the signing payload, signed heads of the chain.
    \<^item> Database (database.py, worker.py, recovery_cli.py): the schema check over the catalogue an
      inspector sees, and the two processes with their guards.
    \<^item> RecoveryDrill (scripts/recovery_drill.py): the drill's fixture, seeding and verification.
    \<^item> ReleaseChecks (scripts/verify_advisory_exceptions.py, generate_sbom.py, verify_db_privileges.py):
      the three release checks over what they read from outside.
    \<^item> Floats: Python's binary64 \<open>float\<close> with exact rounding to nearest, its arithmetic, comparison, \<open>sum\<close>,
      \<open>format\<close> and \<open>repr\<close>; rounding is monotone and keeps representable numbers.
    \<^item> Dashboard (dashboard.py): loading and checking the scenarios, and the cards, the chart, the
      tables and the Markdown texts made of them.
    \<^item> Lifecycle, Terms: the coupled statuses of message, dispatch, reservation and offer, and the
      agreed quantities and windows, each kept by every operation.
    \<^item> Platform: the system of API processes and workers as a step relation; the interfaces
      \<open>invariant\<close> and \<open>refinement\<close>; the combined invariant.
    \<^item> Refinement: the abstract life cycle of a reservation and the simulation.
    \<^item> Responses (schemas.py, api.py): the read models, what a route answers with them, and the invariant
      that stored rows satisfy them; the interface \<open>read_model\<close>.
    \<^item> Idempotency, Evidence: what a recorded key and a settlement's evidence guarantee later.
    \<^item> Columns: the rows every operation stores, when its request passed the schemas, against the widths
      the migrations declare.
    \<^item> Leases: who holds a message while others claim, retry and re-drive, over runs of the platform.
    \<^item> Scenario: one concrete run, the drill's own, evaluated, from which the witnesses are taken.
    \<^item> Batches, DrillRuns: a worker's batch and a seeded drill as steps of the platform.
    \<^item> Startup (api.py, worker.py, scripts/recovery_drill.py, migrations/env.py): how the processes start,
      the command lines after argparse, and the database Alembic is pointed at.
    \<^item> PropertiesData, PropertiesOutbox, PropertiesService, PropertiesDeployment, PropertiesRelease,
      PropertiesDashboard and this theory: the properties, each under its claim id, with a witness at concrete values where it has hypotheses.

  \<^bold>\<open>Interleaving.\<close>  A step of the platform is one transaction: requests, claims, records of outcomes,
  re-drives and worker crashes interleave freely, each taken as a whole.  This is what the row locks and unique keys
  of the code give, with these exceptions.  (1) \<open>append_event\<close> locks the latest event it sees,
  not the end of the table, so under PostgreSQL it may link to an event that is no longer the latest.  Every
  step of the model allows this: the number of committed events an operation did not see is one of its
  draws (\<open>unseen\<close>), \<open>seen_events\<close> is what it read, and a database where this cannot happen is one with
  \<open>serial_appends\<close> (one writing process; SQLite).  The chain is claimed to verify under that condition only, and what a
  stale read does is a theorem of PropertiesData.  (2) \<open>_record_success\<close> and \<open>_record_failure\<close> read the message with
  \<open>session.get\<close> and no lock.  \<open>record_success_from\<close> and \<open>record_failure_from\<close> take the database they
  read and the database they write separately; the platform's steps are the case where nothing was committed
  between the two, and a theorem of PropertiesOutbox says what the other case does.  (3) Two concurrent first requests
  with one idempotency key end with a constraint error for one of them; the model runs them one after the
  other, and the second is a replay.  (4) Sequence numbers are drawn in the order of commits.

  \<^bold>\<open>Both backends.\<close>  \<open>numeric6\<close> rounds to six places exactly, as PostgreSQL does; SQLite stores a \<open>NUMERIC\<close> as binary64,
  which keeps the value for up to fifteen significant digits and not beyond, and the model has the exact value there too.
  SQLite returns naive timestamps; the rows of the model keep their offsets and \<open>read_resource\<close>
  applies the loss (\<open>aware\<close>), so that \<open>serve\<close> is a route up to the validation of its answer and
  \<open>exchange\<close> the whole of it.

  \<^bold>\<open>Recursion.\<close>  All recursions are structural, over the batch limit, over a text that gets shorter or halve a number (\<open>bits\<close>); the JSON reader
  takes the length of its text as fuel, which \<open>json_loads_text\<close> shows to be enough for every text
  the writer produces.

  \<^bold>\<open>Texts.\<close>  A character has a code below 256: texts beyond Latin-1 are outside the
  model.  The JSON file between the two commands of the drill is the reported object with each
  value encoded and decoded (\<open>report_json\<close>).  The text of a schema error quotes the found revision
  as \<open>repr\<close> does for a revision without quotes.

  \<^bold>\<open>Not modelled.\<close>  FastAPI's routing, the JSON text of responses, SQLAlchemy's unit of work beyond the order of inserts, the loss of UTC offsets by SQLite except
  in the answers of Responses, session construction, argparse, and what the commands print or read
  from files; the logging and the run of Alembic; app.py and \<open>build_dashboard\<close>, which
  lay the rendered texts out with Gradio; and of the release scripts, the parser of the sources, the list of
  installed packages, the clock and the database connections, which are parameters.
\<close>

section \<open>What every reachable state satisfies\<close>

lemma reach_sound: "reach (step E) start p \<Longrightarrow> sound E p"
  using sys.always sound_start by blast

lemma reach_parts:
  assumes "reach (step E) start p"
  shows "keys_ok (store p)" "refs_ok (store p)" "lifecycle_ok (store p)" "terms_ok (store p)"
    "audit_ok E (store p)" "\<forall>c\<in>set (claims p). claim_held (store p) c"
  using reach_sound [OF assms] by (simp_all add: sound_def sound_db_def)

text \<open>The states of a dispatch and its reservation that go with each state of its message.\<close>

definition consistent :: "outbox_status \<Rightarrow> dispatch_status \<Rightarrow> reservation_status \<Rightarrow> bool" where
  "consistent m d r = (case m of
     PENDING \<Rightarrow> d = QUEUED \<and> r = DISPATCH_PENDING
   | PROCESSING \<Rightarrow> d = QUEUED \<and> r = DISPATCH_PENDING
   | PUBLISHED \<Rightarrow> (d = ISSUED \<and> r = DISPATCHED) \<or> (d = DSP_COMPLETED \<and> r = RES_COMPLETED)
   | DEAD \<Rightarrow> d = REJECTED \<and> r = RES_CANCELLED)"

lemma phase_consistent: "phase m d r = consistent m d r"
  by (cases m; cases d; cases r) (simp_all add: consistent_def)

text \<open>C1: The three records of a delivery never disagree.  In every reachable state, whatever requests,
  workers, crashes and re-drives came before, each of them one transaction, each outbox message has its dispatch and that has its
  reservation; their states fit together; and the message is locked exactly while it is in work.\<close>

theorem delivery_records_agree:
  assumes "reach (step E) start p" "m \<in> set (messages (store p))"
  shows "\<exists>dsp rsv. lookup dsp_id (msg_aggregate_id m) (dispatches (store p)) = Some dsp \<and>
     lookup rsv_id (dsp_reservation_id dsp) (reservations (store p)) = Some rsv \<and>
     consistent (msg_status m) (dsp_status dsp) (rsv_status rsv) \<and>
     (msg_locked_by m \<noteq> None \<longleftrightarrow> msg_status m = PROCESSING)"
proof -
  note ok = reach_parts [OF assms(1)]
  obtain d r where l: "lookup dsp_id (msg_aggregate_id m) (dispatches (store p)) = Some d"
    "lookup rsv_id (dsp_reservation_id d) (reservations (store p)) = Some r"
    using message_dispatch [OF ok(3,2) assms(2)] .
  have "phase (msg_status m) (dsp_status d) (rsv_status r)"
    by (rule message_linked [OF ok(3,1) assms(2) l])
  moreover have "msg_locked_by m = None \<longleftrightarrow> msg_status m \<noteq> PROCESSING"
    using ok(3) assms(2) by (rule lifecycle_message)
  ultimately show ?thesis using l by (auto simp: phase_consistent)
qed

theorem delivery_records_agree_witness:
  "\<exists>p m. reach (step E0) start p \<and> m \<in> set (messages (store p)) \<and> msg_status m = DEAD \<and>
     (\<exists>dsp rsv. lookup dsp_id (msg_aggregate_id m) (dispatches (store p)) = Some dsp \<and>
        lookup rsv_id (dsp_reservation_id dsp) (reservations (store p)) = Some rsv \<and>
        consistent DEAD (dsp_status dsp) (rsv_status rsv))"
proof -
  obtain es where r: "reach (step E0) start (pf (F6 es) [])" by (rule to_given_up)
  have m: "m4 \<in> set (messages (store (pf (F6 es) [])))" by (simp add: F6_def)
  have dead: "msg_status m4 = DEAD" by (simp add: m4_def mark_dead_def)
  obtain dsp rsv where d: "lookup dsp_id (msg_aggregate_id m4) (dispatches (store (pf (F6 es) []))) = Some dsp"
      "lookup rsv_id (dsp_reservation_id dsp) (reservations (store (pf (F6 es) []))) = Some rsv"
      "consistent DEAD (dsp_status dsp) (rsv_status rsv)"
    using delivery_records_agree [OF r m, unfolded dead] by blast
  from r m dead d show ?thesis
    by (intro exI [of _ "pf (F6 es) []"] exI [of _ m4] exI [of _ dsp] exI [of _ rsv] conjI)
qed

text \<open>C2: Nothing is promised that is not backed.  In every reachable state each dispatch asks for a
  positive power within its reservation, that is within its offer, that is within the registered
  capacity of the asset of the actor who offered it; and the dispatched interval is not empty and
  lies inside the offered window.\<close>

theorem promises_are_backed:
  assumes "reach (step E) start p" "d \<in> set (dispatches (store p))"
  shows "\<exists>r\<in>set (reservations (store p)). \<exists>f\<in>set (offers (store p)). \<exists>a\<in>set (assets (store p)).
     rsv_id r = dsp_reservation_id d \<and> ofr_id f = rsv_offer_id r \<and> ast_id a = ofr_asset_id f \<and>
     ast_owner_id a = ofr_created_by f \<and>
     0 < dec_val (dsp_target_kw d) \<and> dec_val (dsp_target_kw d) \<le> dec_val (rsv_quantity_kw r) \<and>
     dec_val (rsv_quantity_kw r) \<le> dec_val (ofr_quantity_kw f) \<and>
     dec_val (ofr_quantity_kw f) \<le> dec_val (ast_capacity_kw a) \<and>
     instant (ofr_window_start f) \<le> instant (dsp_starts_at d) \<and>
     instant (dsp_starts_at d) < instant (dsp_ends_at d) \<and>
     instant (dsp_ends_at d) \<le> instant (ofr_window_end f)"
proof -
  note ok = reach_parts [OF assms(1)]
  obtain r f where r: "r \<in> set (reservations (store p))" "rsv_id r = dsp_reservation_id d"
      "0 < dec_val (dsp_target_kw d)" "dec_val (dsp_target_kw d) \<le> dec_val (rsv_quantity_kw r)"
    and f: "f \<in> set (offers (store p))" "ofr_id f = rsv_offer_id r"
      "instant (ofr_window_start f) \<le> instant (dsp_starts_at d)"
      "instant (dsp_starts_at d) < instant (dsp_ends_at d)"
      "instant (dsp_ends_at d) \<le> instant (ofr_window_end f)"
    using ok(4) assms(2) unfolding terms_ok_def dispatch_backed_def by blast
  obtain f' where f': "f' \<in> set (offers (store p))" "ofr_id f' = rsv_offer_id r"
      "dec_val (rsv_quantity_kw r) \<le> dec_val (ofr_quantity_kw f')"
    using ok(4) r(1) unfolding terms_ok_def reservation_backed_def by blast
  have "f' = f"
    by (rule keyed_unique [of ofr_id]) (use ok(1) f f' in \<open>simp_all add: keys_ok_def\<close>)
  moreover obtain a where "a \<in> set (assets (store p))" "ast_id a = ofr_asset_id f"
      "ast_owner_id a = ofr_created_by f" "dec_val (ofr_quantity_kw f) \<le> dec_val (ast_capacity_kw a)"
    using ok(4) f(1) unfolding terms_ok_def offer_backed_def by blast
  ultimately show ?thesis using r f f' by blast
qed

theorem promises_are_backed_witness:
  "\<exists>p d. reach (step E0) start p \<and> d \<in> set (dispatches (store p)) \<and>
     (\<exists>a\<in>set (assets (store p)). 0 < dec_val (dsp_target_kw d) \<and> dec_val (dsp_target_kw d) \<le> dec_val (ast_capacity_kw a))"
proof -
  obtain es where r: "reach (step E0) start (pf (S4 es) [])" by (rule to_claimed)
  have d: "d1 QUEUED (''outbox:'' @ uuid (D 4) 1) \<in> set (dispatches (store (pf (S4 es) [])))"
    by (simp add: S4_def)
  from promises_are_backed [OF r d] r d show ?thesis
    by (meson order_trans)
qed

text \<open>C3: As long as appends are serialised, the audit chain of a database that only this code wrote always
  verifies: the verification finds every event, no break, and the hash of the last event as the head.
  Serialised means that no event is committed between the read of the latest event and the insert of
  the next one, as when a single process writes or under SQLite's single writer; the row lock of the
  code does not provide it under PostgreSQL, and what happens then is a property of PropertiesData.\<close>

theorem audit_chain_always_verifies:
  assumes "reach (step E) start p" "serial_appends E"
  shows "verify_chain E (store p) = \<lparr>av_valid = True, av_event_count = length (events (store p)),
     av_head_hash = (if events (store p) = [] then GENESIS_HASH else evt_hash (last (events (store p)))),
     av_broken_sequence = None\<rparr>"
  using verify_chain_audit_ok [OF reach_parts(5) [OF assms(1)] assms(2)] by (simp add: chain_head_def)

theorem audit_chain_always_verifies_witness:
  "\<exists>p. reach (step E0) start p \<and> events (store p) \<noteq> [] \<and> av_valid (verify_chain E0 (store p))"
proof -
  obtain es where r: "reach (step E0) start (pf (S4 es) [])" "evt_id ` set es = ids4" by (rule to_claimed)
  have "events (store (pf (S4 es) [])) \<noteq> []" using r(2) by (auto simp: S4_def ids4_def)
  with r audit_chain_always_verifies [OF r(1) E0_widths(2)] show ?thesis by auto
qed

text \<open>C4: Nothing that was recorded is lost or rewritten.  Along any run the events, assets, readings
  and idempotency records only grow at the end, and offers, reservations, dispatches, settlements
  and outbox messages keep their identity and agreed terms: only statuses and delivery data move.\<close>

theorem records_are_append_only:
  assumes "reach (step E) p q"
  shows "prefix (events (store p)) (events (store q)) \<and> prefix (assets (store p)) (assets (store q)) \<and>
     prefix (readings (store p)) (readings (store q)) \<and> prefix (idem (store p)) (idem (store q)) \<and>
     prefix (map offer_terms (offers (store p))) (map offer_terms (offers (store q))) \<and>
     prefix (map reservation_terms (reservations (store p))) (map reservation_terms (reservations (store q))) \<and>
     prefix (map dispatch_terms (dispatches (store p))) (map dispatch_terms (dispatches (store q))) \<and>
     prefix (map settlement_terms (settlements (store p))) (map settlement_terms (settlements (store q))) \<and>
     prefix (map message_terms (messages (store p))) (map message_terms (messages (store q)))"
  using reach_retains [OF assms] by (simp add: retains_def)

theorem records_are_append_only_witness:
  "\<exists>p q. reach (step E0) p q \<and> prefix (readings (store p)) (readings (store q)) \<and>
     length (readings (store p)) < length (readings (store q))"
proof -
  obtain es6 es7 where r: "reach (step E0) (pf (S6 es6) []) (pf (S7 es7) [])" by (rule to_settled)
  have "length (readings (store (pf (S6 es6) []))) < length (readings (store (pf (S7 es7) [])))"
    by (simp add: S6_def S7_def S4_def empty_db_def)
  with records_are_append_only [OF r] r show ?thesis by blast
qed

text \<open>C5: Refinement: seen through the status of each reservation, every run of API processes, workers,
  crashes and re-drives is a run of the abstract life cycle: reserve, queue, deliver or give up,
  queue again after giving up, complete after delivery; no other move exists.\<close>

theorem runs_refine_life_cycle:
  assumes "reach (step E) start p"
  shows "reach life_step (\<lambda>_. None) (life_of (store p))"
proof -
  have "life_of (store start) = (\<lambda>_. None)"
    by (simp add: fun_eq_iff life_of_def start_def empty_db_def lookup_Nil)
  with life.refines [OF assms sound_start] show ?thesis by simp
qed

theorem runs_refine_life_cycle_witness:
  "\<exists>p. reach (step E0) start p \<and> reach life_step (\<lambda>_. None) (life_of (store p)) \<and>
     life_of (store p) (uuid (D 3) 0) = Some RES_COMPLETED"
proof -
  obtain es5 es6 es7 es8 where r: "reach (step E0) start (pf (S5 es5) [c1])"
    "reach (step E0) (pf (S5 es5) [c1]) (pf (S6 es6) [])" "reach (step E0) (pf (S6 es6) []) (pf (S7 es7) [])"
    "reach (step E0) (pf (S7 es7) []) (pf (S8 es8) [])" by (rule to_settled)
  have p: "reach (step E0) start (pf (S8 es8) [])" using r by (blast intro: reach_trans)
  have "life_of (store (pf (S8 es8) [])) (uuid (D 3) 0) = Some RES_COMPLETED"
    by (simp add: life_of_def S8_def r1_def lookup_Cons)
  with runs_refine_life_cycle [OF p] p show ?thesis by blast
qed

section \<open>Idempotency\<close>










text \<open>C9: A key cannot be used for something else.  After a reservation under a key, a request with the
  same key for another offer, by another operator or for another quantity is refused with a
  conflict and changes nothing, unless the two request texts collide under the hash.\<close>

theorem reused_key_conflicts:
  assumes "reserve_offer E d oid c a key (store p) = (Inr x, s')" "reach (step E) (p\<lparr>store := s'\<rparr>) q"
    and "actor_role a' = MARKET_OPERATOR"
    and "oid' \<noteq> oid \<or> actor_id a' \<noteq> actor_id a \<or>
      dec_format (rc_quantity_kw c') \<noteq> dec_format (rc_quantity_kw c)"
    and "inj_on (sha256 E) {canonical_json (reserve_request oid c a), canonical_json (reserve_request oid' c' a')}"
  shows "reserve_offer E d' oid' c' a' key (store q) =
     (Inl (ConflictError ''Idempotency-Key was already used with a different request.''), store q)"
proof -
  have ret: "retains s' (store q)" using reach_retains [OF assms(2)] by simp
  obtain r where r: "\<not> blank key" "idem_lookup ''reserve_offer'' key s' = Some r"
      "idm_request_hash r = reserve_hash E oid c a"
    using reserve_recorded [OF assms(1)] by blast
  have "canonical_json (reserve_request oid c a) \<noteq> canonical_json (reserve_request oid' c' a')"
    using reserve_request_binds assms(4) by metis
  then have "reserve_hash E oid c a \<noteq> reserve_hash E oid' c' a'"
    using assms(5) by (auto simp: request_hash_def sha256_json_def dest: inj_onD)
  with r(3) show ?thesis
    by (intro reserve_repeated(2) [OF assms(3) r(1) idem_kept [OF ret r(2)]]) simp
qed

theorem reused_key_conflicts_witness:
  "\<exists>s. reserve_offer E0 (D 9) ''other'' reserve_cmd operator ''recovery-reservation-001'' s =
     (Inl (ConflictError ''Idempotency-Key was already used with a different request.''), s) \<and>
     length (reservations s) = 1"
proof -
  obtain es es3 x where e: "reserve_offer E0 (D 3) (uuid (D 2) 0) reserve_cmd operator ''recovery-reservation-001'' (S2 es) = (Inr x, S3 es3)"
    by (rule to_offered)
  have "length (reservations (S3 es3)) = 1" by (simp add: S3_def)
  with reused_key_conflicts [of E0 "D 3" "uuid (D 2) 0" reserve_cmd operator "''recovery-reservation-001''" "pf (S2 es) []" x "S3 es3"
      "pf (S3 es3) []" operator "''other''" reserve_cmd "D 9"] e show ?thesis
    by (auto simp: pf_def recovery_operator_def E0_def D_def intro: reach_refl)
qed

section \<open>Settlement\<close>

text \<open>C6: A reservation is settled at most once, by someone else, exactly when it is completed.  In every
  reachable state no two settlements are of one reservation; a reservation is completed if and only
  if there is a settlement of it; and the analyst of each settlement is neither the operator who
  reserved nor the one who dispatched.\<close>

theorem settlements_unique_and_separate:
  assumes "reach (step E) start p"
  shows "distinct (map stl_reservation_id (settlements (store p))) \<and>
     (\<forall>r\<in>set (reservations (store p)). rsv_status r = RES_COMPLETED \<longleftrightarrow>
        (\<exists>x\<in>set (settlements (store p)). stl_reservation_id x = rsv_id r)) \<and>
     (\<forall>x\<in>set (settlements (store p)).
        \<exists>r\<in>set (reservations (store p)). \<exists>d\<in>set (dispatches (store p)).
          rsv_id r = stl_reservation_id x \<and> rsv_status r = RES_COMPLETED \<and>
          dsp_reservation_id d = rsv_id r \<and>
          stl_settled_by x \<noteq> rsv_requested_by r \<and> stl_settled_by x \<noteq> dsp_issued_by d)"
proof (intro conjI)
  note ok = reach_parts [OF assms]
  show "distinct (map stl_reservation_id (settlements (store p)))" using ok(1) by (simp add: keys_ok_def)
  have completed: "rsv_status r = RES_COMPLETED \<longleftrightarrow> (\<exists>x\<in>set (settlements (store p)). stl_reservation_id x = rsv_id r)"
    if "r \<in> set (reservations (store p))" for r
  proof -
    have "reservation_ok (store p) r" using ok(3) that by (simp add: lifecycle_ok_def)
    then show ?thesis unfolding reservation_ok_def image_iff by metis
  qed
  then show "\<forall>r\<in>set (reservations (store p)). rsv_status r = RES_COMPLETED \<longleftrightarrow>
      (\<exists>x\<in>set (settlements (store p)). stl_reservation_id x = rsv_id r)" by blast
  show "\<forall>x\<in>set (settlements (store p)).
        \<exists>r\<in>set (reservations (store p)). \<exists>d\<in>set (dispatches (store p)).
          rsv_id r = stl_reservation_id x \<and> rsv_status r = RES_COMPLETED \<and>
          dsp_reservation_id d = rsv_id r \<and>
          stl_settled_by x \<noteq> rsv_requested_by r \<and> stl_settled_by x \<noteq> dsp_issued_by d"
  proof
    fix x assume x: "x \<in> set (settlements (store p))"
    then obtain r d where r: "r \<in> set (reservations (store p))" "rsv_id r = stl_reservation_id x"
        "stl_settled_by x \<noteq> rsv_requested_by r" "d \<in> set (dispatches (store p))"
        "dsp_reservation_id d = stl_reservation_id x" "stl_settled_by x \<noteq> dsp_issued_by d"
      using ok(4) unfolding terms_ok_def settlement_backed_def by blast
    have "rsv_status r = RES_COMPLETED" using completed [OF r(1)] r(2) x by auto
    with r show "\<exists>r\<in>set (reservations (store p)). \<exists>d\<in>set (dispatches (store p)).
          rsv_id r = stl_reservation_id x \<and> rsv_status r = RES_COMPLETED \<and>
          dsp_reservation_id d = rsv_id r \<and>
          stl_settled_by x \<noteq> rsv_requested_by r \<and> stl_settled_by x \<noteq> dsp_issued_by d"
      by (intro bexI [of _ r] bexI [of _ d]) simp_all
  qed
qed

lemma settled_platform:
  obtains es where "reach (step E0) start (pf (S8 es) [])"
proof -
  obtain es5 es6 es7 es8 where r: "reach (step E0) start (pf (S5 es5) [c1])"
    "reach (step E0) (pf (S5 es5) [c1]) (pf (S6 es6) [])" "reach (step E0) (pf (S6 es6) []) (pf (S7 es7) [])"
    "reach (step E0) (pf (S7 es7) []) (pf (S8 es8) [])" by (rule to_settled)
  then have "reach (step E0) start (pf (S8 es8) [])" by (blast intro: reach_trans)
  then show ?thesis by (rule that)
qed

theorem settlements_unique_and_separate_witness:
  "\<exists>p x. reach (step E0) start p \<and> x \<in> set (settlements (store p)) \<and>
     (\<exists>r\<in>set (reservations (store p)). rsv_status r = RES_COMPLETED \<and> stl_settled_by x \<noteq> rsv_requested_by r)"
proof -
  obtain es where r: "reach (step E0) start (pf (S8 es) [])" by (rule settled_platform)
  have x: "t1 (last es) \<in> set (settlements (store (pf (S8 es) [])))" by (simp add: S8_def)
  from settlements_unique_and_separate [OF r] x r show ?thesis by blast
qed

text \<open>C7: Evidence can be checked and computed again.  In every reachable state the stored hash of each
  settlement is the hash of its manifest, so the evidence endpoint reports it valid.  The manifest is
  of the stored reservation of the settlement, of the stored offer of that reservation, of the stored
  dispatch of it and of the event that is its audit record; and it names all the readings, and no
  others, that had been recorded by then for the offered asset inside the dispatched interval,
  whose energy and the offered price give exactly the stored amounts.\<close>

theorem evidence_stays_valid:
  assumes "reach (step E) start p" "lookup stl_id i (settlements (store p)) = Some x"
    and "settlement_evidence E i a (store p) = Inr ev"
  shows "ev_hash_valid ev \<and> ev_manifest ev = stl_evidence_manifest x \<and> evidence_backed E (store p) x"
proof -
  have "evidence_ok E (store p)"
    using sys_evidence.always [OF assms(1)] by (simp add: evidence_ok_def start_def empty_db_def)
  then have "evidence_backed E (store p) x" using lookup_Some [OF assms(2)] by (simp add: evidence_ok_def)
  with assms(2,3) show ?thesis
    by (auto simp: settlement_evidence_def evidence_backed_def split: sum.splits)
qed

theorem evidence_stays_valid_witness:
  "\<exists>p ev. reach (step E0) start p \<and> settlement_evidence E0 (uuid (D 8) 0) analyst (store p) = Inr ev \<and>
     ev_hash_valid ev"
proof -
  obtain es where r: "reach (step E0) start (pf (S8 es) [])" by (rule settled_platform)
  have l: "lookup stl_id (uuid (D 8) 0) (settlements (store (pf (S8 es) []))) = Some (t1 (last es))"
    by (simp add: S8_def t1_def Let_def lookup_Cons)
  then obtain ev where ev: "settlement_evidence E0 (uuid (D 8) 0) analyst (store (pf (S8 es) [])) = Inr ev"
    by (simp add: settlement_evidence_def require_role_def recovery_analyst_def)
  from evidence_stays_valid [OF r l ev] r ev show ?thesis by blast
qed

end
